theory Spec2Isabelle
  imports Main "HOL-Library.Word"
begin

section \<open>Data model of \<open>src/gpu/dpcpp_ccl.cpp\<close>\<close>

text \<open>
  The XPU backend of the oneCCL process group.  Exceptions are values: a \<open>throw
  std::runtime_error(msg)\<close> is \<open>Inl (runtime_error msg)\<close>, a failed \<open>TORCH_CHECK(c, msg)\<close>
  is \<open>Inl (c10_Error msg)\<close>.  Reading a \<open>std::vector\<close> past its end and dividing by zero
  are undefined in C++; the model gives them the branch \<open>Inl (undefined_behaviour what)\<close>
  instead of a HOL default value.
\<close>

datatype error =
    runtime_error string
  | c10_Error string
  | ccl_exception string
  | TimeoutError
  | out_of_range string
  | undefined_behaviour string

datatype DeviceType = CPU | XPU | CUDA

datatype ScalarType =
  kByte | kChar | kShort | kInt | kLong | kHalf | kFloat | kDouble | kBool | kBFloat16

record Device =
  dev_type :: DeviceType
  dev_index :: int

text \<open>
  The part of an \<open>at::Tensor\<close> that the entry points look at: layout flags, element type,
  shape and device.  \<open>numel\<close> is the product of the sizes (1 for a zero-dimensional tensor).
\<close>

record Tensor =
  is_sparse :: bool
  scalar_type :: ScalarType
  sizes :: "nat list"
  is_contiguous :: bool
  device :: Device

definition numel :: "Tensor \<Rightarrow> nat" where
  "numel t = prod_list (sizes t)"

definition get_device :: "Tensor \<Rightarrow> int" where
  "get_device t = dev_index (device t)"

text \<open>\<open>tensor.size(0)\<close>: a tensor without dimensions has no dimension 0.\<close>

definition size0 :: "Tensor \<Rightarrow> error + nat" where
  "size0 t = (case sizes t of
      [] \<Rightarrow> Inl (c10_Error ''Dimension specified as 0 but tensor has no dimensions'')
    | n # _ \<Rightarrow> Inr n)"

text \<open>\<open>static_cast<size_t>(device_count)\<close> for an \<open>int\<close>: a negative count wraps to a huge one.\<close>

definition size_t_of_int :: "int \<Rightarrow> nat" where
  "size_t_of_int i = (if i < 0 then nat (i + 2 ^ 64) else nat i)"

section \<open>\<open>check_tensors_properties\<close>\<close>

text \<open>
  The body of the \<open>for (const auto& t : tensors)\<close> loop, with the set \<open>usedDevices\<close> as the
  loop state.  The six checks are in the order of the source; the first one that fails
  throws.
\<close>

fun check_each :: "Tensor \<Rightarrow> DeviceType \<Rightarrow> int set \<Rightarrow> Tensor list \<Rightarrow> error + unit" where
  "check_each first dt usedDevices [] = Inr ()"
| "check_each first dt usedDevices (t # ts) =
     (if is_sparse t then Inl (runtime_error ''Tensors must be dense'')
      else if scalar_type t \<noteq> scalar_type first then
        Inl (runtime_error ''Tensors must have identical type'')
      else if sizes t \<noteq> sizes first then
        Inl (runtime_error ''Tensors must have identical size'')
      else if \<not> is_contiguous t then Inl (runtime_error ''Tensors must be contiguous'')
      else if dt \<noteq> dev_type (device t) then
        Inl (runtime_error ''Tensors must be on the same device type'')
      else if get_device t \<in> usedDevices then
        Inl (runtime_error ''Tensors must be on distinct devices'')
      else check_each first dt (insert (get_device t) usedDevices) ts)"

text \<open>
  \<open>device_count\<close> is what \<open>xpu::dpcpp::device_count()\<close> returns, an \<open>int\<close> of the device
  runtime.
\<close>

definition check_tensors_properties :: "int \<Rightarrow> Tensor list \<Rightarrow> error + DeviceType" where
  "check_tensors_properties device_count tensors =
     (case tensors of
        [] \<Rightarrow> Inl (runtime_error ''Tensor list must be nonempty'')
      | first # _ \<Rightarrow>
          if length tensors > size_t_of_int device_count then
            Inl (runtime_error ''Tensor list mustn't be larger than the number of available GPUs'')
          else
            (case check_each first (dev_type (device first)) {} tensors of
               Inl e \<Rightarrow> Inl e
             | Inr _ \<Rightarrow> Inr (dev_type (device first))))"

text \<open>What the validator is specified to accept.\<close>

definition homogeneous :: "Tensor \<Rightarrow> Tensor list \<Rightarrow> bool" where
  "homogeneous first ts \<longleftrightarrow>
     (\<forall>t \<in> set ts. \<not> is_sparse t \<and> is_contiguous t \<and> scalar_type t = scalar_type first \<and>
        sizes t = sizes first \<and> dev_type (device t) = dev_type (device first))"

definition valid_tensor_set :: "int \<Rightarrow> Tensor list \<Rightarrow> bool" where
  "valid_tensor_set device_count ts \<longleftrightarrow>
     ts \<noteq> [] \<and> int (length ts) \<le> device_count \<and> homogeneous (hd ts) ts \<and>
     distinct (map get_device ts)"

text \<open>The condition that each message of the validator names, as a violation.\<close>

definition violated :: "error \<Rightarrow> int \<Rightarrow> Tensor list \<Rightarrow> bool" where
  "violated e device_count ts \<longleftrightarrow>
     e = runtime_error ''Tensor list must be nonempty'' \<and> ts = [] \<or>
     e = runtime_error ''Tensor list mustn't be larger than the number of available GPUs'' \<and>
       int (length ts) > device_count \<or>
     e = runtime_error ''Tensors must be dense'' \<and> (\<exists>t \<in> set ts. is_sparse t) \<or>
     e = runtime_error ''Tensors must have identical type'' \<and>
       (\<exists>t \<in> set ts. scalar_type t \<noteq> scalar_type (hd ts)) \<or>
     e = runtime_error ''Tensors must have identical size'' \<and>
       (\<exists>t \<in> set ts. sizes t \<noteq> sizes (hd ts)) \<or>
     e = runtime_error ''Tensors must be contiguous'' \<and> (\<exists>t \<in> set ts. \<not> is_contiguous t) \<or>
     e = runtime_error ''Tensors must be on the same device type'' \<and>
       (\<exists>t \<in> set ts. dev_type (device t) \<noteq> dev_type (device (hd ts))) \<or>
     e = runtime_error ''Tensors must be on distinct devices'' \<and>
       \<not> distinct (map get_device ts)"

section \<open>The oneCCL library and the process group\<close>

text \<open>
  The library's enumerations of element types and reductions are opaque numbers.
\<close>

type_synonym ccl_datatype = nat
type_synonym ccl_reduction = nat

datatype ReduceOp =
  ReduceOp_SUM | ReduceOp_PRODUCT | ReduceOp_MIN | ReduceOp_MAX | ReduceOp_BAND | ReduceOp_BOR |
  ReduceOp_BXOR

text \<open>
  What is needed of a \<open>ccl::communicator\<close> and of the bundle \<open>Comms\<close>: the size and rank
  the communicator was created with, its device, and one stream per local device, named by
  the index of the device whose current queue it wraps.
\<close>

record communicator =
  comm_size :: nat
  comm_rank :: nat
  comm_device :: int

record Comms =
  comms :: "communicator list"
  streams :: "int list"

text \<open>
  The calls into the library with the arguments that the claims are about: counts, element
  type, reduction, root.  The first five build a communicator; their device argument is
  the index of the device whose queue is wrapped.  \<open>get_kvs\<close> is the rendezvous through
  the store of the process group, made for the argument list of
  \<open>ccl::create_communicators\<close>.
\<close>

datatype ccl_call =
    create_stream int
  | create_device int
  | create_context int
  | get_kvs nat
  | create_communicators nat "(nat \<times> int) list"
  | ccl_allreduce nat ccl_datatype ccl_reduction
  | ccl_reduce nat ccl_datatype ccl_reduction int
  | ccl_broadcast nat ccl_datatype int
  | ccl_allgatherv nat "nat list" ccl_datatype
  | ccl_alltoall nat ccl_datatype
  | ccl_alltoallv "nat list" "nat list" ccl_datatype

text \<open>
  What \<open>dpcpp_ccl.cpp\<close> uses and does not define is a parameter: the tables
  \<open>cclDatatypes\<close> and \<open>cclOps\<close>, the element types that the macro
  \<open>CCL_DISPATCH_INTEGRAL_FLOATS_TYPES\<close> accepts, the verdict of \<open>checkSingleTensorHelper\<close>
  (\<open>None\<close> when it passes), and the library's own verdict on a call (\<open>None\<close> when it
  accepts, otherwise the message of the exception that \<open>CCL_CHECK\<close> lets through).
\<close>

record ccl_env =
  cclDatatypes :: "ScalarType \<Rightarrow> ccl_datatype option"
  cclOps :: "ReduceOp \<Rightarrow> ccl_reduction option"
  dispatch_types :: "ScalarType \<Rightarrow> bool"
  checkSingleTensorHelper :: "Tensor \<Rightarrow> error option"
  ccl_rejects :: "ccl_call \<Rightarrow> string option"

text \<open>
  The state an entry point acts on: the rank and size of the process group, its cache of
  communicator bundles, and the calls made into the library so far, oldest first.
\<close>

record ProcessGroupCCL =
  getRank :: nat
  getSize :: nat
  ccl_comms :: "string \<Rightarrow> Comms option"
  issued :: "ccl_call list"

text \<open>
  One library call: it is recorded, and it throws when the library rejects it.  The
  \<open>ccl::event\<close> of an accepted call is named by the position of the call in the record.
\<close>

type_synonym event = nat

definition ccl :: "ccl_env \<Rightarrow> ccl_call \<Rightarrow> ProcessGroupCCL \<Rightarrow> (error + event) \<times> ProcessGroupCCL" where
  "ccl env c pg =
     (case ccl_rejects env c of
        Some msg \<Rightarrow> (Inl (ccl_exception msg), pg\<lparr>issued := issued pg @ [c]\<rparr>)
      | None \<Rightarrow> (Inr (length (issued pg)), pg\<lparr>issued := issued pg @ [c]\<rparr>))"

text \<open>Calls made one after the other; the first one that throws ends the sequence.\<close>

fun ccl_all ::
  "ccl_env \<Rightarrow> ccl_call list \<Rightarrow> ProcessGroupCCL \<Rightarrow> (error + unit) \<times> ProcessGroupCCL" where
  "ccl_all env [] pg = (Inr (), pg)"
| "ccl_all env (c # cs) pg =
     (case ccl env c pg of
        (Inl e, pg1) \<Rightarrow> (Inl e, pg1)
      | (Inr _, pg1) \<Rightarrow> ccl_all env cs pg1)"

text \<open>
  Modelled from the spec: \<open>get_comms\<close> and \<open>add_comms\<close> of \<open>ccl_member_\<close> are not in
  \<open>dpcpp_ccl.cpp\<close>.  The spec's communicator cache is a mapping from the device-topology
  key to the bundle: a lookup returns the entry if there is one, and a new bundle is stored
  under its key.
\<close>

definition get_comms :: "ProcessGroupCCL \<Rightarrow> string \<Rightarrow> Comms option" where
  "get_comms pg key = ccl_comms pg key"

definition add_comms :: "string \<Rightarrow> Comms \<Rightarrow> ProcessGroupCCL \<Rightarrow> ProcessGroupCCL" where
  "add_comms key c pg = pg\<lparr>ccl_comms := (ccl_comms pg)(key \<mapsto> c)\<rparr>"

text \<open>
  \<open>get_ccl_comms\<close>: the two sanity checks, the cache lookup, and on a miss the
  construction, on the current queue \<open>q\<close> of \<open>devices[0]\<close>, of a stream, a device, a
  context and one communicator of size \<open>getSize * devices.size()\<close> and rank
  \<open>getRank * devices.size()\<close>; the bundle is stored and returned.
\<close>

definition get_ccl_comms ::
  "ccl_env \<Rightarrow> ProcessGroupCCL \<Rightarrow> string \<Rightarrow> Device list \<Rightarrow> (error + Comms) \<times> ProcessGroupCCL" where
  "get_ccl_comms env pg_ccl devices_key devices =
     (if devices_key = [] then
        (Inl (runtime_error
           ''Not able to create/get the CCL Communicator since the devices are empty ''), pg_ccl)
      else if length devices \<noteq> 1 then
        (Inl (runtime_error ''Torch CCL only support one device per process now''), pg_ccl)
      else
        (case get_comms pg_ccl devices_key of
           Some cached_comms \<Rightarrow> (Inr cached_comms, pg_ccl)
         | None \<Rightarrow>
             (let total_rank_size = getSize pg_ccl * length devices;
                  local_base_rank = getRank pg_ccl * length devices;
                  q = dev_index (devices ! 0);
                  ccl_streams = [q];
                  rank = local_base_rank;
                  devs_rank = [(rank, q)]
              in case ccl_all env
                        [create_stream q, create_device q, create_context q,
                         get_kvs (getRank pg_ccl),
                         create_communicators total_rank_size devs_rank] pg_ccl of
                   (Inl e, pg1) \<Rightarrow> (Inl e, pg1)
                 | (Inr _, pg1) \<Rightarrow>
                     (let dpcpp_comms =
                            map (\<lambda>(r, d). \<lparr>comm_size = total_rank_size, comm_rank = r,
                                            comm_device = d\<rparr>) devs_rank;
                          dpcpp_comms_ptr = \<lparr>comms = dpcpp_comms, streams = ccl_streams\<rparr>
                      in (Inr dpcpp_comms_ptr, add_comms devices_key dpcpp_comms_ptr pg1)))))"

section \<open>Asynchronous work\<close>

text \<open>
  The work object of one collective: its inputs and outputs, the dispatch function \<open>f\<close>
  with the operation's arguments already bound, the communicator bundle, the events
  \<open>rets\<close> captured so far, the debug name, and the state of the spec's state machine, whose
  \<open>Failed\<close> state carries the error slot.
\<close>

datatype WorkState = Running | Completed | Failed error

record 'o AsyncWorkCCL =
  w_inputs :: "Tensor list"
  w_outputs :: "'o list"
  w_f :: "Tensor \<Rightarrow> 'o \<Rightarrow> communicator \<Rightarrow> ProcessGroupCCL \<Rightarrow> (error + event) \<times> ProcessGroupCCL"
  w_comms :: Comms
  rets :: "event list"
  debugName :: string
  w_state :: WorkState

text \<open>
  Modelled from the spec: \<open>finishAsyncWorkCCLError\<close> and \<open>finishAsyncWorkCCL\<close> are not in
  \<open>dpcpp_ccl.cpp\<close>.  The spec's state machine is
  \<open>Running \<rightarrow> {Completed, Failed}\<close>, and an exception raised during dispatch moves the work to
  \<open>Failed\<close> carrying the captured cause; neither of the two throws.
\<close>

definition finishAsyncWorkCCLError :: "error \<Rightarrow> 'o AsyncWorkCCL \<Rightarrow> (error + unit) \<times> 'o AsyncWorkCCL" where
  "finishAsyncWorkCCLError eptr work = (Inr (), work\<lparr>w_state := Failed eptr\<rparr>)"

definition finishAsyncWorkCCL :: "'o AsyncWorkCCL \<Rightarrow> (error + unit) \<times> 'o AsyncWorkCCL" where
  "finishAsyncWorkCCL work = (Inr (), work\<lparr>w_state := Completed\<rparr>)"

text \<open>
  Modelled from the spec: \<open>CollectiveAsyncWorkCCL::run\<close>, which \<open>XPUWorkCCL::run\<close> calls, is
  not in \<open>dpcpp_ccl.cpp\<close>.  By the spec \<open>run\<close> performs the dispatch call and captures the
  event: for each local device \<open>i\<close> the function is applied to input \<open>i\<close>, output \<open>i\<close>
  and communicator \<open>i\<close> of the bundle, and the event is appended to \<open>rets\<close>.  The first
  exception ends the loop with the events captured until then.
\<close>

fun run_from ::
  "nat list \<Rightarrow> 'o AsyncWorkCCL \<Rightarrow> ProcessGroupCCL \<Rightarrow>
     (error + unit) \<times> 'o AsyncWorkCCL \<times> ProcessGroupCCL" where
  "run_from [] work pg = (Inr (), work, pg)"
| "run_from (i # rest) work pg =
     (if i < length (w_inputs work) \<and> i < length (w_outputs work) \<and>
         i < length (comms (w_comms work)) then
        (case w_f work (w_inputs work ! i) (w_outputs work ! i) (comms (w_comms work) ! i) pg of
           (Inl e, pg1) \<Rightarrow> (Inl e, work, pg1)
         | (Inr ret, pg1) \<Rightarrow> run_from rest (work\<lparr>rets := rets work @ [ret]\<rparr>) pg1)
      else (Inl (undefined_behaviour ''vector index past the end''), work, pg))"

definition run ::
  "'o AsyncWorkCCL \<Rightarrow> ProcessGroupCCL \<Rightarrow> (error + unit) \<times> 'o AsyncWorkCCL \<times> ProcessGroupCCL" where
  "run work pg = run_from [0..<length (w_inputs work)] work pg"

text \<open>
  \<open>execute\<close>: \<open>try { work->run(); } catch (...) { work->finishAsyncWorkCCLError(...); return; }\<close>
  and then \<open>work->finishAsyncWorkCCL()\<close>.
\<close>

definition execute ::
  "'o AsyncWorkCCL \<Rightarrow> ProcessGroupCCL \<Rightarrow> (error + unit) \<times> 'o AsyncWorkCCL \<times> ProcessGroupCCL" where
  "execute work pg =
     (case run work pg of
        (Inl e, work1, pg1) \<Rightarrow>
          (case finishAsyncWorkCCLError e work1 of (r, work2) \<Rightarrow> (r, work2, pg1))
      | (Inr _, work1, pg1) \<Rightarrow>
          (case finishAsyncWorkCCL work1 of (r, work2) \<Rightarrow> (r, work2, pg1)))"

text \<open>
  Modelled from the spec: \<open>synchronizeInternal\<close> and \<open>checkAndThrowException\<close> are not in
  \<open>dpcpp_ccl.cpp\<close>.  By the spec \<open>wait(timeout)\<close> blocks until the device events report
  completion or the timeout elapses, fails with \<open>TimeoutError\<close> on timeout, and then
  re-raises a captured failure.  Time is discrete: \<open>completes_in ev\<close> is the time after
  which the device completes event \<open>ev\<close>, if it ever does, and the second component of
  the result is the time spent blocked.
\<close>

fun all_done_in :: "(event \<Rightarrow> nat option) \<Rightarrow> event list \<Rightarrow> nat option" where
  "all_done_in completes_in [] = Some 0"
| "all_done_in completes_in (ev # evs) =
     (case (completes_in ev, all_done_in completes_in evs) of
        (Some d, Some d') \<Rightarrow> Some (max d d')
      | _ \<Rightarrow> None)"

definition synchronizeInternal ::
  "(event \<Rightarrow> nat option) \<Rightarrow> nat \<Rightarrow> 'o AsyncWorkCCL \<Rightarrow> (error + unit) \<times> nat" where
  "synchronizeInternal completes_in timeout work =
     (case all_done_in completes_in (rets work) of
        Some d \<Rightarrow> if d \<le> timeout then (Inr (), d) else (Inl TimeoutError, timeout)
      | None \<Rightarrow> (Inl TimeoutError, timeout))"

definition checkAndThrowException :: "'o AsyncWorkCCL \<Rightarrow> error + unit" where
  "checkAndThrowException work = (case w_state work of Failed e \<Rightarrow> Inl e | _ \<Rightarrow> Inr ())"

text \<open>
  \<open>XPUWorkCCL::wait\<close>: \<open>synchronizeInternal(timeout); checkAndThrowException(); return true;\<close>
\<close>

definition wait :: "(event \<Rightarrow> nat option) \<Rightarrow> nat \<Rightarrow> 'o AsyncWorkCCL \<Rightarrow> (error + bool) \<times> nat" where
  "wait completes_in timeout work =
     (case synchronizeInternal completes_in timeout work of
        (Inl e, blocked) \<Rightarrow> (Inl e, blocked)
      | (Inr _, blocked) \<Rightarrow>
          (case checkAndThrowException work of
             Inl e \<Rightarrow> (Inl e, blocked)
           | Inr _ \<Rightarrow> (Inr True, blocked)))"

section \<open>The generic collective\<close>

text \<open>
  Modelled from the spec: the template \<open>collective\<close> with its helpers \<open>get_device_list\<close>
  and \<open>get_key_from_devs\<close> is not in \<open>dpcpp_ccl.cpp\<close>.  By the spec an entry point
  resolves the communicator bundle through the cache, under the device-topology key
  derived from the ordered device indices of the call's buffers, and wraps the dispatch in
  an asynchronous work, created in state \<open>Running\<close>.  The key is the indices in decimal,
  separated by commas.
\<close>

definition get_device_list :: "Tensor list \<Rightarrow> Device list" where
  "get_device_list tensors = map device tensors"

function decimal :: "nat \<Rightarrow> string" where
  "decimal n = (if n < 10 then [''0123456789'' ! n]
                else decimal (n div 10) @ [''0123456789'' ! (n mod 10)])"
  by pat_completeness auto
termination
  by (relation "measure id") auto

declare decimal.simps [simp del]

definition to_string :: "int \<Rightarrow> string" where
  "to_string i = (if i < 0 then ''-'' @ decimal (nat (- i)) else decimal (nat i))"

definition get_key_from_devs :: "Device list \<Rightarrow> string" where
  "get_key_from_devs devices =
     (case devices of
        [] \<Rightarrow> []
      | d # ds \<Rightarrow> fold (\<lambda>d' key. key @ '','' @ to_string (dev_index d')) ds
                   (to_string (dev_index d)))"

definition collective ::
  "ccl_env \<Rightarrow> ProcessGroupCCL \<Rightarrow> Tensor list \<Rightarrow> 'o list \<Rightarrow>
   (Tensor \<Rightarrow> 'o \<Rightarrow> communicator \<Rightarrow> ProcessGroupCCL \<Rightarrow> (error + event) \<times> ProcessGroupCCL) \<Rightarrow>
   (error + 'o AsyncWorkCCL) \<times> ProcessGroupCCL" where
  "collective env pg_ccl inputs outputs fn =
     (let devices = get_device_list inputs;
          key = get_key_from_devs devices
      in case get_ccl_comms env pg_ccl key devices of
           (Inl e, pg1) \<Rightarrow> (Inl e, pg1)
         | (Inr bundle, pg1) \<Rightarrow>
             (Inr \<lparr>w_inputs = inputs, w_outputs = outputs, w_f = fn, w_comms = bundle,
                   rets = [], debugName = [], w_state = Running\<rparr>, pg1))"

section \<open>Entry points\<close>

text \<open>The option structures, with the fields that the entry points read.\<close>

record AllreduceOptions =
  reduceOp :: ReduceOp

record BroadcastOptions =
  rootRank :: int
  rootTensor :: int

record ReduceOptions =
  reduceOp :: ReduceOp
  rootRank :: int
  rootTensor :: int

text \<open>
  \<open>TORCH_CHECK(cond, msg)\<close> throws a \<open>c10::Error\<close>; \<open>std::map::at\<close> throws
  \<open>std::out_of_range\<close> for a key that is not there.
\<close>

definition TORCH_CHECK :: "bool \<Rightarrow> string \<Rightarrow> error + unit" where
  "TORCH_CHECK cond msg = (if cond then Inr () else Inl (c10_Error msg))"

definition map_at :: "('k \<Rightarrow> 'v option) \<Rightarrow> 'k \<Rightarrow> error + 'v" where
  "map_at m k = (case m k of None \<Rightarrow> Inl (out_of_range ''map::at'') | Some v \<Rightarrow> Inr v)"

text \<open>
  \<open>checkGPUTensor\<close> on a tensor has an empty body (its one check is commented out); on a
  list it is \<open>checkGPUTensor(tensors[0])\<close>, which reads the first element whether there is
  one or not.
\<close>

definition checkGPUTensor :: "Tensor \<Rightarrow> error + unit" where
  "checkGPUTensor tensor = Inr ()"

definition checkGPUTensors :: "Tensor list \<Rightarrow> error + unit" where
  "checkGPUTensors tensors =
     (case tensors of
        [] \<Rightarrow> Inl (undefined_behaviour ''tensors[0] of an empty vector'')
      | t # _ \<Rightarrow> checkGPUTensor t)"

text \<open>
  Each entry point is the checks that stand before \<open>collective\<close>, the call of
  \<open>collective\<close> with the dispatch function (the lambda, named \<open>..._fn\<close> here), the
  assignment of \<open>debugName\<close> and \<open>execute\<close>; the last three are \<open>launch\<close>.
\<close>

definition allreduce_fn ::
  "ccl_env \<Rightarrow> AllreduceOptions \<Rightarrow> Tensor \<Rightarrow> Tensor \<Rightarrow> communicator \<Rightarrow> ProcessGroupCCL \<Rightarrow>
     (error + event) \<times> ProcessGroupCCL" where
  "allreduce_fn env opts input output comm pg =
     (case map_at (cclDatatypes env) (scalar_type input) of
        Inl e \<Rightarrow> (Inl e, pg)
      | Inr dt \<Rightarrow>
          (case map_at (cclOps env) (AllreduceOptions.reduceOp opts) of
             Inl e \<Rightarrow> (Inl e, pg)
           | Inr op \<Rightarrow> ccl env (ccl_allreduce (numel input) dt op) pg))"

definition launch ::
  "string \<Rightarrow> (error + 'o AsyncWorkCCL) \<times> ProcessGroupCCL \<Rightarrow>
     (error + 'o AsyncWorkCCL) \<times> ProcessGroupCCL" where
  "launch name r =
     (case r of
        (Inl e, pg1) \<Rightarrow> (Inl e, pg1)
      | (Inr work, pg1) \<Rightarrow>
          (case execute (work\<lparr>debugName := name\<rparr>) pg1 of
             (Inl e, work2, pg2) \<Rightarrow> (Inl e, pg2)
           | (Inr _, work2, pg2) \<Rightarrow> (Inr work2, pg2)))"

definition allreduce_stub ::
  "ccl_env \<Rightarrow> Tensor list \<Rightarrow> AllreduceOptions \<Rightarrow> ProcessGroupCCL \<Rightarrow>
     (error + Tensor AsyncWorkCCL) \<times> ProcessGroupCCL" where
  "allreduce_stub env tensors opts pg_ccl =
     (case checkGPUTensors tensors of
        Inl e \<Rightarrow> (Inl e, pg_ccl)
      | Inr _ \<Rightarrow>
          launch ''xpu::allreduce''
            (collective env pg_ccl tensors tensors (allreduce_fn env opts)))"

text \<open>
  \<open>const int root = opts.rootRank * tensors.size() + opts.rootTensor\<close>: the operands are
  converted to the 64-bit unsigned \<open>size_t\<close> of \<open>tensors.size()\<close>, and the result is
  narrowed to a 32-bit \<open>int\<close>.
\<close>

definition flat_root :: "int \<Rightarrow> nat \<Rightarrow> int \<Rightarrow> int" where
  "flat_root rank n tensor =
     sint (ucast ((word_of_int rank :: 64 word) * of_nat n + word_of_int tensor) :: 32 word)"

definition reduce_fn ::
  "ccl_env \<Rightarrow> ReduceOptions \<Rightarrow> int \<Rightarrow> Tensor \<Rightarrow> Tensor \<Rightarrow> communicator \<Rightarrow> ProcessGroupCCL \<Rightarrow>
     (error + event) \<times> ProcessGroupCCL" where
  "reduce_fn env opts root input output comm pg =
     (case map_at (cclDatatypes env) (scalar_type input) of
        Inl e \<Rightarrow> (Inl e, pg)
      | Inr dt \<Rightarrow>
          (case map_at (cclOps env) (reduceOp opts) of
             Inl e \<Rightarrow> (Inl e, pg)
           | Inr op \<Rightarrow> ccl env (ccl_reduce (numel input) dt op root) pg))"

definition reduce_stub ::
  "ccl_env \<Rightarrow> Tensor list \<Rightarrow> ReduceOptions \<Rightarrow> ProcessGroupCCL \<Rightarrow>
     (error + Tensor AsyncWorkCCL) \<times> ProcessGroupCCL" where
  "reduce_stub env tensors opts pg_ccl =
     (case checkGPUTensors tensors of
        Inl e \<Rightarrow> (Inl e, pg_ccl)
      | Inr _ \<Rightarrow>
          (let root = flat_root (rootRank opts) (length tensors) (rootTensor opts)
           in launch ''xpu::reduce''
                (collective env pg_ccl tensors tensors (reduce_fn env opts root))))"

definition broadcast_fn ::
  "ccl_env \<Rightarrow> int \<Rightarrow> Tensor \<Rightarrow> Tensor \<Rightarrow> communicator \<Rightarrow> ProcessGroupCCL \<Rightarrow>
     (error + event) \<times> ProcessGroupCCL" where
  "broadcast_fn env root input output comm pg =
     (case map_at (cclDatatypes env) (scalar_type input) of
        Inl e \<Rightarrow> (Inl e, pg)
      | Inr dt \<Rightarrow> ccl env (ccl_broadcast (numel input) dt root) pg)"

definition broadcast_stub ::
  "ccl_env \<Rightarrow> Tensor list \<Rightarrow> BroadcastOptions \<Rightarrow> ProcessGroupCCL \<Rightarrow>
     (error + Tensor AsyncWorkCCL) \<times> ProcessGroupCCL" where
  "broadcast_stub env tensors opts pg_ccl =
     (case checkGPUTensors tensors of
        Inl e \<Rightarrow> (Inl e, pg_ccl)
      | Inr _ \<Rightarrow>
          (let root = flat_root (BroadcastOptions.rootRank opts) (length tensors)
                        (BroadcastOptions.rootTensor opts)
           in launch ''xpu::broadcast''
                (collective env pg_ccl tensors tensors (broadcast_fn env root))))"

definition allgather_fn ::
  "ccl_env \<Rightarrow> nat \<Rightarrow> Tensor \<Rightarrow> Tensor list \<Rightarrow> communicator \<Rightarrow> ProcessGroupCCL \<Rightarrow>
     (error + event) \<times> ProcessGroupCCL" where
  "allgather_fn env rank input outputs comm pg =
     (let recvCounts = map numel outputs in
      if rank < length recvCounts then
        (case TORCH_CHECK (numel input = recvCounts ! rank)
                ''allgather: send and recv count doesn't match'' of
           Inl e \<Rightarrow> (Inl e, pg)
         | Inr _ \<Rightarrow>
             (case map_at (cclDatatypes env) (scalar_type input) of
                Inl e \<Rightarrow> (Inl e, pg)
              | Inr dt \<Rightarrow> ccl env (ccl_allgatherv (numel input) recvCounts dt) pg))
      else (Inl (undefined_behaviour ''recvCounts[rank] past the end''), pg))"

definition allgather_stub ::
  "ccl_env \<Rightarrow> Tensor list list \<Rightarrow> Tensor list \<Rightarrow> ProcessGroupCCL \<Rightarrow>
     (error + (Tensor list) AsyncWorkCCL) \<times> ProcessGroupCCL" where
  "allgather_stub env outputTensors inputTensors pg_ccl =
     (let rank = getRank pg_ccl
      in launch ''xpu::allgather''
           (collective env pg_ccl inputTensors outputTensors (allgather_fn env rank)))"

text \<open>
  Modelled from the spec: \<open>c10d::checkSplitSizes\<close> is not in \<open>dpcpp_ccl.cpp\<close>.  By the
  spec split sizes whose sum is not the length of the buffer fail with a configuration
  error, there is one split size per participant, and an empty list stands for equal
  shares, for which dimension 0 must divide evenly.
\<close>

definition checkSplitSizes :: "int list \<Rightarrow> Tensor \<Rightarrow> nat \<Rightarrow> error + unit" where
  "checkSplitSizes split_sizes tensor group_size =
     (if split_sizes = [] then
        (case size0 tensor of
           Inl e \<Rightarrow> Inl e
         | Inr n \<Rightarrow>
             if group_size = 0 then Inl (undefined_behaviour ''remainder by zero'')
             else TORCH_CHECK (n mod group_size = 0)
                    ''Tensor's dim 0 does not divide equally across group size'')
      else
        (case TORCH_CHECK (length split_sizes = group_size)
                ''Number of tensor splits not equal to group size'' of
           Inl e \<Rightarrow> Inl e
         | Inr _ \<Rightarrow>
             (case size0 tensor of
                Inl e \<Rightarrow> Inl e
              | Inr n \<Rightarrow>
                  TORCH_CHECK (sum_list split_sizes = int n)
                    ''Split sizes doesn't match total dim 0 size'')))"

text \<open>
  \<open>inputSplitSizes[i] * inLen\<close> multiplies an \<open>int64_t\<close> with a \<open>size_t\<close>, so a negative
  split size wraps around.
\<close>

definition to_size_t :: "int \<Rightarrow> nat" where
  "to_size_t i = nat (i mod 2 ^ 64)"

definition dispatch :: "ccl_env \<Rightarrow> ScalarType \<Rightarrow> string \<Rightarrow> error + unit" where
  "dispatch env t name =
     (if dispatch_types env t then Inr ()
      else Inl (c10_Error (name @ '' not implemented for this scalar type'')))"

definition alltoall_fn ::
  "ccl_env \<Rightarrow> Tensor \<Rightarrow> Tensor \<Rightarrow> communicator \<Rightarrow> ProcessGroupCCL \<Rightarrow>
     (error + event) \<times> ProcessGroupCCL" where
  "alltoall_fn env input output comm pg =
     (case dispatch env (scalar_type input) ''alltoall_base'' of
        Inl e \<Rightarrow> (Inl e, pg)
      | Inr _ \<Rightarrow>
          if comm_size comm = 0 then (Inl (undefined_behaviour ''division by zero''), pg)
          else
            (case map_at (cclDatatypes env) (scalar_type output) of
               Inl e \<Rightarrow> (Inl e, pg)
             | Inr dt \<Rightarrow> ccl env (ccl_alltoall (numel output div comm_size comm) dt) pg))"

text \<open>
  \<open>size_t inLen = input.numel(); if (inLen) inLen /= (inputSplitsEqual ? grp_size : input.size(0));\<close>
\<close>

definition split_len :: "Tensor \<Rightarrow> bool \<Rightarrow> nat \<Rightarrow> error + nat" where
  "split_len t splitsEqual grp_size =
     (if numel t = 0 then Inr 0
      else if splitsEqual then
        (if grp_size = 0 then Inl (undefined_behaviour ''division by zero'')
         else Inr (numel t div grp_size))
      else
        (case size0 t of
           Inl e \<Rightarrow> Inl e
         | Inr n \<Rightarrow> Inr (numel t div n)))"

definition alltoallv_fn ::
  "ccl_env \<Rightarrow> int list \<Rightarrow> int list \<Rightarrow> nat \<Rightarrow> Tensor \<Rightarrow> Tensor \<Rightarrow> communicator \<Rightarrow>
     ProcessGroupCCL \<Rightarrow> (error + event) \<times> ProcessGroupCCL" where
  "alltoallv_fn env outputSplitSizes inputSplitSizes grp_size input output comm pg =
     (case dispatch env (scalar_type input) ''alltoall_base'' of
        Inl e \<Rightarrow> (Inl e, pg)
      | Inr _ \<Rightarrow>
     (case checkSplitSizes inputSplitSizes input grp_size of
        Inl e \<Rightarrow> (Inl e, pg)
      | Inr _ \<Rightarrow>
     (case checkSplitSizes outputSplitSizes output grp_size of
        Inl e \<Rightarrow> (Inl e, pg)
      | Inr _ \<Rightarrow>
     (let inputSplitsEqual = (inputSplitSizes = []);
          outputSplitsEqual = (outputSplitSizes = [])
      in
     (case split_len input inputSplitsEqual grp_size of
        Inl e \<Rightarrow> (Inl e, pg)
      | Inr inLen \<Rightarrow>
     (case split_len output outputSplitsEqual grp_size of
        Inl e \<Rightarrow> (Inl e, pg)
      | Inr outLen \<Rightarrow>
     (let sendCounts = map (\<lambda>i. if inputSplitsEqual then inLen
                                 else to_size_t (inputSplitSizes ! i * int inLen)) [0..<grp_size];
          recvCounts = map (\<lambda>i. if outputSplitsEqual then outLen
                                 else to_size_t (outputSplitSizes ! i * int outLen)) [0..<grp_size]
      in
     (case map_at (cclDatatypes env) (scalar_type output) of
        Inl e \<Rightarrow> (Inl e, pg)
      | Inr dt \<Rightarrow> ccl env (ccl_alltoallv sendCounts recvCounts dt) pg))))))))"

definition alltoall_base_stub ::
  "ccl_env \<Rightarrow> Tensor \<Rightarrow> Tensor \<Rightarrow> int list \<Rightarrow> int list \<Rightarrow> ProcessGroupCCL \<Rightarrow>
     (error + Tensor AsyncWorkCCL) \<times> ProcessGroupCCL" where
  "alltoall_base_stub env outputTensor inputTensor outputSplitSizes inputSplitSizes pg =
     (case checkSingleTensorHelper env inputTensor of
        Some e \<Rightarrow> (Inl e, pg)
      | None \<Rightarrow>
     (case checkSingleTensorHelper env outputTensor of
        Some e \<Rightarrow> (Inl e, pg)
      | None \<Rightarrow>
     (let inputs = [inputTensor];
          outputs = [outputTensor];
          grp_size = getSize pg
      in
      if outputSplitSizes = [] \<and> inputSplitSizes = [] then
        (case TORCH_CHECK (numel outputTensor = numel inputTensor \<and>
                           scalar_type outputTensor = scalar_type inputTensor)
                ''alltoall_base: tensors are not equal in size or data type'' of
           Inl e \<Rightarrow> (Inl e, pg)
         | Inr _ \<Rightarrow>
        (case size0 outputTensor of
           Inl e \<Rightarrow> (Inl e, pg)
         | Inr n \<Rightarrow>
        if grp_size = 0 then (Inl (undefined_behaviour ''remainder by zero''), pg)
        else
        (case TORCH_CHECK (n mod grp_size = 0)
                ''alltoall_base: tensor's dim 0 does not divide equally across group size'' of
           Inl e \<Rightarrow> (Inl e, pg)
         | Inr _ \<Rightarrow>
             launch ''xpu::alltoall_base''
               (collective env pg inputs outputs (alltoall_fn env)))))
      else
        launch ''xpu::alltoall_base''
          (collective env pg inputs outputs
             (alltoallv_fn env outputSplitSizes inputSplitSizes grp_size)))))"

text \<open>The library calls that build a communicator, as opposed to the collectives.\<close>

fun setup_call :: "ccl_call \<Rightarrow> bool" where
  "setup_call (create_stream q) = True"
| "setup_call (create_device q) = True"
| "setup_call (create_context q) = True"
| "setup_call (get_kvs r) = True"
| "setup_call (create_communicators n devs) = True"
| "setup_call _ = False"

text \<open>The messages that \<open>check_tensors_properties\<close> throws.\<close>

definition validator_errors :: "error list" where
  "validator_errors =
     [runtime_error ''Tensor list must be nonempty'',
      runtime_error ''Tensor list mustn't be larger than the number of available GPUs'',
      runtime_error ''Tensors must be dense'',
      runtime_error ''Tensors must have identical type'',
      runtime_error ''Tensors must have identical size'',
      runtime_error ''Tensors must be contiguous'',
      runtime_error ''Tensors must be on the same device type'',
      runtime_error ''Tensors must be on distinct devices'']"

section \<open>The data path of the list all-to-all\<close>

text \<open>
  For the flatten and split steps of \<open>alltoall_\<close> the contents of the tensors matter, and
  whether two tensors are the same memory.  Device memory is a store of storages and a
  storage is a list of elements.  Of a tensor the code reads the storage, the offset of the
  first element, the element count, the element type and, through \<open>view({-1})\<close>, whether it
  is contiguous.  The elements of a contiguous tensor are the window of \<open>nelems\<close> elements
  at \<open>storage_offset\<close>; the model has no strides and says nothing about where the elements
  of any other tensor are.
\<close>

type_synonym 'a store = "'a list list"

record DenseTensor =
  storage :: nat
  storage_offset :: nat
  nelems :: nat
  dtype :: ScalarType
  contiguous :: bool

definition in_bounds :: "'a store \<Rightarrow> DenseTensor \<Rightarrow> bool" where
  "in_bounds st t \<longleftrightarrow>
     storage t < length st \<and> storage_offset t + nelems t \<le> length (st ! storage t)"

definition contents :: "'a store \<Rightarrow> DenseTensor \<Rightarrow> 'a list" where
  "contents st t = take (nelems t) (drop (storage_offset t) (st ! storage t))"

definition overwrite :: "'a store \<Rightarrow> DenseTensor \<Rightarrow> 'a list \<Rightarrow> 'a store" where
  "overwrite st t xs =
     st[storage t := take (storage_offset t) (st ! storage t) @ xs @
                     drop (storage_offset t + length xs) (st ! storage t)]"

text \<open>Two windows overlap when they share an element of the same storage.\<close>

definition overlap :: "DenseTensor \<Rightarrow> DenseTensor \<Rightarrow> bool" where
  "overlap t u \<longleftrightarrow>
     storage t = storage u \<and> storage_offset t < storage_offset u + nelems u \<and>
     storage_offset u < storage_offset t + nelems t"

text \<open>
  \<open>at::empty({n}, options)\<close>: a new storage of \<open>n\<close> elements of the element type of the
  options, whose contents are whatever the memory held, here \<open>uninit\<close>.
\<close>

definition at_empty :: "nat \<Rightarrow> ScalarType \<Rightarrow> 'a \<Rightarrow> 'a store \<Rightarrow> DenseTensor \<times> 'a store" where
  "at_empty n ty uninit st =
     (\<lparr>storage = length st, storage_offset = 0, nelems = n, dtype = ty, contiguous = True\<rparr>,
      st @ [replicate n uninit])"

text \<open>
  \<open>t.view({-1})\<close>: a contiguous tensor is its own one-dimensional view.  PyTorch throws
  when the strides of the tensor do not allow the view; without strides, the model lets
  every tensor that is not contiguous throw.
\<close>

definition view_flat :: "DenseTensor \<Rightarrow> error + DenseTensor" where
  "view_flat t =
     (if contiguous t then Inr t
      else Inl (c10_Error ''view size is not compatible with input tensor's size and stride''))"

text \<open>
  \<open>dst.copy_(src)\<close> on one-dimensional tensors: the element counts agree, or the source
  has one element and is broadcast; anything else throws.  Elements are converted when the
  element types differ, by \<open>convert\<close>, and copied as they are otherwise.  A window that
  does not fit its storage cannot come from a tensor.
\<close>

definition copy_tensor ::
  "(ScalarType \<Rightarrow> ScalarType \<Rightarrow> 'a \<Rightarrow> 'a) \<Rightarrow> DenseTensor \<Rightarrow> DenseTensor \<Rightarrow> 'a store \<Rightarrow>
     error + 'a store" where
  "copy_tensor convert dst src st =
     (if \<not> in_bounds st dst \<or> \<not> in_bounds st src then
        Inl (undefined_behaviour ''tensor outside its storage'')
      else
        (let xs = (if dtype src = dtype dst then contents st src
                   else map (convert (dtype src) (dtype dst)) (contents st src))
         in if nelems src = nelems dst then Inr (overwrite st dst xs)
            else if nelems src = 1 then Inr (overwrite st dst (replicate (nelems dst) (hd xs)))
            else Inl (c10_Error ''The size of tensor a must match the size of tensor b'')))"

text \<open>
  \<open>t.split_with_sizes(sizes, 0)\<close> on a one-dimensional tensor: consecutive pieces of \<open>t\<close>,
  provided the sizes add up to its length.  A piece is \<open>t\<close> with another offset and
  element count.
\<close>

fun splits_from :: "DenseTensor \<Rightarrow> nat \<Rightarrow> nat list \<Rightarrow> DenseTensor list" where
  "splits_from t off [] = []"
| "splits_from t off (n # ns) =
     t\<lparr>storage_offset := off, nelems := n\<rparr> # splits_from t (off + n) ns"

definition split_with_sizes :: "DenseTensor \<Rightarrow> nat list \<Rightarrow> error + DenseTensor list" where
  "split_with_sizes t split_sizes =
     (if sum_list split_sizes = nelems t then
        Inr (splits_from t (storage_offset t) split_sizes)
      else Inl (c10_Error
        ''split_with_sizes expects split_sizes to sum exactly to the size of dimension 0''))"

text \<open>
  \<open>t.data_ptr<scalar_t>()\<close> throws when \<open>scalar_t\<close> is not the element type of \<open>t\<close>.
\<close>

definition data_ptr :: "DenseTensor \<Rightarrow> ScalarType \<Rightarrow> error + unit" where
  "data_ptr t scalar_t =
     (if dtype t = scalar_t then Inr ()
      else Inl (c10_Error ''expected scalar type does not match the type of the tensor''))"

text \<open>
  Modelled from the spec: \<open>computeLengthsAndCheckAndGetFlat\<close> is not in
  \<open>dpcpp_ccl.cpp\<close>.  The spec's \<open>flatten\<close> returns the contiguous buffer, the
  per-participant lengths and \<open>wasAlreadyFlat\<close>: the lengths are the element counts of
  the buffers in participant order; a list that already is one contiguous buffer (the
  first buffer contiguous, and every buffer the piece of the first one's storage that
  starts where the previous buffer ends) is reused directly; otherwise a new contiguous
  buffer sized to the sum of the element counts is allocated.  The buffer has the element
  type of the first tensor.  The lengths table has \<open>groupSize\<close> entries, so the first
  \<open>groupSize\<close> tensors are read, and a shorter list is read past its end.
\<close>

definition is_flat :: "DenseTensor list \<Rightarrow> bool" where
  "is_flat ts \<longleftrightarrow>
     (case ts of
        [] \<Rightarrow> True
      | first # _ \<Rightarrow>
          contiguous first \<and> ts = splits_from first (storage_offset first) (map nelems ts))"

definition computeLengthsAndCheckAndGetFlat ::
  "'a \<Rightarrow> DenseTensor list \<Rightarrow> nat \<Rightarrow> 'a store \<Rightarrow>
     error + (bool \<times> nat list \<times> DenseTensor \<times> nat) \<times> 'a store" where
  "computeLengthsAndCheckAndGetFlat uninit tensors groupSize st =
     (case tensors of
        [] \<Rightarrow> Inl (undefined_behaviour ''tensors[0] of an empty vector'')
      | first # _ \<Rightarrow>
          if length tensors < groupSize then
            Inl (undefined_behaviour ''tensors[i] past the end'')
          else
            (let lengths = map nelems (take groupSize tensors);
                 flatLength = sum_list lengths
             in if is_flat (take groupSize tensors) then
                  Inr ((True, lengths, first\<lparr>nelems := flatLength\<rparr>, flatLength), st)
                else
                  (case at_empty flatLength (dtype first) uninit st of
                     (flatTensor, st1) \<Rightarrow> Inr ((False, lengths, flatTensor, flatLength), st1))))"

text \<open>
  The loop of lines 665 to 668,
  \<open>for (int i = 0; i < grp_size; i++) flatInputSplits[i].copy_(inputs[i].view({-1}))\<close>;
  the first argument counts the iterations that remain.
\<close>

fun copy_in ::
  "(ScalarType \<Rightarrow> ScalarType \<Rightarrow> 'a \<Rightarrow> 'a) \<Rightarrow> nat \<Rightarrow> nat \<Rightarrow> DenseTensor list \<Rightarrow>
     DenseTensor list \<Rightarrow> 'a store \<Rightarrow> error + 'a store" where
  "copy_in convert 0 i flatInputSplits inputs st = Inr st"
| "copy_in convert (Suc k) i flatInputSplits inputs st =
     (if i < length flatInputSplits \<and> i < length inputs then
        (case view_flat (inputs ! i) of
           Inl e \<Rightarrow> Inl e
         | Inr v \<Rightarrow>
        (case copy_tensor convert (flatInputSplits ! i) v st of
           Inl e \<Rightarrow> Inl e
         | Inr st1 \<Rightarrow> copy_in convert k (Suc i) flatInputSplits inputs st1))
      else Inl (undefined_behaviour ''vector index past the end''))"

text \<open>
  The loop of lines 691 to 694,
  \<open>for (int i = 0; i < grp_size; i++) outputs[i].view({-1}).copy_(flatOutputSplits[i])\<close>.
\<close>

fun copy_out ::
  "(ScalarType \<Rightarrow> ScalarType \<Rightarrow> 'a \<Rightarrow> 'a) \<Rightarrow> nat \<Rightarrow> nat \<Rightarrow> DenseTensor list \<Rightarrow>
     DenseTensor list \<Rightarrow> 'a store \<Rightarrow> error + 'a store" where
  "copy_out convert 0 i outputs flatOutputSplits st = Inr st"
| "copy_out convert (Suc k) i outputs flatOutputSplits st =
     (if i < length outputs \<and> i < length flatOutputSplits then
        (case view_flat (outputs ! i) of
           Inl e \<Rightarrow> Inl e
         | Inr v \<Rightarrow>
        (case copy_tensor convert v (flatOutputSplits ! i) st of
           Inl e \<Rightarrow> Inl e
         | Inr st1 \<Rightarrow> copy_out convert k (Suc i) outputs flatOutputSplits st1))
      else Inl (undefined_behaviour ''vector index past the end''))"

text \<open>
  What a call of \<open>ccl::alltoallv(sendbuf, sendCounts, recvbuf, recvCounts, ...)\<close> that the
  library has accepted does to the memory, followed to the completion of its event: the
  library reads \<open>sum sendCounts\<close> elements at the send pointer and stores
  \<open>sum recvCounts\<close> elements at the receive pointer.  What arrives depends on the other
  ranks; \<open>exch\<close> gives it as a function of what this rank sends and of the two count
  tables.
\<close>

definition alltoallv_transfer ::
  "('a list \<Rightarrow> nat list \<Rightarrow> nat list \<Rightarrow> 'a list) \<Rightarrow> DenseTensor \<Rightarrow> nat list \<Rightarrow>
     DenseTensor \<Rightarrow> nat list \<Rightarrow> 'a store \<Rightarrow> error + 'a store" where
  "alltoallv_transfer exch flatInput sendCounts flatOutput recvCounts st =
     (let sendbuf = flatInput\<lparr>nelems := sum_list sendCounts\<rparr>;
          recvbuf = flatOutput\<lparr>nelems := sum_list recvCounts\<rparr>
      in if \<not> in_bounds st sendbuf \<or> \<not> in_bounds st recvbuf then
           Inl (undefined_behaviour ''buffer outside its storage'')
         else
           Inr (overwrite st recvbuf
                  (take (sum_list recvCounts) (exch (contents st sendbuf) sendCounts recvCounts))))"

text \<open>
  The dispatch function of \<open>alltoall_\<close> (lines 644 to 696).  \<open>inputTensors\<close>,
  \<open>outputTensors\<close> and \<open>grp_size\<close> are captured, \<open>inputs\<close> and \<open>outputs\<close> are the
  arguments.  Lines 659 to 669 are \<open>flatten_inputs\<close>, lines 685 to 695 are
  \<open>unflatten_outputs\<close>.  In between, the type dispatch on the element type of the flat
  input, the two typed data pointers, the lookup of the library's element type and the
  call itself can each throw; the call is recorded and the library may reject it, as for
  every other collective.  The result is the event and the memory once the event has
  completed, which the code waits for before it copies from the flat output.  When the
  function throws, the result is what was thrown, with the calls made until then; the
  memory that a throw leaves behind is not part of it.  The C++ language leaves the order
  in which the arguments of the call are evaluated open; here it is the order in which
  they are written.
\<close>

definition flatten_inputs ::
  "(ScalarType \<Rightarrow> ScalarType \<Rightarrow> 'a \<Rightarrow> 'a) \<Rightarrow> bool \<Rightarrow> DenseTensor \<Rightarrow> nat list \<Rightarrow> nat \<Rightarrow>
     DenseTensor list \<Rightarrow> 'a store \<Rightarrow> error + 'a store" where
  "flatten_inputs convert isInputFlat flatInput sendCounts grp_size inputs st =
     (if \<not> isInputFlat then
        (case split_with_sizes flatInput sendCounts of
           Inl e \<Rightarrow> Inl e
         | Inr flatInputSplits \<Rightarrow> copy_in convert grp_size 0 flatInputSplits inputs st)
      else Inr st)"

definition unflatten_outputs ::
  "(ScalarType \<Rightarrow> ScalarType \<Rightarrow> 'a \<Rightarrow> 'a) \<Rightarrow> bool \<Rightarrow> DenseTensor \<Rightarrow> nat list \<Rightarrow> nat \<Rightarrow>
     DenseTensor list \<Rightarrow> 'a store \<Rightarrow> error + 'a store" where
  "unflatten_outputs convert isOutputFlat flatOutput recvCounts grp_size outputs st =
     (if \<not> isOutputFlat then
        (case split_with_sizes flatOutput recvCounts of
           Inl e \<Rightarrow> Inl e
         | Inr flatOutputSplits \<Rightarrow> copy_out convert grp_size 0 outputs flatOutputSplits st)
      else Inr st)"

definition alltoall_fn_list ::
  "ccl_env \<Rightarrow> 'a \<Rightarrow> (ScalarType \<Rightarrow> ScalarType \<Rightarrow> 'a \<Rightarrow> 'a) \<Rightarrow>
     ('a list \<Rightarrow> nat list \<Rightarrow> nat list \<Rightarrow> 'a list) \<Rightarrow> nat \<Rightarrow>
     DenseTensor list \<Rightarrow> DenseTensor list \<Rightarrow> DenseTensor list \<Rightarrow> DenseTensor list \<Rightarrow>
     communicator \<Rightarrow> ProcessGroupCCL \<Rightarrow> 'a store \<Rightarrow>
     (error + event \<times> 'a store) \<times> ProcessGroupCCL" where
  "alltoall_fn_list env uninit convert exch grp_size inputTensors outputTensors inputs outputs
       comm pg st =
     (case computeLengthsAndCheckAndGetFlat uninit inputTensors grp_size st of
        Inl e \<Rightarrow> (Inl e, pg)
      | Inr ((isInputFlat, sendCounts, flatInput, flatSendCount), st1) \<Rightarrow>
     (case computeLengthsAndCheckAndGetFlat uninit outputTensors grp_size st1 of
        Inl e \<Rightarrow> (Inl e, pg)
      | Inr ((isOutputFlat, recvCounts, flatOutput, flatRecvCount), st2) \<Rightarrow>
     (case flatten_inputs convert isInputFlat flatInput sendCounts grp_size inputs st2 of
        Inl e \<Rightarrow> (Inl e, pg)
      | Inr st3 \<Rightarrow>
     (case dispatch env (dtype flatInput) ''xpu::alltoall'' of
        Inl e \<Rightarrow> (Inl e, pg)
      | Inr _ \<Rightarrow>
     (case data_ptr flatInput (dtype flatInput) of
        Inl e \<Rightarrow> (Inl e, pg)
      | Inr _ \<Rightarrow>
     (case data_ptr flatOutput (dtype flatInput) of
        Inl e \<Rightarrow> (Inl e, pg)
      | Inr _ \<Rightarrow>
     (case map_at (cclDatatypes env) (dtype flatOutput) of
        Inl e \<Rightarrow> (Inl e, pg)
      | Inr dt \<Rightarrow>
     (case ccl env (ccl_alltoallv sendCounts recvCounts dt) pg of
        (Inl e, pg1) \<Rightarrow> (Inl e, pg1)
      | (Inr ret_evt, pg1) \<Rightarrow>
     (case alltoallv_transfer exch flatInput sendCounts flatOutput recvCounts st3 of
        Inl e \<Rightarrow> (Inl e, pg1)
      | Inr st4 \<Rightarrow>
     (case unflatten_outputs convert isOutputFlat flatOutput recvCounts grp_size outputs st4 of
        Inl e \<Rightarrow> (Inl e, pg1)
      | Inr st5 \<Rightarrow> (Inr (ret_evt, st5), pg1)))))))))))"

text \<open>The part of the received data that belongs to participant \<open>i\<close>.\<close>

definition chunk :: "nat list \<Rightarrow> nat \<Rightarrow> 'a list \<Rightarrow> 'a list" where
  "chunk counts i xs = take (counts ! i) (drop (sum_list (take i counts)) xs)"

section \<open>Concrete inputs\<close>

text \<open>
  A dense contiguous float tensor of the given shape on XPU device \<open>i\<close>, a library that
  knows every element type and accepts every call, and rank 1 of a group of three: first
  with an empty communicator cache, then as the first get for device 0 leaves it.
\<close>

definition xpu :: "int \<Rightarrow> Device" where
  "xpu i = \<lparr>dev_type = XPU, dev_index = i\<rparr>"

definition dense :: "nat list \<Rightarrow> int \<Rightarrow> Tensor" where
  "dense sz i = \<lparr>is_sparse = False, scalar_type = kFloat, sizes = sz, is_contiguous = True,
     device = xpu i\<rparr>"

definition accepting :: ccl_env where
  "accepting = \<lparr>cclDatatypes = (\<lambda>t. Some 0), cclOps = (\<lambda>op. Some 0),
     dispatch_types = (\<lambda>t. True), checkSingleTensorHelper = (\<lambda>t. None),
     ccl_rejects = (\<lambda>c. None)\<rparr>"

definition rank1of3 :: ProcessGroupCCL where
  "rank1of3 = \<lparr>getRank = 1, getSize = 3, ccl_comms = Map.empty, issued = []\<rparr>"

definition bundle0 :: Comms where
  "bundle0 = \<lparr>comms = [\<lparr>comm_size = 3, comm_rank = 1, comm_device = 0\<rparr>], streams = [0]\<rparr>"

definition setup0 :: "ccl_call list" where
  "setup0 = [create_stream 0, create_device 0, create_context 0, get_kvs 1,
             create_communicators 3 [(1, 0)]]"

definition rank1of3_ready :: ProcessGroupCCL where
  "rank1of3_ready = rank1of3\<lparr>issued := setup0, ccl_comms := [''0'' \<mapsto> bundle0]\<rparr>"

text \<open>
  Three contiguous float inputs in storages of their own, three outputs laid out back to
  front in a fourth storage, the same memory seen as three one-element inputs in the first
  storage and three one-element outputs in the fourth, a library that hands back what it
  was sent, and a conversion that is never needed.
\<close>

definition window :: "nat \<Rightarrow> nat \<Rightarrow> nat \<Rightarrow> DenseTensor" where
  "window s off n =
     \<lparr>storage = s, storage_offset = off, nelems = n, dtype = kFloat, contiguous = True\<rparr>"

definition memory :: "int store" where
  "memory = [[1, 2, 3], [4, 5], [6], [0, 0, 0, 0, 0, 0]]"

definition loopback :: "int list \<Rightarrow> nat list \<Rightarrow> nat list \<Rightarrow> int list" where
  "loopback d sc rc = d"

definition no_conversion :: "ScalarType \<Rightarrow> ScalarType \<Rightarrow> int \<Rightarrow> int" where
  "no_conversion from_type to_type x = x"

section \<open>The validator accepts exactly the valid tensor sets\<close>

lemma check_each_Inr_iff:
  "check_each first dt used ts = Inr () \<longleftrightarrow>
     (\<forall>t \<in> set ts. \<not> is_sparse t \<and> is_contiguous t \<and> scalar_type t = scalar_type first \<and>
        sizes t = sizes first \<and> dev_type (device t) = dt) \<and>
     distinct (map get_device ts) \<and> (\<forall>t \<in> set ts. get_device t \<notin> used)"
proof (induction ts arbitrary: used)
  case Nil
  show ?case by simp
next
  case (Cons t ts)
  define P where "P u \<longleftrightarrow> \<not> is_sparse u \<and> is_contiguous u \<and> scalar_type u = scalar_type first \<and>
        sizes u = sizes first \<and> dev_type (device u) = dt" for u :: Tensor
  have step: "check_each first dt used (t # ts) = Inr () \<longleftrightarrow>
      P t \<and> get_device t \<notin> used \<and> check_each first dt (insert (get_device t) used) ts = Inr ()"
    by (auto simp: P_def)
  have IH: "check_each first dt (insert (get_device t) used) ts = Inr () \<longleftrightarrow>
     (\<forall>u \<in> set ts. P u) \<and> distinct (map get_device ts) \<and>
     (\<forall>u \<in> set ts. get_device u \<notin> insert (get_device t) used)"
    unfolding P_def by (rule Cons.IH)
  have goal: "check_each first dt used (t # ts) = Inr () \<longleftrightarrow>
     (\<forall>u \<in> set (t # ts). P u) \<and> distinct (map get_device (t # ts)) \<and>
     (\<forall>u \<in> set (t # ts). get_device u \<notin> used)"
    unfolding step IH by (auto simp: image_iff)
  then show ?case unfolding P_def .
qed

lemma check_each_distinct:
  "check_each first dt used ts = Inl (runtime_error ''Tensors must be on distinct devices'') \<Longrightarrow>
     \<not> distinct (map get_device ts) \<or> (\<exists>t \<in> set ts. get_device t \<in> used)"
proof (induction ts arbitrary: used)
  case Nil
  then show ?case by simp
next
  case (Cons t ts)
  show ?case
  proof (cases "get_device t \<in> used")
    case True
    then show ?thesis by auto
  next
    case False
    with Cons.prems have "check_each first dt (insert (get_device t) used) ts =
        Inl (runtime_error ''Tensors must be on distinct devices'')"
      by (simp split: if_splits)
    from Cons.IH [OF this]
    consider "\<not> distinct (map get_device ts)"
      | u where "u \<in> set ts" "get_device u = get_device t"
      | u where "u \<in> set ts" "get_device u \<in> used"
      by auto
    then show ?thesis
    proof cases
      case 1
      then show ?thesis by simp
    next
      case 2
      then have "get_device t \<in> set (map get_device ts)" by (metis image_eqI set_map)
      then show ?thesis by simp
    next
      case 3
      then show ?thesis by auto
    qed
  qed
qed

lemma check_each_Inl_cases:
  "check_each first dt used ts = Inl e \<Longrightarrow>
     e \<in> {runtime_error ''Tensors must be dense'',
          runtime_error ''Tensors must have identical type'',
          runtime_error ''Tensors must have identical size'',
          runtime_error ''Tensors must be contiguous'',
          runtime_error ''Tensors must be on the same device type'',
          runtime_error ''Tensors must be on distinct devices''}"
  by (induction ts arbitrary: used) (auto split: if_splits)

lemma check_each_dense:
  "check_each first dt used ts = Inl (runtime_error ''Tensors must be dense'') \<Longrightarrow>
     \<exists>t \<in> set ts. is_sparse t"
  by (induction ts arbitrary: used) (auto split: if_splits)

lemma check_each_type:
  "check_each first dt used ts = Inl (runtime_error ''Tensors must have identical type'') \<Longrightarrow>
     \<exists>t \<in> set ts. scalar_type t \<noteq> scalar_type first"
  by (induction ts arbitrary: used) (auto split: if_splits)

lemma check_each_size:
  "check_each first dt used ts = Inl (runtime_error ''Tensors must have identical size'') \<Longrightarrow>
     \<exists>t \<in> set ts. sizes t \<noteq> sizes first"
  by (induction ts arbitrary: used) (auto split: if_splits)

lemma check_each_contiguous:
  "check_each first dt used ts = Inl (runtime_error ''Tensors must be contiguous'') \<Longrightarrow>
     \<exists>t \<in> set ts. \<not> is_contiguous t"
  by (induction ts arbitrary: used) (auto split: if_splits)

lemma check_each_device_type:
  "check_each first dt used ts = Inl (runtime_error ''Tensors must be on the same device type'') \<Longrightarrow>
     \<exists>t \<in> set ts. dev_type (device t) \<noteq> dt"
  by (induction ts arbitrary: used) (auto split: if_splits)

lemma check_each_violated:
  assumes "check_each first (dev_type (device first)) {} (first # ts) = Inl e"
  shows "violated e dc (first # ts)"
proof -
  let ?ts = "first # ts"
  from check_each_Inl_cases [OF assms]
  consider "e = runtime_error ''Tensors must be dense''"
    | "e = runtime_error ''Tensors must have identical type''"
    | "e = runtime_error ''Tensors must have identical size''"
    | "e = runtime_error ''Tensors must be contiguous''"
    | "e = runtime_error ''Tensors must be on the same device type''"
    | "e = runtime_error ''Tensors must be on distinct devices''"
    by (elim insertE) simp_all
  then show ?thesis
  proof cases
    case 1
    from assms [unfolded 1] have "\<exists>t \<in> set ?ts. is_sparse t" by (rule check_each_dense)
    then show ?thesis unfolding violated_def 1 by simp
  next
    case 2
    from assms [unfolded 2] have "\<exists>t \<in> set ?ts. scalar_type t \<noteq> scalar_type first"
      by (rule check_each_type)
    then show ?thesis unfolding violated_def 2 by simp
  next
    case 3
    from assms [unfolded 3] have "\<exists>t \<in> set ?ts. sizes t \<noteq> sizes first"
      by (rule check_each_size)
    then show ?thesis unfolding violated_def 3 by simp
  next
    case 4
    from assms [unfolded 4] have "\<exists>t \<in> set ?ts. \<not> is_contiguous t"
      by (rule check_each_contiguous)
    then show ?thesis unfolding violated_def 4 by simp
  next
    case 5
    from assms [unfolded 5] have "\<exists>t \<in> set ?ts. dev_type (device t) \<noteq> dev_type (device first)"
      by (rule check_each_device_type)
    then show ?thesis unfolding violated_def 5 by simp
  next
    case 6
    from assms [unfolded 6] have "\<not> distinct (map get_device ?ts) \<or> (\<exists>t \<in> set ?ts. get_device t \<in> {})"
      by (rule check_each_distinct)
    then have "\<not> distinct (map get_device ?ts)" by simp
    then show ?thesis unfolding violated_def 6 by simp
  qed
qed

text \<open>
  Claim C6.  For a non-negative device count, \<open>check_tensors_properties\<close> returns the
  device type of the first tensor exactly when the list is non-empty, has at most
  \<open>device_count\<close> entries, every tensor is dense and contiguous with the scalar type,
  shape and device type of the first one, and the device indices are pairwise distinct.
  Whenever it throws, the message names a condition that the list really violates
  (\<open>violated\<close>), and each such condition contradicts validity.
\<close>

theorem check_tensors_properties_exact:
  assumes "0 \<le> device_count"
  shows "(check_tensors_properties device_count ts = Inr dt \<longleftrightarrow>
            valid_tensor_set device_count ts \<and> dt = dev_type (device (hd ts))) \<and>
         (check_tensors_properties device_count ts = Inl e \<longrightarrow> violated e device_count ts) \<and>
         (violated e device_count ts \<longrightarrow> \<not> valid_tensor_set device_count ts)"
proof (intro conjI)
  have sz: "size_t_of_int device_count = nat device_count"
    using assms by (simp add: size_t_of_int_def)
  show "check_tensors_properties device_count ts = Inr dt \<longleftrightarrow>
            valid_tensor_set device_count ts \<and> dt = dev_type (device (hd ts))"
  proof (cases ts)
    case Nil
    then show ?thesis by (simp add: check_tensors_properties_def valid_tensor_set_def)
  next
    case (Cons first rest)
    have ce: "check_each first (dev_type (device first)) {} ts = Inr () \<longleftrightarrow>
        homogeneous first ts \<and> distinct (map get_device ts)"
      unfolding check_each_Inr_iff homogeneous_def by simp
    have len: "nat device_count < length ts \<longleftrightarrow> \<not> int (length ts) \<le> device_count"
      using assms by linarith
    show ?thesis
    proof (cases "check_each first (dev_type (device first)) {} ts")
      case (Inl x)
      with ce have "\<not> (homogeneous first ts \<and> distinct (map get_device ts))" by simp
      with Inl Cons show ?thesis
        unfolding check_tensors_properties_def valid_tensor_set_def sz len
        by (auto simp del: check_each.simps)
    next
      case (Inr u)
      with ce have "homogeneous first ts \<and> distinct (map get_device ts)" by simp
      with Inr Cons show ?thesis
        unfolding check_tensors_properties_def valid_tensor_set_def sz len
        by (auto simp del: check_each.simps)
    qed
  qed
  show "check_tensors_properties device_count ts = Inl e \<longrightarrow> violated e device_count ts"
  proof (cases ts)
    case Nil
    then show ?thesis by (auto simp: check_tensors_properties_def violated_def)
  next
    case (Cons first rest)
    show ?thesis
    proof
      assume a: "check_tensors_properties device_count ts = Inl e"
      show "violated e device_count ts"
      proof (cases "length ts > size_t_of_int device_count")
        case True
        then have "int (length ts) > device_count" using assms sz by linarith
        moreover from a Cons True
        have "e = runtime_error ''Tensor list mustn't be larger than the number of available GPUs''"
          by (simp add: check_tensors_properties_def del: check_each.simps)
        ultimately show ?thesis by (simp add: violated_def)
      next
        case False
        with a Cons have "check_each first (dev_type (device first)) {} (first # rest) = Inl e"
          by (simp add: check_tensors_properties_def split: sum.splits del: check_each.simps)
        from check_each_violated [OF this] Cons show ?thesis by simp
      qed
    qed
  qed
  show "violated e device_count ts \<longrightarrow> \<not> valid_tensor_set device_count ts"
    unfolding violated_def valid_tensor_set_def homogeneous_def
    by (intro impI, elim disjE conjE) auto
qed

theorem check_tensors_properties_exact_witness:
  "(0::int) \<le> 2 \<and>
   check_tensors_properties 2 [dense [8] 0, dense [8] 1] = Inr XPU \<and>
   valid_tensor_set 2 [dense [8] 0, dense [8] 1] \<and>
   check_tensors_properties 2 [dense [8] 0, dense [8] 0] =
     Inl (runtime_error ''Tensors must be on distinct devices'') \<and>
   violated (runtime_error ''Tensors must be on distinct devices'') 2 [dense [8] 0, dense [8] 0] \<and>
   \<not> valid_tensor_set 2 [dense [8] 0, dense [8] 0]"
proof -
  have h0: "(0::int) \<le> 2" by simp
  have a: "check_tensors_properties 2 [dense [8] 0, dense [8] 1] = Inr XPU"
    by (simp add: check_tensors_properties_def size_t_of_int_def dense_def xpu_def
          get_device_def)
  have b: "check_tensors_properties 2 [dense [8] 0, dense [8] 0] =
      Inl (runtime_error ''Tensors must be on distinct devices'')"
    by (simp add: check_tensors_properties_def size_t_of_int_def dense_def xpu_def
          get_device_def)
  from check_tensors_properties_exact
         [OF h0, of "[dense [8] 0, dense [8] 1]" XPU "runtime_error []"] a
  have c: "valid_tensor_set 2 [dense [8] 0, dense [8] 1]" by simp
  from check_tensors_properties_exact
         [OF h0, of "[dense [8] 0, dense [8] 0]" XPU
            "runtime_error ''Tensors must be on distinct devices''"] b
  have d: "violated (runtime_error ''Tensors must be on distinct devices'') 2
             [dense [8] 0, dense [8] 0] \<and>
           \<not> valid_tensor_set 2 [dense [8] 0, dense [8] 0]"
    by blast
  from h0 a b c d show ?thesis by blast
qed

lemma ccl_issued: "issued (snd (ccl env c pg)) = issued pg @ [c]"
  by (simp add: ccl_def split: option.splits)

lemma ccl_cases:
  obtains msg where "ccl env c pg = (Inl (ccl_exception msg), pg\<lparr>issued := issued pg @ [c]\<rparr>)"
  | "ccl env c pg = (Inr (length (issued pg)), pg\<lparr>issued := issued pg @ [c]\<rparr>)"
  by (cases "ccl_rejects env c") (auto simp: ccl_def)

text \<open>
  A sequence of calls that returns has recorded all of them; one that throws has recorded
  the calls up to the one that threw, and throws what the library threw.
\<close>

lemma ccl_all_Inr:
  "ccl_all env cs pg = (Inr u, pg1) \<Longrightarrow> pg1 = pg\<lparr>issued := issued pg @ cs\<rparr>"
proof (induction cs arbitrary: pg)
  case Nil
  then show ?case by simp
next
  case (Cons c cs)
  show ?case
  proof (cases rule: ccl_cases [of env c pg])
    case (1 msg)
    with Cons.prems show ?thesis by simp
  next
    case 2
    with Cons.prems have "ccl_all env cs (pg\<lparr>issued := issued pg @ [c]\<rparr>) = (Inr u, pg1)"
      by simp
    from Cons.IH [OF this] show ?thesis by simp
  qed
qed

lemma ccl_all_Inl:
  "ccl_all env cs pg = (Inl e, pg1) \<Longrightarrow>
     \<exists>n msg. n < length cs \<and> e = ccl_exception msg \<and>
       pg1 = pg\<lparr>issued := issued pg @ take (Suc n) cs\<rparr>"
proof (induction cs arbitrary: pg)
  case Nil
  then show ?case by simp
next
  case (Cons c cs)
  show ?case
  proof (cases rule: ccl_cases [of env c pg])
    case (1 msg)
    with Cons.prems have "e = ccl_exception msg" "pg1 = pg\<lparr>issued := issued pg @ [c]\<rparr>"
      by simp_all
    then show ?thesis by (intro exI [of _ 0] exI [of _ msg]) simp
  next
    case 2
    with Cons.prems have "ccl_all env cs (pg\<lparr>issued := issued pg @ [c]\<rparr>) = (Inl e, pg1)"
      by simp
    from Cons.IH [OF this] obtain n msg where
      n: "n < length cs" "e = ccl_exception msg"
         "pg1 = pg\<lparr>issued := issued pg @ [c]\<rparr>
                  \<lparr>issued := issued (pg\<lparr>issued := issued pg @ [c]\<rparr>) @ take (Suc n) cs\<rparr>"
      by blast
    then show ?thesis by (intro exI [of _ "Suc n"] exI [of _ msg]) simp
  qed
qed

text \<open>
  The two ways a get that misses the cache can end: one of the five calls threw, and the
  cache is as it was; or all five were made and the new bundle is stored.
\<close>

lemma get_ccl_comms_miss:
  assumes "length devices = 1" "key \<noteq> []" "get_comms pg key = None"
  obtains (threw) n msg where "n < 5"
      "get_ccl_comms env pg key devices =
         (Inl (ccl_exception msg),
          pg\<lparr>issued := issued pg @ take (Suc n)
             [create_stream (dev_index (devices ! 0)), create_device (dev_index (devices ! 0)),
              create_context (dev_index (devices ! 0)), get_kvs (getRank pg),
              create_communicators (getSize pg) [(getRank pg, dev_index (devices ! 0))]]\<rparr>)"
  | (stored)
      "get_ccl_comms env pg key devices =
         (Inr \<lparr>comms = [\<lparr>comm_size = getSize pg, comm_rank = getRank pg,
                           comm_device = dev_index (devices ! 0)\<rparr>],
                streams = [dev_index (devices ! 0)]\<rparr>,
          add_comms key
            \<lparr>comms = [\<lparr>comm_size = getSize pg, comm_rank = getRank pg,
                         comm_device = dev_index (devices ! 0)\<rparr>],
              streams = [dev_index (devices ! 0)]\<rparr>
            (pg\<lparr>issued := issued pg @
               [create_stream (dev_index (devices ! 0)), create_device (dev_index (devices ! 0)),
                create_context (dev_index (devices ! 0)), get_kvs (getRank pg),
                create_communicators (getSize pg) [(getRank pg, dev_index (devices ! 0))]]\<rparr>))"
proof -
  let ?q = "dev_index (devices ! 0)"
  let ?cs = "[create_stream ?q, create_device ?q, create_context ?q, get_kvs (getRank pg),
              create_communicators (getSize pg) [(getRank pg, ?q)]]"
  obtain r pg1 where r: "ccl_all env ?cs pg = (r, pg1)"
    by (cases "ccl_all env ?cs pg")
  show thesis
  proof (cases r)
    case (Inl e)
    with r have "ccl_all env ?cs pg = (Inl e, pg1)" by simp
    from ccl_all_Inl [OF this] obtain n msg where
      n: "n < length ?cs" "e = ccl_exception msg"
         "pg1 = pg\<lparr>issued := issued pg @ take (Suc n) ?cs\<rparr>"
      by blast
    have "get_ccl_comms env pg key devices = (Inl e, pg1)"
      using assms r Inl by (simp add: get_ccl_comms_def Let_def del: ccl_all.simps)
    with n show thesis by (intro threw [of n msg]) simp_all
  next
    case (Inr u)
    with r have "ccl_all env ?cs pg = (Inr u, pg1)" by simp
    from ccl_all_Inr [OF this] have pg1: "pg1 = pg\<lparr>issued := issued pg @ ?cs\<rparr>" .
    have "get_ccl_comms env pg key devices =
            (Inr \<lparr>comms = [\<lparr>comm_size = getSize pg, comm_rank = getRank pg,
                              comm_device = ?q\<rparr>], streams = [?q]\<rparr>,
             add_comms key \<lparr>comms = [\<lparr>comm_size = getSize pg, comm_rank = getRank pg,
                              comm_device = ?q\<rparr>], streams = [?q]\<rparr> pg1)"
      using assms r Inr by (simp add: get_ccl_comms_def Let_def del: ccl_all.simps)
    with pg1 show thesis by (intro stored) simp
  qed
qed

section \<open>The communicator cache\<close>

text \<open>
  Claim C8.  \<open>get_ccl_comms\<close> throws, leaving the process group untouched, when the device
  list is empty and when it has more than one device.  The library is called (stream,
  device, context, rendezvous and communicator construction) only for a device list of size
  exactly one with a non-empty key that is missing from the cache, and in that case
  construction is always started, on the queue of that one device.
\<close>

theorem get_ccl_comms_one_device_only:
  "(devices = [] \<longrightarrow>
      get_ccl_comms env pg key devices =
        (Inl (runtime_error (if key = []
           then ''Not able to create/get the CCL Communicator since the devices are empty ''
           else ''Torch CCL only support one device per process now'')), pg)) \<and>
   (1 < length devices \<longrightarrow>
      get_ccl_comms env pg key devices =
        (Inl (runtime_error (if key = []
           then ''Not able to create/get the CCL Communicator since the devices are empty ''
           else ''Torch CCL only support one device per process now'')), pg)) \<and>
   (issued (snd (get_ccl_comms env pg key devices)) \<noteq> issued pg \<longrightarrow>
      length devices = 1 \<and> key \<noteq> [] \<and> get_comms pg key = None) \<and>
   (length devices = 1 \<and> key \<noteq> [] \<and> get_comms pg key = None \<longrightarrow>
      (\<exists>rest. issued (snd (get_ccl_comms env pg key devices)) =
         issued pg @ create_stream (dev_index (devices ! 0)) # rest))"
proof -
  have p1: "devices = [] \<longrightarrow>
      get_ccl_comms env pg key devices =
        (Inl (runtime_error (if key = []
           then ''Not able to create/get the CCL Communicator since the devices are empty ''
           else ''Torch CCL only support one device per process now'')), pg)"
    by (simp add: get_ccl_comms_def)
  have p2: "1 < length devices \<longrightarrow>
      get_ccl_comms env pg key devices =
        (Inl (runtime_error (if key = []
           then ''Not able to create/get the CCL Communicator since the devices are empty ''
           else ''Torch CCL only support one device per process now'')), pg)"
    by (simp add: get_ccl_comms_def)
  have p3: "issued (snd (get_ccl_comms env pg key devices)) \<noteq> issued pg \<longrightarrow>
      length devices = 1 \<and> key \<noteq> [] \<and> get_comms pg key = None"
  proof (rule impI, rule ccontr)
    assume a: "issued (snd (get_ccl_comms env pg key devices)) \<noteq> issued pg"
    assume "\<not> (length devices = 1 \<and> key \<noteq> [] \<and> get_comms pg key = None)"
    then have "snd (get_ccl_comms env pg key devices) = pg"
      by (auto simp: get_ccl_comms_def split: option.splits)
    with a show False by simp
  qed
  have p4: "length devices = 1 \<and> key \<noteq> [] \<and> get_comms pg key = None \<longrightarrow>
      (\<exists>rest. issued (snd (get_ccl_comms env pg key devices)) =
         issued pg @ create_stream (dev_index (devices ! 0)) # rest)"
  proof
    assume a: "length devices = 1 \<and> key \<noteq> [] \<and> get_comms pg key = None"
    then have a': "length devices = 1" "key \<noteq> []" "get_comms pg key = None" by simp_all
    show "\<exists>rest. issued (snd (get_ccl_comms env pg key devices)) =
         issued pg @ create_stream (dev_index (devices ! 0)) # rest"
      by (cases rule: get_ccl_comms_miss [OF a', of env]) (simp_all add: add_comms_def)
  qed
  show ?thesis by (intro conjI p1 p2 p3 p4)
qed

text \<open>
  A lookup that finds an entry returns it and changes nothing; a successful get leaves its
  result stored under the key and leaves every other key alone.
\<close>

lemma get_ccl_comms_hit:
  "get_comms pg key = Some c \<Longrightarrow> key \<noteq> [] \<Longrightarrow> length devices = 1 \<Longrightarrow>
     get_ccl_comms env pg key devices = (Inr c, pg)"
  by (simp add: get_ccl_comms_def)

lemma get_ccl_comms_stores:
  assumes "get_ccl_comms env pg key devices = (Inr c, pg1)"
  shows "get_comms pg1 key = Some c \<and> key \<noteq> [] \<and>
         (\<forall>key'. key' \<noteq> key \<longrightarrow> get_comms pg1 key' = get_comms pg key')"
proof -
  from assms have k: "key \<noteq> []" and d: "length devices = 1"
    by (auto simp: get_ccl_comms_def split: if_splits)
  show ?thesis
  proof (cases "get_comms pg key")
    case (Some b)
    with assms k d show ?thesis by (simp add: get_ccl_comms_def)
  next
    case None
    from d k None show ?thesis
    proof (cases rule: get_ccl_comms_miss [of devices key pg env])
      case (threw n msg)
      with assms show ?thesis by simp
    next
      case stored
      with assms k show ?thesis by (auto simp: add_comms_def get_comms_def)
    qed
  qed
qed

text \<open>
  Claim C5.  The cache maps a key to at most one bundle.  A get that finds an entry for the
  key returns that bundle and leaves the process group unchanged, so no rendezvous and no
  construction is issued.  After a successful get, the bundle it returned is the entry of
  the key, the other keys are as before, and every later get with that key (and one device)
  returns the same bundle, again without changing anything.
\<close>

theorem communicator_cache_at_most_one_bundle:
  "(get_comms pg key = Some c \<and> key \<noteq> [] \<and> length devices = 1 \<longrightarrow>
      get_ccl_comms env pg key devices = (Inr c, pg)) \<and>
   (get_ccl_comms env pg key devices = (Inr c, pg1) \<longrightarrow>
      get_comms pg1 key = Some c \<and>
      (\<forall>key'. key' \<noteq> key \<longrightarrow> get_comms pg1 key' = get_comms pg key') \<and>
      (\<forall>devices' env'. length devices' = 1 \<longrightarrow>
         get_ccl_comms env' pg1 key devices' = (Inr c, pg1)))"
  using get_ccl_comms_hit get_ccl_comms_stores by blast

section \<open>\<open>execute\<close> and \<open>wait\<close>\<close>

text \<open>
  Claim C4.  \<open>execute\<close> never throws.  When \<open>run\<close> throws \<open>e\<close>, the work ends in state
  \<open>Failed e\<close>; when \<open>run\<close> returns, it ends in state \<open>Completed\<close>.  A \<open>wait\<close> whose events
  complete within the timeout blocks until they have completed, then throws the captured
  cause of a failed work and returns \<open>true\<close> otherwise; when the events do not complete in
  time it blocks for the timeout and throws \<open>TimeoutError\<close>.
\<close>

theorem execute_never_throws:
  "fst (execute work pg) = Inr () \<and>
   (run work pg = (Inl e, work1, pg1) \<longrightarrow>
      execute work pg = (Inr (), work1\<lparr>w_state := Failed e\<rparr>, pg1)) \<and>
   (run work pg = (Inr (), work1, pg1) \<longrightarrow>
      execute work pg = (Inr (), work1\<lparr>w_state := Completed\<rparr>, pg1)) \<and>
   (all_done_in completes_in (rets w) = Some d \<and> d \<le> timeout \<longrightarrow>
      wait completes_in timeout w =
        (case w_state w of Failed cause \<Rightarrow> (Inl cause, d) | _ \<Rightarrow> (Inr True, d))) \<and>
   ((\<forall>d. all_done_in completes_in (rets w) = Some d \<longrightarrow> timeout < d) \<longrightarrow>
      wait completes_in timeout w = (Inl TimeoutError, timeout))"
proof -
  have p1: "fst (execute work pg) = Inr ()"
    by (simp add: execute_def finishAsyncWorkCCLError_def finishAsyncWorkCCL_def
             split: prod.splits sum.splits)
  have p2: "run work pg = (Inl e, work1, pg1) \<longrightarrow>
      execute work pg = (Inr (), work1\<lparr>w_state := Failed e\<rparr>, pg1)"
    by (simp add: execute_def finishAsyncWorkCCLError_def)
  have p3: "run work pg = (Inr (), work1, pg1) \<longrightarrow>
      execute work pg = (Inr (), work1\<lparr>w_state := Completed\<rparr>, pg1)"
    by (simp add: execute_def finishAsyncWorkCCL_def)
  have p4: "all_done_in completes_in (rets w) = Some d \<and> d \<le> timeout \<longrightarrow>
      wait completes_in timeout w =
        (case w_state w of Failed cause \<Rightarrow> (Inl cause, d) | _ \<Rightarrow> (Inr True, d))"
    by (simp add: wait_def synchronizeInternal_def checkAndThrowException_def
             split: WorkState.splits)
  have p5: "(\<forall>d. all_done_in completes_in (rets w) = Some d \<longrightarrow> timeout < d) \<longrightarrow>
      wait completes_in timeout w = (Inl TimeoutError, timeout)"
    by (cases "all_done_in completes_in (rets w)")
       (auto simp: wait_def synchronizeInternal_def)
  show ?thesis by (intro conjI p1 p2 p3 p4 p5)
qed

theorem get_ccl_comms_one_device_only_witness:
  "get_ccl_comms accepting rank1of3 [] [] =
     (Inl (runtime_error
        ''Not able to create/get the CCL Communicator since the devices are empty ''), rank1of3) \<and>
   get_ccl_comms accepting rank1of3 ''0,1'' [xpu 0, xpu 1] =
     (Inl (runtime_error ''Torch CCL only support one device per process now''), rank1of3) \<and>
   (\<exists>rest. issued (snd (get_ccl_comms accepting rank1of3 ''0'' [xpu 0])) = create_stream 0 # rest)"
proof -
  have a: "get_ccl_comms accepting rank1of3 [] [] =
     (Inl (runtime_error
        ''Not able to create/get the CCL Communicator since the devices are empty ''), rank1of3)"
    using get_ccl_comms_one_device_only [of "[]" accepting rank1of3 "[]"] by simp
  have b: "get_ccl_comms accepting rank1of3 ''0,1'' [xpu 0, xpu 1] =
     (Inl (runtime_error ''Torch CCL only support one device per process now''), rank1of3)"
    using get_ccl_comms_one_device_only [of "[xpu 0, xpu 1]" accepting rank1of3 "''0,1''"]
    by simp
  have c: "\<exists>rest. issued (snd (get_ccl_comms accepting rank1of3 ''0'' [xpu 0])) = create_stream 0 # rest"
    using get_ccl_comms_one_device_only [of "[xpu 0]" accepting rank1of3 "''0''"]
    by (simp add: get_comms_def rank1of3_def xpu_def)
  from a b c show ?thesis by (intro conjI)
qed

theorem communicator_cache_at_most_one_bundle_witness:
  "get_ccl_comms accepting rank1of3 ''0'' [xpu 0] =
     (Inr bundle0,
      rank1of3_ready) \<and>
   get_ccl_comms accepting
     rank1of3_ready
     ''0'' [xpu 0] =
     (Inr bundle0,
      rank1of3_ready)"
proof -
  let ?b = "bundle0"
  let ?pg1 = "rank1of3_ready"
  have first: "get_ccl_comms accepting rank1of3 ''0'' [xpu 0] = (Inr ?b, ?pg1)"
    by (simp add: get_ccl_comms_def get_comms_def add_comms_def ccl_def accepting_def
          rank1of3_def rank1of3_ready_def setup0_def bundle0_def xpu_def Let_def)
  from communicator_cache_at_most_one_bundle
         [of rank1of3 "''0''" ?b "[xpu 0]" accepting ?pg1] first
  have "\<forall>devices' env'. length devices' = 1 \<longrightarrow>
          get_ccl_comms env' ?pg1 ''0'' devices' = (Inr ?b, ?pg1)"
    by blast
  then have again: "get_ccl_comms accepting ?pg1 ''0'' [xpu 0] = (Inr ?b, ?pg1)"
    by simp
  from first again show ?thesis by (intro conjI)
qed

theorem execute_never_throws_witness:
  "execute
     \<lparr>w_inputs = [dense [8] 0], w_outputs = [dense [8] 0],
      w_f = (\<lambda>input output comm pg. (Inl (ccl_exception ''device lost''), pg)),
      w_comms = bundle0,
      rets = [], debugName = ''xpu::allreduce'', w_state = Running\<rparr> rank1of3 =
     (Inr (),
      \<lparr>w_inputs = [dense [8] 0], w_outputs = [dense [8] 0],
       w_f = (\<lambda>input output comm pg. (Inl (ccl_exception ''device lost''), pg)),
       w_comms = bundle0,
       rets = [], debugName = ''xpu::allreduce'',
       w_state = Failed (ccl_exception ''device lost'')\<rparr>, rank1of3) \<and>
   wait (\<lambda>ev. Some 5) 1000
     \<lparr>w_inputs = [dense [8] 0], w_outputs = [dense [8] 0],
      w_f = (\<lambda>input output comm pg. (Inl (ccl_exception ''device lost''), pg)),
      w_comms = bundle0,
      rets = [], debugName = ''xpu::allreduce'',
      w_state = Failed (ccl_exception ''device lost'')\<rparr> =
     (Inl (ccl_exception ''device lost''), 0) \<and>
   wait (\<lambda>ev. Some 5) 1000
     \<lparr>w_inputs = [dense [8] 0], w_outputs = [dense [8] 0],
      w_f = (\<lambda>input output comm pg. (Inl (ccl_exception ''device lost''), pg)),
      w_comms = bundle0,
      rets = [7], debugName = ''xpu::allreduce'', w_state = Completed\<rparr> =
     (Inr True, 5) \<and>
   wait (\<lambda>ev. Some 5) 3
     \<lparr>w_inputs = [dense [8] 0], w_outputs = [dense [8] 0],
      w_f = (\<lambda>input output comm pg. (Inl (ccl_exception ''device lost''), pg)),
      w_comms = bundle0,
      rets = [7], debugName = ''xpu::allreduce'', w_state = Completed\<rparr> =
     (Inl TimeoutError, 3)"
proof -
  let ?f = "\<lambda>(input::Tensor) (output::Tensor) (comm::communicator) (pg::ProcessGroupCCL).
              (Inl (ccl_exception ''device lost'') :: error + event, pg)"
  let ?b = "bundle0"
  let ?w = "\<lambda>r s. \<lparr>w_inputs = [dense [8] 0], w_outputs = [dense [8] 0], w_f = ?f,
      w_comms = ?b, rets = r, debugName = ''xpu::allreduce'', w_state = s\<rparr>"
  have r: "run (?w [] Running) rank1of3 =
      (Inl (ccl_exception ''device lost''), ?w [] Running, rank1of3)"
    by (simp add: run_def bundle0_def)
  from execute_never_throws [of "?w [] Running" rank1of3 "ccl_exception ''device lost''"
         "?w [] Running" rank1of3 "\<lambda>ev. Some 5" "?w [] Running" 0 1000] r
  have a: "execute (?w [] Running) rank1of3 =
      (Inr (), ?w [] (Failed (ccl_exception ''device lost'')), rank1of3)"
    by simp
  have b: "wait (\<lambda>ev. Some 5) 1000 (?w [] (Failed (ccl_exception ''device lost''))) =
      (Inl (ccl_exception ''device lost''), 0)"
    using execute_never_throws [of "?w [] Running" rank1of3 "ccl_exception ''device lost''"
            "?w [] Running" rank1of3 "\<lambda>ev. Some 5"
            "?w [] (Failed (ccl_exception ''device lost''))" 0 1000]
    by simp
  have c: "wait (\<lambda>ev. Some 5) 1000 (?w [7] Completed) = (Inr True, 5)"
    using execute_never_throws [of "?w [] Running" rank1of3 "ccl_exception ''device lost''"
            "?w [] Running" rank1of3 "\<lambda>ev. Some 5" "?w [7] Completed" 5 1000]
    by simp
  have d: "wait (\<lambda>ev. Some 5) 3 (?w [7] Completed) = (Inl TimeoutError, 3)"
    using execute_never_throws [of "?w [] Running" rank1of3 "ccl_exception ''device lost''"
            "?w [] Running" rank1of3 "\<lambda>ev. Some 5" "?w [7] Completed" 5 3]
    by simp
  from a b c d show ?thesis by (intro conjI)
qed

section \<open>The flat root identifier\<close>

lemma ucast_64_32_of_int: "(ucast (word_of_int k :: 64 word) :: 32 word) = word_of_int k"
  by (simp add: unsigned_of_int word_of_int_eq_iff take_bit_take_bit)

lemma flat_root_wraps: "flat_root r n t = signed_take_bit 31 (r * int n + t)"
proof -
  define k where "k = r * int n + t"
  have "(word_of_int r :: 64 word) * of_nat n + word_of_int t = word_of_int k"
    by (simp add: k_def)
  then have "flat_root r n t = sint (ucast (word_of_int k :: 64 word) :: 32 word)"
    by (simp only: flat_root_def)
  also have "\<dots> = signed_take_bit 31 k"
    by (simp only: ucast_64_32_of_int sint_sbintrunc') simp
  finally show ?thesis by (simp only: k_def)
qed

lemma flat_root_exact:
  "- (2 ^ 31) \<le> r * int n + t \<Longrightarrow> r * int n + t < 2 ^ 31 \<Longrightarrow>
     flat_root r n t = r * int n + t"
  unfolding flat_root_wraps by (rule signed_take_bit_int_eq_self) simp_all

section \<open>What an entry point issues to the library\<close>

lemma get_ccl_comms_issued:
  "\<exists>cs. issued (snd (get_ccl_comms env pg key devices)) = issued pg @ cs \<and>
        list_all setup_call cs"
proof (cases "length devices = 1 \<and> key \<noteq> [] \<and> get_comms pg key = None")
  case False
  then have "snd (get_ccl_comms env pg key devices) = pg"
    by (auto simp: get_ccl_comms_def split: option.splits)
  then show ?thesis by simp
next
  case True
  then have a: "length devices = 1" "key \<noteq> []" "get_comms pg key = None" by simp_all
  let ?q = "dev_index (devices ! 0)"
  let ?cs = "[create_stream ?q, create_device ?q, create_context ?q, get_kvs (getRank pg),
              create_communicators (getSize pg) [(getRank pg, ?q)]]"
  have all: "list_all setup_call ?cs" by simp
  from a show ?thesis
  proof (cases rule: get_ccl_comms_miss [of devices key pg env])
    case (threw n msg)
    have "list_all setup_call (take (Suc n) ?cs)"
      using all unfolding list_all_iff by (meson in_set_takeD)
    with threw(2) show ?thesis by (intro exI [of _ "take (Suc n) ?cs"]) simp
  next
    case stored
    with all show ?thesis by (intro exI [of _ ?cs]) (simp add: add_comms_def)
  qed
qed

lemma get_ccl_comms_Inr_one_device:
  "get_ccl_comms env pg key devices = (Inr b, pg1) \<Longrightarrow> length devices = 1 \<and> key \<noteq> []"
  by (auto simp: get_ccl_comms_def split: if_splits)

lemma collective_Inl:
  "collective env pg inputs outputs fn = (Inl e, pg1) \<Longrightarrow>
     get_ccl_comms env pg (get_key_from_devs (get_device_list inputs)) (get_device_list inputs) =
       (Inl e, pg1)"
  by (auto simp: collective_def Let_def split: prod.splits sum.splits)

lemma collective_Inr:
  assumes "collective env pg inputs outputs fn = (Inr w, pg1)"
  shows "\<exists>b. get_ccl_comms env pg (get_key_from_devs (get_device_list inputs))
                (get_device_list inputs) = (Inr b, pg1) \<and>
             w = \<lparr>w_inputs = inputs, w_outputs = outputs, w_f = fn, w_comms = b,
                   rets = [], debugName = [], w_state = Running\<rparr>"
  using assms by (auto simp: collective_def Let_def split: prod.splits sum.splits)

lemma collective_Inr_one_input:
  "collective env pg inputs outputs fn = (Inr w, pg1) \<Longrightarrow> length inputs = 1"
  by (auto dest!: collective_Inr get_ccl_comms_Inr_one_device simp: get_device_list_def)

lemma collective_issued:
  "\<exists>cs. issued (snd (collective env pg inputs outputs fn)) = issued pg @ cs \<and>
        list_all setup_call cs"
proof -
  let ?g = "get_ccl_comms env pg (get_key_from_devs (get_device_list inputs))
              (get_device_list inputs)"
  have "snd (collective env pg inputs outputs fn) = snd ?g"
    by (simp add: collective_def Let_def split: prod.splits sum.splits)
  with get_ccl_comms_issued [of env pg _ "get_device_list inputs"] show ?thesis by simp
qed

lemma run_from_issued:
  assumes "\<And>x y c p. \<exists>cs. issued (snd (w_f work x y c p)) = issued p @ cs \<and> list_all P cs"
  shows "\<exists>cs. issued (snd (snd (run_from idxs work pg))) = issued pg @ cs \<and> list_all P cs"
  using assms
proof (induction idxs arbitrary: work pg)
  case Nil
  show ?case by simp
next
  case (Cons i idxs)
  show ?case
  proof (cases "i < length (w_inputs work) \<and> i < length (w_outputs work) \<and>
                i < length (comms (w_comms work))")
    case False
    then have "run_from (i # idxs) work pg =
        (Inl (undefined_behaviour ''vector index past the end''), work, pg)"
      by auto
    then show ?thesis by simp
  next
    case True
    let ?r = "w_f work (w_inputs work ! i) (w_outputs work ! i) (comms (w_comms work) ! i) pg"
    from Cons.prems obtain cs where cs: "issued (snd ?r) = issued pg @ cs" "list_all P cs"
      by blast
    show ?thesis
    proof (cases ?r)
      case (Pair res pg1)
      show ?thesis
      proof (cases res)
        case (Inl e)
        with Pair True have "run_from (i # idxs) work pg = (Inl e, work, pg1)" by simp
        with cs Pair show ?thesis by auto
      next
        case (Inr ret)
        let ?work1 = "work\<lparr>rets := rets work @ [ret]\<rparr>"
        from Inr Pair True
        have step: "run_from (i # idxs) work pg = run_from idxs ?work1 pg1" by simp
        have "\<And>x y c p. \<exists>cs. issued (snd (w_f ?work1 x y c p)) = issued p @ cs \<and> list_all P cs"
          using Cons.prems by simp
        from Cons.IH [OF this, of pg1] obtain cs' where
          cs': "issued (snd (snd (run_from idxs ?work1 pg1))) = issued pg1 @ cs'" "list_all P cs'"
          by blast
        from cs Pair have "issued pg1 = issued pg @ cs" by simp
        with cs' step have "issued (snd (snd (run_from (i # idxs) work pg))) = issued pg @ (cs @ cs')"
          by simp
        moreover from cs cs' have "list_all P (cs @ cs')" by simp
        ultimately show ?thesis by blast
      qed
    qed
  qed
qed

lemma execute_issued:
  assumes "\<And>x y c p. \<exists>cs. issued (snd (w_f work x y c p)) = issued p @ cs \<and> list_all P cs"
  shows "\<exists>cs. issued (snd (snd (execute work pg))) = issued pg @ cs \<and> list_all P cs"
proof -
  have "snd (snd (execute work pg)) = snd (snd (run work pg))"
    by (simp add: execute_def finishAsyncWorkCCLError_def finishAsyncWorkCCL_def
             split: prod.splits sum.splits)
  with run_from_issued [OF assms, of "[0..<length (w_inputs work)]" pg]
  show ?thesis by (simp add: run_def)
qed

lemma launch_snd:
  "snd (launch name (Inr work, pg1)) = snd (snd (execute (work\<lparr>debugName := name\<rparr>) pg1))"
  by (simp add: launch_def split: prod.splits sum.splits)

lemma launch_collective_issued:
  assumes "\<And>x y c p. \<exists>cs. issued (snd (fn x y c p)) = issued p @ cs \<and> list_all P cs"
  shows "\<exists>cs. issued (snd (launch name (collective env pg inputs outputs fn))) = issued pg @ cs \<and>
           list_all (\<lambda>c. setup_call c \<or> P c) cs"
proof (cases "collective env pg inputs outputs fn")
  case (Pair res pg1)
  from collective_issued [of env pg inputs outputs fn] Pair
  obtain cs where cs: "issued pg1 = issued pg @ cs" "list_all setup_call cs" by auto
  show ?thesis
  proof (cases res)
    case (Inl e)
    with Pair have "launch name (collective env pg inputs outputs fn) = (Inl e, pg1)"
      by (simp add: launch_def)
    with cs show ?thesis by (auto simp: list_all_iff)
  next
    case (Inr w)
    with Pair collective_Inr [of env pg inputs outputs fn w pg1] have "w_f w = fn" by auto
    then have "\<And>x y c p. \<exists>cs. issued (snd (w_f (w\<lparr>debugName := name\<rparr>) x y c p)) =
        issued p @ cs \<and> list_all P cs"
      using assms by simp
    from execute_issued [OF this, of pg1] obtain cs' where
      cs': "issued (snd (snd (execute (w\<lparr>debugName := name\<rparr>) pg1))) = issued pg1 @ cs'"
        "list_all P cs'"
      by blast
    from Pair Inr have "snd (launch name (collective env pg inputs outputs fn)) =
        snd (snd (execute (w\<lparr>debugName := name\<rparr>) pg1))"
      by (simp add: launch_snd)
    with cs cs' have "issued (snd (launch name (collective env pg inputs outputs fn))) =
        issued pg @ (cs @ cs')"
      by simp
    moreover from cs cs' have "list_all (\<lambda>c. setup_call c \<or> P c) (cs @ cs')"
      by (auto simp: list_all_iff)
    ultimately show ?thesis by blast
  qed
qed

text \<open>
  With the one device that \<open>get_ccl_comms\<close> admits, \<open>run\<close> is a single call of the dispatch
  function, and \<open>execute\<close> files its outcome in the work.
\<close>

lemma launch_collective_single:
  assumes "collective env pg [x] (y # ys) fn = (Inr w0, pg1)"
    and "comms (w_comms w0) = c # cs"
  shows "launch name (collective env pg [x] (y # ys) fn) =
     (case fn x y c pg1 of
        (Inl e, pg2) \<Rightarrow> (Inr (w0\<lparr>debugName := name, w_state := Failed e\<rparr>), pg2)
      | (Inr ret, pg2) \<Rightarrow>
          (Inr (w0\<lparr>rets := [ret], debugName := name, w_state := Completed\<rparr>), pg2))"
proof -
  from collective_Inr [OF assms(1)] obtain b where
    w0: "w0 = \<lparr>w_inputs = [x], w_outputs = y # ys, w_f = fn, w_comms = b,
                rets = [], debugName = [], w_state = Running\<rparr>"
    by blast
  with assms(2) have b: "comms b = c # cs" by simp
  show ?thesis
    unfolding assms(1)
    by (cases "fn x y c pg1")
       (auto simp: launch_def execute_def run_def w0 b finishAsyncWorkCCLError_def
          finishAsyncWorkCCL_def split: sum.splits)
qed

lemma launch_collective_Inl:
  assumes "launch name (collective env pg inputs outputs fn) = (Inl e, pg1)"
  shows "collective env pg inputs outputs fn = (Inl e, pg1)"
proof (cases "collective env pg inputs outputs fn")
  case (Pair res pg')
  show ?thesis
  proof (cases res)
    case (Inl e')
    with Pair assms show ?thesis by (simp add: launch_def)
  next
    case (Inr w)
    have "fst (execute (w\<lparr>debugName := name\<rparr>) pg') = Inr ()"
      by (simp add: execute_def finishAsyncWorkCCLError_def finishAsyncWorkCCL_def
               split: prod.splits sum.splits)
    with Pair Inr assms show ?thesis
      by (auto simp: launch_def split: prod.splits sum.splits)
  qed
qed

lemma get_ccl_comms_Inl_cases:
  assumes "get_ccl_comms env pg key devices = (Inl e, pg1)"
  shows "e = runtime_error
           ''Not able to create/get the CCL Communicator since the devices are empty '' \<or>
         e = runtime_error ''Torch CCL only support one device per process now'' \<or>
         (\<exists>msg. e = ccl_exception msg)"
proof (cases "length devices = 1 \<and> key \<noteq> [] \<and> get_comms pg key = None")
  case False
  with assms show ?thesis
    by (auto simp: get_ccl_comms_def split: if_splits option.splits)
next
  case True
  then have a: "length devices = 1" "key \<noteq> []" "get_comms pg key = None" by simp_all
  from a show ?thesis
  proof (cases rule: get_ccl_comms_miss [of devices key pg env])
    case (threw n msg)
    with assms show ?thesis by auto
  next
    case stored
    with assms show ?thesis by simp
  qed
qed

text \<open>The defining equations needed to run an entry point on concrete input.\<close>

lemmas run_entry =
  checkGPUTensors_def checkGPUTensor_def collective_def get_device_list_def
  get_key_from_devs_def to_string_def decimal.simps get_ccl_comms_def get_comms_def
  add_comms_def ccl_def launch_def execute_def run_def finishAsyncWorkCCLError_def
  finishAsyncWorkCCL_def map_at_def TORCH_CHECK_def numel_def size0_def Let_def
  accepting_def rank1of3_def rank1of3_ready_def setup0_def bundle0_def dense_def xpu_def

lemma reduce_fn_issued:
  "\<exists>cs. issued (snd (reduce_fn env opts root x y c p)) = issued p @ cs \<and>
        list_all (\<lambda>call. \<exists>n dt op. call = ccl_reduce n dt op root) cs"
proof (cases "map_at (cclDatatypes env) (scalar_type x)")
  case (Inl e)
  then show ?thesis by (simp add: reduce_fn_def)
next
  case (Inr dt)
  show ?thesis
  proof (cases "map_at (cclOps env) (reduceOp opts)")
    case (Inl e)
    with Inr show ?thesis by (simp add: reduce_fn_def)
  next
    case (Inr op)
    with \<open>map_at (cclDatatypes env) (scalar_type x) = Inr dt\<close>
    have "issued (snd (reduce_fn env opts root x y c p)) =
        issued p @ [ccl_reduce (numel x) dt op root]"
      by (simp add: reduce_fn_def ccl_issued)
    then show ?thesis by auto
  qed
qed

lemma broadcast_fn_issued:
  "\<exists>cs. issued (snd (broadcast_fn env root x y c p)) = issued p @ cs \<and>
        list_all (\<lambda>call. \<exists>n dt. call = ccl_broadcast n dt root) cs"
proof (cases "map_at (cclDatatypes env) (scalar_type x)")
  case (Inl e)
  then show ?thesis by (simp add: broadcast_fn_def)
next
  case (Inr dt)
  then have "issued (snd (broadcast_fn env root x y c p)) =
      issued p @ [ccl_broadcast (numel x) dt root]"
    by (simp add: broadcast_fn_def ccl_issued)
  then show ?thesis by auto
qed

text \<open>
  Claim C7.  Whatever \<open>reduce_stub\<close> and \<open>broadcast_stub\<close> issue to the library beyond
  communicator setup is a \<open>ccl::reduce\<close>, respectively \<open>ccl::broadcast\<close>, whose root
  argument is \<open>flat_root rootRank (size of the tensor list) rootTensor\<close>.  That value is
  \<open>rootRank * localDeviceCount + rootTensor\<close> computed in \<open>size_t\<close> and narrowed to the 32-bit
  \<open>int root\<close>: it is the product-sum reduced to the signed 32-bit range, hence the
  product-sum itself whenever that fits an \<open>int\<close>.
\<close>

theorem root_is_rank_times_devices_plus_tensor:
  "(\<exists>cs. issued (snd (reduce_stub env tensors opts pg)) = issued pg @ cs \<and>
      list_all (\<lambda>call. setup_call call \<or>
         (\<exists>n dt op. call = ccl_reduce n dt op
            (flat_root (rootRank opts) (length tensors) (rootTensor opts)))) cs) \<and>
   (\<exists>cs. issued (snd (broadcast_stub env tensors bopts pg)) = issued pg @ cs \<and>
      list_all (\<lambda>call. setup_call call \<or>
         (\<exists>n dt. call = ccl_broadcast n dt
            (flat_root (BroadcastOptions.rootRank bopts) (length tensors)
               (BroadcastOptions.rootTensor bopts)))) cs) \<and>
   flat_root r n t = signed_take_bit 31 (r * int n + t) \<and>
   (- (2 ^ 31) \<le> r * int n + t \<and> r * int n + t < 2 ^ 31 \<longrightarrow>
      flat_root r n t = r * int n + t)"
proof -
  have p1: "\<exists>cs. issued (snd (reduce_stub env tensors opts pg)) = issued pg @ cs \<and>
      list_all (\<lambda>call. setup_call call \<or>
         (\<exists>n dt op. call = ccl_reduce n dt op
            (flat_root (rootRank opts) (length tensors) (rootTensor opts)))) cs"
  proof (cases "checkGPUTensors tensors")
    case (Inl e)
    then show ?thesis by (simp add: reduce_stub_def)
  next
    case (Inr u)
    then show ?thesis
      using launch_collective_issued [OF reduce_fn_issued]
      by (simp add: reduce_stub_def)
  qed
  have p2: "\<exists>cs. issued (snd (broadcast_stub env tensors bopts pg)) = issued pg @ cs \<and>
      list_all (\<lambda>call. setup_call call \<or>
         (\<exists>n dt. call = ccl_broadcast n dt
            (flat_root (BroadcastOptions.rootRank bopts) (length tensors)
               (BroadcastOptions.rootTensor bopts)))) cs"
  proof (cases "checkGPUTensors tensors")
    case (Inl e)
    then show ?thesis by (simp add: broadcast_stub_def)
  next
    case (Inr u)
    then show ?thesis
      using launch_collective_issued [OF broadcast_fn_issued]
      by (simp add: broadcast_stub_def)
  qed
  have p3: "flat_root r n t = signed_take_bit 31 (r * int n + t)"
    by (rule flat_root_wraps)
  have p4: "- (2 ^ 31) \<le> r * int n + t \<and> r * int n + t < 2 ^ 31 \<longrightarrow>
      flat_root r n t = r * int n + t"
    using flat_root_exact by blast
  show ?thesis by (intro conjI p1 p2 p3 p4)
qed

theorem root_is_rank_times_devices_plus_tensor_witness:
  "issued (snd (reduce_stub accepting [dense [6] 0]
       \<lparr>reduceOp = ReduceOp_SUM, rootRank = 2, rootTensor = 0\<rparr> rank1of3)) =
     setup0 @ [ccl_reduce 6 0 0 2] \<and>
   issued (snd (broadcast_stub accepting [dense [6] 0]
       \<lparr>BroadcastOptions.rootRank = 2, rootTensor = 0\<rparr> rank1of3)) =
     setup0 @ [ccl_broadcast 6 0 2] \<and>
   - (2 ^ 31) \<le> (2::int) * int 1 + 0 \<and> (2::int) * int 1 + 0 < 2 ^ 31 \<and>
   flat_root 2 1 0 = 2 * int 1 + 0"
proof -
  have range: "- (2 ^ 31) \<le> (2::int) * int 1 + 0 \<and> (2::int) * int 1 + 0 < 2 ^ 31"
    by simp
  from root_is_rank_times_devices_plus_tensor
         [of accepting "[dense [6] 0]" "\<lparr>reduceOp = ReduceOp_SUM, rootRank = 2, rootTensor = 0\<rparr>"
            rank1of3 "\<lparr>BroadcastOptions.rootRank = 2, rootTensor = 0\<rparr>" 2 1 0] range
  have root: "flat_root 2 1 0 = 2 * int 1 + 0"
    by blast
  then have root': "flat_root 2 (Suc 0) 0 = 2" by simp
  have a: "issued (snd (reduce_stub accepting [dense [6] 0]
       \<lparr>reduceOp = ReduceOp_SUM, rootRank = 2, rootTensor = 0\<rparr> rank1of3)) =
     setup0 @ [ccl_reduce 6 0 0 2]"
    by (simp add: reduce_stub_def reduce_fn_def run_entry root')
  have b: "issued (snd (broadcast_stub accepting [dense [6] 0]
       \<lparr>BroadcastOptions.rootRank = 2, rootTensor = 0\<rparr> rank1of3)) =
     setup0 @ [ccl_broadcast 6 0 2]"
    by (simp add: broadcast_stub_def broadcast_fn_def run_entry root')
  from a b range root show ?thesis by (intro conjI) simp_all
qed

section \<open>The unguarded read of \<open>tensors[0]\<close>\<close>

lemma check_tensors_properties_Inl_cases:
  assumes "check_tensors_properties dc ts = Inl e"
  shows "e = runtime_error ''Tensor list must be nonempty'' \<or>
         e = runtime_error ''Tensor list mustn't be larger than the number of available GPUs'' \<or>
         e = runtime_error ''Tensors must be dense'' \<or>
         e = runtime_error ''Tensors must have identical type'' \<or>
         e = runtime_error ''Tensors must have identical size'' \<or>
         e = runtime_error ''Tensors must be contiguous'' \<or>
         e = runtime_error ''Tensors must be on the same device type'' \<or>
         e = runtime_error ''Tensors must be on distinct devices''"
proof (cases ts)
  case Nil
  with assms show ?thesis by (auto simp: check_tensors_properties_def)
next
  case (Cons first rest)
  show ?thesis
  proof (cases "length ts > size_t_of_int dc")
    case True
    with assms Cons show ?thesis
      by (auto simp: check_tensors_properties_def simp del: check_each.simps)
  next
    case False
    with assms Cons
    have "check_each first (dev_type (device first)) {} (first # rest) = Inl e"
      by (simp add: check_tensors_properties_def split: sum.splits del: check_each.simps)
    from check_each_Inl_cases [OF this] show ?thesis
      by (elim insertE) simp_all
  qed
qed

lemma check_tensors_properties_validator_error:
  "check_tensors_properties dc ts = Inl e \<Longrightarrow> e \<in> set validator_errors"
  by (drule check_tensors_properties_Inl_cases) (auto simp: validator_errors_def)

lemma setup_error_not_validator_error:
  assumes "get_ccl_comms env pg key devices = (Inl e, pg1)"
  shows "e \<notin> set validator_errors"
  using get_ccl_comms_Inl_cases [OF assms]
  by (elim disjE exE) (simp_all add: validator_errors_def)

lemma stub_error_not_validator_error:
  assumes "(case checkGPUTensors tensors of
              Inl e \<Rightarrow> (Inl e, pg)
            | Inr u \<Rightarrow> launch name (collective env pg tensors outputs fn)) = (Inl e, pg1)"
  shows "e \<notin> set validator_errors"
proof (cases "checkGPUTensors tensors")
  case (Inl e')
  with assms have e: "e = undefined_behaviour ''tensors[0] of an empty vector''"
    by (auto simp: checkGPUTensors_def checkGPUTensor_def split: list.splits)
  show ?thesis unfolding e by (simp add: validator_errors_def)
next
  case (Inr u)
  with assms have "launch name (collective env pg tensors outputs fn) = (Inl e, pg1)" by simp
  from collective_Inl [OF launch_collective_Inl [OF this]]
  show ?thesis by (rule setup_error_not_validator_error)
qed

text \<open>
  Claim C10.  \<open>allreduce_stub\<close>, \<open>reduce_stub\<close> and \<open>broadcast_stub\<close> begin with
  \<open>checkGPUTensor(tensors)\<close>, which reads \<open>tensors[0]\<close>: on an empty list each of them takes
  the undefined-behaviour branch of the model at once, before anything else is looked at
  and with the process group untouched, where the validator would have thrown
  \<open>Tensor list must be nonempty\<close>.  On a non-empty list the read is defined.  Every error
  of \<open>check_tensors_properties\<close> is one of \<open>validator_errors\<close>, and none of those ever comes
  out of these three entry points, since they never call it.
\<close>

theorem first_tensor_read_is_unguarded:
  "allreduce_stub env [] aopts pg =
     (Inl (undefined_behaviour ''tensors[0] of an empty vector''), pg) \<and>
   reduce_stub env [] ropts pg =
     (Inl (undefined_behaviour ''tensors[0] of an empty vector''), pg) \<and>
   broadcast_stub env [] bopts pg =
     (Inl (undefined_behaviour ''tensors[0] of an empty vector''), pg) \<and>
   check_tensors_properties dc [] = Inl (runtime_error ''Tensor list must be nonempty'') \<and>
   (tensors \<noteq> [] \<longrightarrow> checkGPUTensors tensors = Inr ()) \<and>
   (check_tensors_properties dc ts = Inl e' \<longrightarrow> e' \<in> set validator_errors) \<and>
   (fst (allreduce_stub env tensors aopts pg) = Inl e \<longrightarrow> e \<notin> set validator_errors) \<and>
   (fst (reduce_stub env tensors ropts pg) = Inl e \<longrightarrow> e \<notin> set validator_errors) \<and>
   (fst (broadcast_stub env tensors bopts pg) = Inl e \<longrightarrow> e \<notin> set validator_errors)"
proof -
  have p1: "allreduce_stub env [] aopts pg =
     (Inl (undefined_behaviour ''tensors[0] of an empty vector''), pg)"
    by (simp add: allreduce_stub_def checkGPUTensors_def)
  have p2: "reduce_stub env [] ropts pg =
     (Inl (undefined_behaviour ''tensors[0] of an empty vector''), pg)"
    by (simp add: reduce_stub_def checkGPUTensors_def)
  have p3: "broadcast_stub env [] bopts pg =
     (Inl (undefined_behaviour ''tensors[0] of an empty vector''), pg)"
    by (simp add: broadcast_stub_def checkGPUTensors_def)
  have p4: "check_tensors_properties dc [] = Inl (runtime_error ''Tensor list must be nonempty'')"
    by (simp add: check_tensors_properties_def)
  have p5: "tensors \<noteq> [] \<longrightarrow> checkGPUTensors tensors = Inr ()"
    by (cases tensors) (simp_all add: checkGPUTensors_def checkGPUTensor_def)
  have p5': "check_tensors_properties dc ts = Inl e' \<longrightarrow> e' \<in> set validator_errors"
    using check_tensors_properties_validator_error by blast
  have p6: "fst (allreduce_stub env tensors aopts pg) = Inl e \<longrightarrow> e \<notin> set validator_errors"
  proof
    assume "fst (allreduce_stub env tensors aopts pg) = Inl e"
    then obtain pg1 where "allreduce_stub env tensors aopts pg = (Inl e, pg1)"
      by (cases "allreduce_stub env tensors aopts pg") simp
    then show "e \<notin> set validator_errors"
      unfolding allreduce_stub_def by (rule stub_error_not_validator_error)
  qed
  have p7: "fst (reduce_stub env tensors ropts pg) = Inl e \<longrightarrow> e \<notin> set validator_errors"
  proof
    assume "fst (reduce_stub env tensors ropts pg) = Inl e"
    then obtain pg1 where "reduce_stub env tensors ropts pg = (Inl e, pg1)"
      by (cases "reduce_stub env tensors ropts pg") simp
    then show "e \<notin> set validator_errors"
      unfolding reduce_stub_def Let_def by (rule stub_error_not_validator_error)
  qed
  have p8: "fst (broadcast_stub env tensors bopts pg) = Inl e \<longrightarrow> e \<notin> set validator_errors"
  proof
    assume "fst (broadcast_stub env tensors bopts pg) = Inl e"
    then obtain pg1 where "broadcast_stub env tensors bopts pg = (Inl e, pg1)"
      by (cases "broadcast_stub env tensors bopts pg") simp
    then show "e \<notin> set validator_errors"
      unfolding broadcast_stub_def Let_def by (rule stub_error_not_validator_error)
  qed
  show ?thesis by (intro conjI p1 p2 p3 p4 p5 p5' p6 p7 p8)
qed

theorem first_tensor_read_is_unguarded_witness:
  "[dense [8] 0] \<noteq> [] \<and> checkGPUTensors [dense [8] 0] = Inr () \<and>
   check_tensors_properties 4 [] = Inl (runtime_error ''Tensor list must be nonempty'') \<and>
   runtime_error ''Tensor list must be nonempty'' \<in> set validator_errors \<and>
   allreduce_stub accepting [] \<lparr>AllreduceOptions.reduceOp = ReduceOp_SUM\<rparr> rank1of3 =
     (Inl (undefined_behaviour ''tensors[0] of an empty vector''), rank1of3) \<and>
   fst (allreduce_stub accepting [dense [8] 0, dense [8] 1]
          \<lparr>AllreduceOptions.reduceOp = ReduceOp_SUM\<rparr> rank1of3) =
     Inl (runtime_error ''Torch CCL only support one device per process now'') \<and>
   runtime_error ''Torch CCL only support one device per process now'' \<notin> set validator_errors"
proof -
  let ?a = "\<lparr>AllreduceOptions.reduceOp = ReduceOp_SUM\<rparr>"
  let ?r = "\<lparr>reduceOp = ReduceOp_SUM, rootRank = 0, rootTensor = 0\<rparr>"
  let ?b = "\<lparr>BroadcastOptions.rootRank = 0, rootTensor = 0\<rparr>"
  let ?e = "runtime_error ''Torch CCL only support one device per process now''"
  let ?n = "runtime_error ''Tensor list must be nonempty''"
  have ne: "[dense [8] 0] \<noteq> []" by simp
  have two: "fst (allreduce_stub accepting [dense [8] 0, dense [8] 1] ?a rank1of3) = Inl ?e"
    by (simp add: allreduce_stub_def run_entry)
  note thm1 = first_tensor_read_is_unguarded
         [of accepting ?a rank1of3 ?r ?b 4 "[dense [8] 0]" "[]" ?n ?e]
  note thm2 = first_tensor_read_is_unguarded
         [of accepting ?a rank1of3 ?r ?b 4 "[dense [8] 0, dense [8] 1]" "[]" ?n ?e]
  from thm1 ne have a: "checkGPUTensors [dense [8] 0] = Inr ()" by blast
  from thm1 have b: "check_tensors_properties 4 [] = Inl ?n" by blast
  from thm1 b have c: "?n \<in> set validator_errors" by blast
  from thm1 have d: "allreduce_stub accepting [] ?a rank1of3 =
     (Inl (undefined_behaviour ''tensors[0] of an empty vector''), rank1of3)" by blast
  from thm2 two have e: "?e \<notin> set validator_errors" by blast
  from ne a b c d two e show ?thesis by (intro conjI)
qed

section \<open>All-gather\<close>

text \<open>
  Claim C9.  In the dispatch function of \<open>allgather_stub\<close>, with an output tensor at the
  caller's rank: a count mismatch throws \<open>allgather: send and recv count doesn't match\<close>
  and leaves the library untouched; with equal counts the only library call is
  \<open>ccl::allgatherv\<close> with the receive counts \<open>map numel outputs\<close>, the element counts of
  the output tensors in list order.  At the entry point, once the communicator is there,
  the mismatch ends the returned work in state \<open>Failed\<close> with that error and nothing is
  issued; with equal counts and a known element type exactly that one call is issued.
\<close>

theorem allgather_recv_counts:
  "(rank < length outputs \<and> numel input \<noteq> numel (outputs ! rank) \<longrightarrow>
      allgather_fn env rank input outputs comm pg =
        (Inl (c10_Error ''allgather: send and recv count doesn't match''), pg)) \<and>
   (rank < length outputs \<and> numel input = numel (outputs ! rank) \<longrightarrow>
      allgather_fn env rank input outputs comm pg =
        (case map_at (cclDatatypes env) (scalar_type input) of
           Inl e \<Rightarrow> (Inl e, pg)
         | Inr dt \<Rightarrow> ccl env (ccl_allgatherv (numel input) (map numel outputs) dt) pg)) \<and>
   (collective env pg [input] [outputs] (allgather_fn env (getRank pg)) = (Inr w0, pg1) \<and>
    comms (w_comms w0) \<noteq> [] \<and> getRank pg < length outputs \<and>
    numel input \<noteq> numel (outputs ! getRank pg) \<longrightarrow>
      allgather_stub env [outputs] [input] pg =
        (Inr (w0\<lparr>debugName := ''xpu::allgather'',
                 w_state := Failed (c10_Error ''allgather: send and recv count doesn't match'')\<rparr>),
         pg1)) \<and>
   (collective env pg [input] [outputs] (allgather_fn env (getRank pg)) = (Inr w0, pg1) \<and>
    comms (w_comms w0) \<noteq> [] \<and> getRank pg < length outputs \<and>
    numel input = numel (outputs ! getRank pg) \<and>
    cclDatatypes env (scalar_type input) = Some dt \<longrightarrow>
      issued (snd (allgather_stub env [outputs] [input] pg)) =
        issued pg1 @ [ccl_allgatherv (numel input) (map numel outputs) dt])"
proof -
  have p1: "rank < length outputs \<and> numel input \<noteq> numel (outputs ! rank) \<longrightarrow>
      allgather_fn env rank input outputs comm pg =
        (Inl (c10_Error ''allgather: send and recv count doesn't match''), pg)"
    by (simp add: allgather_fn_def TORCH_CHECK_def)
  have p2: "rank < length outputs \<and> numel input = numel (outputs ! rank) \<longrightarrow>
      allgather_fn env rank input outputs comm pg =
        (case map_at (cclDatatypes env) (scalar_type input) of
           Inl e \<Rightarrow> (Inl e, pg)
         | Inr dt \<Rightarrow> ccl env (ccl_allgatherv (numel input) (map numel outputs) dt) pg)"
    by (simp add: allgather_fn_def TORCH_CHECK_def)
  have p3: "collective env pg [input] [outputs] (allgather_fn env (getRank pg)) = (Inr w0, pg1) \<and>
    comms (w_comms w0) \<noteq> [] \<and> getRank pg < length outputs \<and>
    numel input \<noteq> numel (outputs ! getRank pg) \<longrightarrow>
      allgather_stub env [outputs] [input] pg =
        (Inr (w0\<lparr>debugName := ''xpu::allgather'',
                 w_state := Failed (c10_Error ''allgather: send and recv count doesn't match'')\<rparr>),
         pg1)"
  proof
    assume a: "collective env pg [input] [outputs] (allgather_fn env (getRank pg)) = (Inr w0, pg1) \<and>
      comms (w_comms w0) \<noteq> [] \<and> getRank pg < length outputs \<and>
      numel input \<noteq> numel (outputs ! getRank pg)"
    then obtain c cs where c: "comms (w_comms w0) = c # cs"
      by (cases "comms (w_comms w0)") auto
    from a have col: "collective env pg [input] [outputs] (allgather_fn env (getRank pg)) =
        (Inr w0, pg1)" by simp
    from a have "allgather_fn env (getRank pg) input outputs c pg1 =
        (Inl (c10_Error ''allgather: send and recv count doesn't match''), pg1)"
      by (simp add: allgather_fn_def TORCH_CHECK_def)
    with launch_collective_single [OF col c, of "''xpu::allgather''"]
    show "allgather_stub env [outputs] [input] pg =
        (Inr (w0\<lparr>debugName := ''xpu::allgather'',
                 w_state := Failed (c10_Error ''allgather: send and recv count doesn't match'')\<rparr>),
         pg1)"
      by (simp add: allgather_stub_def)
  qed
  have p4: "collective env pg [input] [outputs] (allgather_fn env (getRank pg)) = (Inr w0, pg1) \<and>
    comms (w_comms w0) \<noteq> [] \<and> getRank pg < length outputs \<and>
    numel input = numel (outputs ! getRank pg) \<and>
    cclDatatypes env (scalar_type input) = Some dt \<longrightarrow>
      issued (snd (allgather_stub env [outputs] [input] pg)) =
        issued pg1 @ [ccl_allgatherv (numel input) (map numel outputs) dt]"
  proof
    assume a: "collective env pg [input] [outputs] (allgather_fn env (getRank pg)) = (Inr w0, pg1) \<and>
      comms (w_comms w0) \<noteq> [] \<and> getRank pg < length outputs \<and>
      numel input = numel (outputs ! getRank pg) \<and>
      cclDatatypes env (scalar_type input) = Some dt"
    then obtain c cs where c: "comms (w_comms w0) = c # cs"
      by (cases "comms (w_comms w0)") auto
    from a have col: "collective env pg [input] [outputs] (allgather_fn env (getRank pg)) =
        (Inr w0, pg1)" by simp
    let ?call = "ccl_allgatherv (numel input) (map numel outputs) dt"
    from a have fn: "allgather_fn env (getRank pg) input outputs c pg1 = ccl env ?call pg1"
      by (simp add: allgather_fn_def TORCH_CHECK_def map_at_def)
    have "issued (snd (launch ''xpu::allgather''
        (collective env pg [input] [outputs] (allgather_fn env (getRank pg))))) =
        issued pg1 @ [?call]"
      unfolding launch_collective_single [OF col c] fn
      by (rule ccl_cases [of env ?call pg1]) simp_all
    then show "issued (snd (allgather_stub env [outputs] [input] pg)) = issued pg1 @ [?call]"
      by (simp add: allgather_stub_def)
  qed
  show ?thesis by (intro conjI p1 p2 p3 p4)
qed

theorem allgather_recv_counts_witness:
  "allgather_stub accepting [[dense [6] 0, dense [5] 0, dense [6] 0]] [dense [6] 0] rank1of3 =
     (Inr \<lparr>w_inputs = [dense [6] 0], w_outputs = [[dense [6] 0, dense [5] 0, dense [6] 0]],
            w_f = allgather_fn accepting 1,
            w_comms = bundle0,
            rets = [], debugName = ''xpu::allgather'',
            w_state = Failed (c10_Error ''allgather: send and recv count doesn't match'')\<rparr>,
      rank1of3_ready) \<and>
   issued (snd (allgather_stub accepting [[dense [4] 0, dense [6] 0, dense [2] 0]]
                  [dense [6] 0] rank1of3)) =
     setup0 @ [ccl_allgatherv 6 [4, 6, 2] 0]"
proof -
  let ?b = "bundle0"
  let ?pg1 = "rank1of3_ready"
  let ?bad = "[dense [6] 0, dense [5] 0, dense [6] 0]"
  let ?good = "[dense [4] 0, dense [6] 0, dense [2] 0]"
  let ?w = "\<lambda>outs. \<lparr>w_inputs = [dense [6] 0], w_outputs = [outs],
            w_f = allgather_fn accepting 1, w_comms = ?b,
            rets = [], debugName = [], w_state = Running\<rparr>"
  have rank: "getRank rank1of3 = 1" by (simp add: rank1of3_def)
  have col: "collective accepting rank1of3 [dense [6] 0] [outs]
               (allgather_fn accepting (getRank rank1of3)) = (Inr (?w outs), ?pg1)" for outs
    by (simp add: run_entry)
  have dt: "cclDatatypes accepting (scalar_type (dense [6] 0)) = Some 0"
    by (simp add: accepting_def)
  have bad: "comms (w_comms (?w ?bad)) \<noteq> [] \<and> getRank rank1of3 < length ?bad \<and>
      numel (dense [6] 0) \<noteq> numel (?bad ! getRank rank1of3)"
    by (simp add: rank numel_def dense_def bundle0_def)
  have good: "comms (w_comms (?w ?good)) \<noteq> [] \<and> getRank rank1of3 < length ?good \<and>
      numel (dense [6] 0) = numel (?good ! getRank rank1of3)"
    by (simp add: rank numel_def dense_def bundle0_def)
  from allgather_recv_counts
         [of 1 ?bad "dense [6] 0" accepting "\<lparr>comm_size = 3, comm_rank = 1, comm_device = 0\<rparr>"
            rank1of3 "?w ?bad" ?pg1 0] col [of ?bad] bad
  have a: "allgather_stub accepting [?bad] [dense [6] 0] rank1of3 =
      (Inr ((?w ?bad)\<lparr>debugName := ''xpu::allgather'',
         w_state := Failed (c10_Error ''allgather: send and recv count doesn't match'')\<rparr>), ?pg1)"
    by blast
  from allgather_recv_counts
         [of 1 ?good "dense [6] 0" accepting "\<lparr>comm_size = 3, comm_rank = 1, comm_device = 0\<rparr>"
            rank1of3 "?w ?good" ?pg1 0] col [of ?good] good dt
  have b: "issued (snd (allgather_stub accepting [?good] [dense [6] 0] rank1of3)) =
      issued ?pg1 @ [ccl_allgatherv (numel (dense [6] 0)) (map numel ?good) 0]"
    by blast
  have i: "issued rank1of3_ready = setup0" by (simp add: rank1of3_ready_def)
  from a b i show ?thesis by (simp add: numel_def dense_def rank)
qed

section \<open>All-to-all on base buffers\<close>

lemma get_ccl_comms_comm_size:
  assumes "get_ccl_comms env pg key devices = (Inr b, pg1)"
    and "\<forall>b'. get_comms pg key = Some b' \<longrightarrow> (\<forall>c \<in> set (comms b'). comm_size c = getSize pg)"
  shows "\<forall>c \<in> set (comms b). comm_size c = getSize pg"
proof -
  from get_ccl_comms_Inr_one_device [OF assms(1)]
  have k: "key \<noteq> []" and d: "length devices = 1" by simp_all
  show ?thesis
  proof (cases "get_comms pg key")
    case (Some b')
    with assms k d show ?thesis by (simp add: get_ccl_comms_def)
  next
    case None
    from d k None show ?thesis
    proof (cases rule: get_ccl_comms_miss [of devices key pg env])
      case (threw n msg)
      with assms(1) show ?thesis by simp
    next
      case stored
      with assms(1) show ?thesis by auto
    qed
  qed
qed

lemma numel_dvd:
  assumes "sizes t = n # rest" and "n mod p = 0"
  shows "p dvd numel t"
proof -
  from assms(2) have "p dvd n" by (simp add: dvd_eq_mod_eq_0)
  then show ?thesis using assms(1) by (simp add: numel_def)
qed

lemma alltoall_fn_call:
  assumes "dispatch_types env (scalar_type input)" and "0 < comm_size comm"
    and "cclDatatypes env (scalar_type output) = Some dt"
  shows "alltoall_fn env input output comm pg =
     ccl env (ccl_alltoall (numel output div comm_size comm) dt) pg"
  using assms by (simp add: alltoall_fn_def dispatch_def map_at_def)

lemma uniform_sync_failure:
  assumes "0 < getSize pg" and "\<not> getSize pg dvd numel outputTensor"
  shows "\<exists>e. alltoall_base_stub env outputTensor inputTensor [] [] pg = (Inl e, pg)"
proof (cases "sizes outputTensor")
  case Nil
  then show ?thesis
    by (simp add: alltoall_base_stub_def size0_def TORCH_CHECK_def split: option.splits)
next
  case (Cons n rest)
  with assms(2) numel_dvd [of outputTensor n rest "getSize pg"]
  have "n mod getSize pg \<noteq> 0" by blast
  with Cons assms(1) show ?thesis
    by (simp add: alltoall_base_stub_def size0_def TORCH_CHECK_def split: option.splits)
qed

text \<open>
  Claim C2, as the code has it.  On the uniform path the divisibility test is on dimension 0
  of the output tensor, not on its element count.  With \<open>P\<close> the group size and \<open>N\<close> the
  common element count: when dimension 0 is not a multiple of \<open>P\<close> the entry point throws
  \<open>alltoall_base: tensor's dim 0 does not divide equally across group size\<close> and nothing
  reaches the library; whenever \<open>N\<close> is not a multiple of \<open>P\<close> it throws before anything
  reaches the library; and when dimension 0 is a multiple of \<open>P\<close> (so \<open>P\<close> divides \<open>N\<close>)
  and the communicator spans the group, the one call it issues is \<open>ccl::alltoall\<close> with
  the per-participant count \<open>N div P\<close>.
\<close>

theorem uniform_alltoall_divides_dim0:
  "(checkSingleTensorHelper env inputTensor = None \<and>
    checkSingleTensorHelper env outputTensor = None \<and>
    numel outputTensor = numel inputTensor \<and>
    scalar_type outputTensor = scalar_type inputTensor \<and>
    sizes outputTensor = n # rest \<and> 0 < getSize pg \<and> n mod getSize pg \<noteq> 0 \<longrightarrow>
      alltoall_base_stub env outputTensor inputTensor [] [] pg =
        (Inl (c10_Error
           ''alltoall_base: tensor's dim 0 does not divide equally across group size''), pg)) \<and>
   (0 < getSize pg \<and> \<not> getSize pg dvd numel outputTensor \<longrightarrow>
      (\<exists>e. alltoall_base_stub env outputTensor inputTensor [] [] pg = (Inl e, pg))) \<and>
   (checkSingleTensorHelper env inputTensor = None \<and>
    checkSingleTensorHelper env outputTensor = None \<and>
    numel outputTensor = numel inputTensor \<and>
    scalar_type outputTensor = scalar_type inputTensor \<and>
    sizes outputTensor = n # rest \<and> 0 < getSize pg \<and> n mod getSize pg = 0 \<and>
    collective env pg [inputTensor] [outputTensor] (alltoall_fn env) = (Inr w0, pg1) \<and>
    comms (w_comms w0) \<noteq> [] \<and>
    (\<forall>b. get_comms pg (get_key_from_devs (get_device_list [inputTensor])) = Some b \<longrightarrow>
         (\<forall>c \<in> set (comms b). comm_size c = getSize pg)) \<and>
    dispatch_types env (scalar_type inputTensor) \<and>
    cclDatatypes env (scalar_type outputTensor) = Some dt \<longrightarrow>
      getSize pg dvd numel outputTensor \<and>
      issued (snd (alltoall_base_stub env outputTensor inputTensor [] [] pg)) =
        issued pg1 @ [ccl_alltoall (numel outputTensor div getSize pg) dt])"
proof -
  have p1: "checkSingleTensorHelper env inputTensor = None \<and>
    checkSingleTensorHelper env outputTensor = None \<and>
    numel outputTensor = numel inputTensor \<and>
    scalar_type outputTensor = scalar_type inputTensor \<and>
    sizes outputTensor = n # rest \<and> 0 < getSize pg \<and> n mod getSize pg \<noteq> 0 \<longrightarrow>
      alltoall_base_stub env outputTensor inputTensor [] [] pg =
        (Inl (c10_Error
           ''alltoall_base: tensor's dim 0 does not divide equally across group size''), pg)"
    by (simp add: alltoall_base_stub_def size0_def TORCH_CHECK_def)
  have p2: "0 < getSize pg \<and> \<not> getSize pg dvd numel outputTensor \<longrightarrow>
      (\<exists>e. alltoall_base_stub env outputTensor inputTensor [] [] pg = (Inl e, pg))"
    using uniform_sync_failure by blast
  have p3: "checkSingleTensorHelper env inputTensor = None \<and>
    checkSingleTensorHelper env outputTensor = None \<and>
    numel outputTensor = numel inputTensor \<and>
    scalar_type outputTensor = scalar_type inputTensor \<and>
    sizes outputTensor = n # rest \<and> 0 < getSize pg \<and> n mod getSize pg = 0 \<and>
    collective env pg [inputTensor] [outputTensor] (alltoall_fn env) = (Inr w0, pg1) \<and>
    comms (w_comms w0) \<noteq> [] \<and>
    (\<forall>b. get_comms pg (get_key_from_devs (get_device_list [inputTensor])) = Some b \<longrightarrow>
         (\<forall>c \<in> set (comms b). comm_size c = getSize pg)) \<and>
    dispatch_types env (scalar_type inputTensor) \<and>
    cclDatatypes env (scalar_type outputTensor) = Some dt \<longrightarrow>
      getSize pg dvd numel outputTensor \<and>
      issued (snd (alltoall_base_stub env outputTensor inputTensor [] [] pg)) =
        issued pg1 @ [ccl_alltoall (numel outputTensor div getSize pg) dt]"
  proof (intro impI, elim conjE)
    assume chk: "checkSingleTensorHelper env inputTensor = None"
      "checkSingleTensorHelper env outputTensor = None"
      "numel outputTensor = numel inputTensor"
      "scalar_type outputTensor = scalar_type inputTensor"
      "sizes outputTensor = n # rest" "0 < getSize pg" "n mod getSize pg = 0"
    assume col: "collective env pg [inputTensor] [outputTensor] (alltoall_fn env) = (Inr w0, pg1)"
    assume ne: "comms (w_comms w0) \<noteq> []"
    assume spans: "\<forall>b. get_comms pg (get_key_from_devs (get_device_list [inputTensor])) = Some b \<longrightarrow>
         (\<forall>c \<in> set (comms b). comm_size c = getSize pg)"
    assume dty: "dispatch_types env (scalar_type inputTensor)"
      "cclDatatypes env (scalar_type outputTensor) = Some dt"
    from ne obtain c cs where c: "comms (w_comms w0) = c # cs"
      by (cases "comms (w_comms w0)") auto
    from collective_Inr [OF col] obtain b where
      b: "get_ccl_comms env pg (get_key_from_devs (get_device_list [inputTensor]))
            (get_device_list [inputTensor]) = (Inr b, pg1)" "w_comms w0 = b"
      by auto
    from get_ccl_comms_comm_size [OF b(1) spans] b(2) c
    have sz: "comm_size c = getSize pg" by simp
    let ?call = "ccl_alltoall (numel outputTensor div getSize pg) dt"
    from dty chk(6) sz have fn: "alltoall_fn env inputTensor outputTensor c pg1 = ccl env ?call pg1"
      by (simp add: alltoall_fn_call)
    have "issued (snd (launch ''xpu::alltoall_base''
        (collective env pg [inputTensor] [outputTensor] (alltoall_fn env)))) =
        issued pg1 @ [?call]"
      unfolding launch_collective_single [OF col c] fn
      by (rule ccl_cases [of env ?call pg1]) simp_all
    with chk have "issued (snd (alltoall_base_stub env outputTensor inputTensor [] [] pg)) =
        issued pg1 @ [?call]"
      by (simp add: alltoall_base_stub_def size0_def TORCH_CHECK_def)
    moreover from chk(5,7) have "getSize pg dvd numel outputTensor" by (rule numel_dvd)
    ultimately show "getSize pg dvd numel outputTensor \<and>
      issued (snd (alltoall_base_stub env outputTensor inputTensor [] [] pg)) =
        issued pg1 @ [?call]"
      by simp
  qed
  show ?thesis by (intro conjI p1 p2 p3)
qed

text \<open>
  Claim C2 as stated fails: a \<open>2 \<times> 3\<close> tensor has 6 elements, 3 divides 6, and yet in a
  group of three the uniform all-to-all throws instead of passing the count 2.
\<close>

theorem uniform_alltoall_counterexample:
  "numel (dense [2, 3] 0) = 6 \<and> getSize rank1of3 = 3 \<and> (3::nat) dvd 6 \<and>
   alltoall_base_stub accepting (dense [2, 3] 0) (dense [2, 3] 0) [] [] rank1of3 =
     (Inl (c10_Error
        ''alltoall_base: tensor's dim 0 does not divide equally across group size''),
      rank1of3)"
  by (simp add: alltoall_base_stub_def run_entry)

theorem uniform_alltoall_divides_dim0_witness:
  "alltoall_base_stub accepting (dense [4, 3] 0) (dense [4, 3] 0) [] [] rank1of3 =
     (Inl (c10_Error
        ''alltoall_base: tensor's dim 0 does not divide equally across group size''),
      rank1of3) \<and>
   \<not> getSize rank1of3 dvd numel (dense [4] 0) \<and>
   (\<exists>e. alltoall_base_stub accepting (dense [4] 0) (dense [4] 0) [] [] rank1of3 =
      (Inl e, rank1of3)) \<and>
   getSize rank1of3 dvd numel (dense [3, 2] 0) \<and>
   issued (snd (alltoall_base_stub accepting (dense [3, 2] 0) (dense [3, 2] 0) [] [] rank1of3)) =
     setup0 @ [ccl_alltoall 2 0]"
proof -
  let ?b = "bundle0"
  let ?pg1 = "rank1of3_ready"
  let ?w = "\<lparr>w_inputs = [dense [3, 2] 0], w_outputs = [dense [3, 2] 0],
            w_f = alltoall_fn accepting, w_comms = ?b,
            rets = [], debugName = [], w_state = Running\<rparr>"
  have h1: "checkSingleTensorHelper accepting (dense [4, 3] 0) = None \<and>
      checkSingleTensorHelper accepting (dense [4, 3] 0) = None \<and>
      numel (dense [4, 3] 0) = numel (dense [4, 3] 0) \<and>
      scalar_type (dense [4, 3] 0) = scalar_type (dense [4, 3] 0) \<and>
      sizes (dense [4, 3] 0) = 4 # [3] \<and> 0 < getSize rank1of3 \<and> 4 mod getSize rank1of3 \<noteq> 0"
    by (simp add: accepting_def dense_def rank1of3_def)
  have h2: "0 < getSize rank1of3 \<and> \<not> getSize rank1of3 dvd numel (dense [4] 0)"
    by (simp add: dense_def rank1of3_def numel_def)
  have h3: "checkSingleTensorHelper accepting (dense [3, 2] 0) = None \<and>
      checkSingleTensorHelper accepting (dense [3, 2] 0) = None \<and>
      numel (dense [3, 2] 0) = numel (dense [3, 2] 0) \<and>
      scalar_type (dense [3, 2] 0) = scalar_type (dense [3, 2] 0) \<and>
      sizes (dense [3, 2] 0) = 3 # [2] \<and> 0 < getSize rank1of3 \<and> 3 mod getSize rank1of3 = 0 \<and>
      collective accepting rank1of3 [dense [3, 2] 0] [dense [3, 2] 0] (alltoall_fn accepting) =
        (Inr ?w, ?pg1) \<and>
      comms (w_comms ?w) \<noteq> [] \<and>
      (\<forall>b. get_comms rank1of3 (get_key_from_devs (get_device_list [dense [3, 2] 0])) = Some b \<longrightarrow>
           (\<forall>c \<in> set (comms b). comm_size c = getSize rank1of3)) \<and>
      dispatch_types accepting (scalar_type (dense [3, 2] 0)) \<and>
      cclDatatypes accepting (scalar_type (dense [3, 2] 0)) = Some 0"
    by (simp add: run_entry)
  from uniform_alltoall_divides_dim0
         [of accepting "dense [4, 3] 0" "dense [4, 3] 0" 4 "[3]" rank1of3 ?w ?pg1 0] h1
  have a: "alltoall_base_stub accepting (dense [4, 3] 0) (dense [4, 3] 0) [] [] rank1of3 =
     (Inl (c10_Error
        ''alltoall_base: tensor's dim 0 does not divide equally across group size''),
      rank1of3)"
    by blast
  from uniform_alltoall_divides_dim0
         [of accepting "dense [4] 0" "dense [4] 0" 4 "[]" rank1of3 ?w ?pg1 0] h2
  have b: "\<exists>e. alltoall_base_stub accepting (dense [4] 0) (dense [4] 0) [] [] rank1of3 =
      (Inl e, rank1of3)"
    by blast
  from uniform_alltoall_divides_dim0
         [of accepting "dense [3, 2] 0" "dense [3, 2] 0" 3 "[2]" rank1of3 ?w ?pg1 0] h3
  have c: "getSize rank1of3 dvd numel (dense [3, 2] 0) \<and>
      issued (snd (alltoall_base_stub accepting (dense [3, 2] 0) (dense [3, 2] 0) [] []
                     rank1of3)) =
        issued ?pg1 @ [ccl_alltoall (numel (dense [3, 2] 0) div getSize rank1of3) 0]"
    by blast
  from c have c': "issued (snd (alltoall_base_stub accepting (dense [3, 2] 0) (dense [3, 2] 0)
      [] [] rank1of3)) = setup0 @ [ccl_alltoall 2 0]"
    by (simp add: numel_def dense_def rank1of3_def rank1of3_ready_def)
  from a h2 b c c' show ?thesis by (intro conjI) simp_all
qed

text \<open>
  Claim C3, as the code has it.  In \<open>alltoall_base_stub\<close> the checks of the uniform path
  stand before the work is created: unequal element counts or element types throw to the
  caller with the process group untouched.  The split sizes of the ragged path are checked
  inside the dispatch function, which \<open>execute\<close> runs under its \<open>catch\<close>: once the
  communicator is there, a bad split-size list on either side returns normally with a work
  in state \<open>Failed\<close> carrying the error, no collective is issued, and \<open>wait\<close> throws the
  error at once.
\<close>

theorem split_size_errors_are_deferred:
  "(checkSingleTensorHelper env inputTensor = None \<and>
    checkSingleTensorHelper env outputTensor = None \<and>
    (numel outputTensor \<noteq> numel inputTensor \<or>
     scalar_type outputTensor \<noteq> scalar_type inputTensor) \<longrightarrow>
      alltoall_base_stub env outputTensor inputTensor [] [] pg =
        (Inl (c10_Error ''alltoall_base: tensors are not equal in size or data type''), pg)) \<and>
   (checkSingleTensorHelper env inputTensor = None \<and>
    checkSingleTensorHelper env outputTensor = None \<and>
    (outputSplitSizes \<noteq> [] \<or> inputSplitSizes \<noteq> []) \<and>
    collective env pg [inputTensor] [outputTensor]
      (alltoallv_fn env outputSplitSizes inputSplitSizes (getSize pg)) = (Inr w0, pg1) \<and>
    comms (w_comms w0) \<noteq> [] \<and>
    dispatch_types env (scalar_type inputTensor) \<and>
    (checkSplitSizes inputSplitSizes inputTensor (getSize pg) = Inl e \<or>
     checkSplitSizes inputSplitSizes inputTensor (getSize pg) = Inr () \<and>
     checkSplitSizes outputSplitSizes outputTensor (getSize pg) = Inl e) \<longrightarrow>
      alltoall_base_stub env outputTensor inputTensor outputSplitSizes inputSplitSizes pg =
        (Inr (w0\<lparr>debugName := ''xpu::alltoall_base'', w_state := Failed e\<rparr>), pg1) \<and>
      wait completes_in timeout (w0\<lparr>debugName := ''xpu::alltoall_base'', w_state := Failed e\<rparr>) =
        (Inl e, 0))"
proof -
  have p1: "checkSingleTensorHelper env inputTensor = None \<and>
    checkSingleTensorHelper env outputTensor = None \<and>
    (numel outputTensor \<noteq> numel inputTensor \<or>
     scalar_type outputTensor \<noteq> scalar_type inputTensor) \<longrightarrow>
      alltoall_base_stub env outputTensor inputTensor [] [] pg =
        (Inl (c10_Error ''alltoall_base: tensors are not equal in size or data type''), pg)"
    by (auto simp: alltoall_base_stub_def TORCH_CHECK_def)
  have p2: "checkSingleTensorHelper env inputTensor = None \<and>
    checkSingleTensorHelper env outputTensor = None \<and>
    (outputSplitSizes \<noteq> [] \<or> inputSplitSizes \<noteq> []) \<and>
    collective env pg [inputTensor] [outputTensor]
      (alltoallv_fn env outputSplitSizes inputSplitSizes (getSize pg)) = (Inr w0, pg1) \<and>
    comms (w_comms w0) \<noteq> [] \<and>
    dispatch_types env (scalar_type inputTensor) \<and>
    (checkSplitSizes inputSplitSizes inputTensor (getSize pg) = Inl e \<or>
     checkSplitSizes inputSplitSizes inputTensor (getSize pg) = Inr () \<and>
     checkSplitSizes outputSplitSizes outputTensor (getSize pg) = Inl e) \<longrightarrow>
      alltoall_base_stub env outputTensor inputTensor outputSplitSizes inputSplitSizes pg =
        (Inr (w0\<lparr>debugName := ''xpu::alltoall_base'', w_state := Failed e\<rparr>), pg1) \<and>
      wait completes_in timeout (w0\<lparr>debugName := ''xpu::alltoall_base'', w_state := Failed e\<rparr>) =
        (Inl e, 0)"
  proof (intro impI, elim conjE)
    let ?fn = "alltoallv_fn env outputSplitSizes inputSplitSizes (getSize pg)"
    let ?w = "w0\<lparr>debugName := ''xpu::alltoall_base'', w_state := Failed e\<rparr>"
    assume chk: "checkSingleTensorHelper env inputTensor = None"
      "checkSingleTensorHelper env outputTensor = None"
    assume ragged: "outputSplitSizes \<noteq> [] \<or> inputSplitSizes \<noteq> []"
    assume col: "collective env pg [inputTensor] [outputTensor] ?fn = (Inr w0, pg1)"
    assume ne: "comms (w_comms w0) \<noteq> []"
    assume dty: "dispatch_types env (scalar_type inputTensor)"
    assume bad: "checkSplitSizes inputSplitSizes inputTensor (getSize pg) = Inl e \<or>
       checkSplitSizes inputSplitSizes inputTensor (getSize pg) = Inr () \<and>
       checkSplitSizes outputSplitSizes outputTensor (getSize pg) = Inl e"
    from ne obtain c cs where c: "comms (w_comms w0) = c # cs"
      by (cases "comms (w_comms w0)") auto
    from bad dty have fn: "?fn inputTensor outputTensor c pg1 = (Inl e, pg1)"
      by (auto simp: alltoallv_fn_def dispatch_def)
    from ragged chk have "alltoall_base_stub env outputTensor inputTensor outputSplitSizes
        inputSplitSizes pg =
        launch ''xpu::alltoall_base'' (collective env pg [inputTensor] [outputTensor] ?fn)"
      by (auto simp: alltoall_base_stub_def)
    also have "\<dots> = (Inr ?w, pg1)"
      unfolding launch_collective_single [OF col c] fn by simp
    finally have res: "alltoall_base_stub env outputTensor inputTensor outputSplitSizes
        inputSplitSizes pg = (Inr ?w, pg1)" .
    from collective_Inr [OF col] have "rets w0 = []" by auto
    then have "wait completes_in timeout ?w = (Inl e, 0)"
      by (simp add: wait_def synchronizeInternal_def checkAndThrowException_def)
    with res show "alltoall_base_stub env outputTensor inputTensor outputSplitSizes
        inputSplitSizes pg = (Inr ?w, pg1) \<and> wait completes_in timeout ?w = (Inl e, 0)"
      by simp
  qed
  show ?thesis by (intro conjI p1 p2)
qed

text \<open>
  Claim C3 as stated fails: split sizes \<open>[1, 2, 3]\<close> sum to 6, the input has 7 rows, and the
  entry point returns a work instead of throwing; the error sits in the work.
\<close>

theorem split_size_error_counterexample:
  "checkSplitSizes [1, 2, 3] (dense [7] 0) 3 =
     Inl (c10_Error ''Split sizes doesn't match total dim 0 size'') \<and>
   alltoall_base_stub accepting (dense [6] 0) (dense [7] 0) [1, 2, 3] [1, 2, 3] rank1of3 =
     (Inr \<lparr>w_inputs = [dense [7] 0], w_outputs = [dense [6] 0],
            w_f = alltoallv_fn accepting [1, 2, 3] [1, 2, 3] 3,
            w_comms = bundle0,
            rets = [], debugName = ''xpu::alltoall_base'',
            w_state = Failed (c10_Error ''Split sizes doesn't match total dim 0 size'')\<rparr>,
      rank1of3_ready)"
  by (simp add: alltoall_base_stub_def alltoallv_fn_def checkSplitSizes_def dispatch_def
        run_entry)

theorem split_size_errors_are_deferred_witness:
  "alltoall_base_stub accepting (dense [6] 0) (dense [7] 0) [] [] rank1of3 =
     (Inl (c10_Error ''alltoall_base: tensors are not equal in size or data type''), rank1of3) \<and>
   fst (alltoall_base_stub accepting (dense [6] 0) (dense [7] 0) [1, 2, 3] [1, 2, 3] rank1of3) =
     Inr \<lparr>w_inputs = [dense [7] 0], w_outputs = [dense [6] 0],
            w_f = alltoallv_fn accepting [1, 2, 3] [1, 2, 3] 3,
            w_comms = bundle0,
            rets = [], debugName = ''xpu::alltoall_base'',
            w_state = Failed (c10_Error ''Split sizes doesn't match total dim 0 size'')\<rparr> \<and>
   wait (\<lambda>ev. Some 5) 1000
     \<lparr>w_inputs = [dense [7] 0], w_outputs = [dense [6] 0],
      w_f = alltoallv_fn accepting [1, 2, 3] [1, 2, 3] 3,
      w_comms = bundle0,
      rets = [], debugName = ''xpu::alltoall_base'',
      w_state = Failed (c10_Error ''Split sizes doesn't match total dim 0 size'')\<rparr> =
     (Inl (c10_Error ''Split sizes doesn't match total dim 0 size''), 0)"
proof -
  let ?b = "bundle0"
  let ?pg1 = "rank1of3_ready"
  let ?w = "\<lparr>w_inputs = [dense [7] 0], w_outputs = [dense [6] 0],
            w_f = alltoallv_fn accepting [1, 2, 3] [1, 2, 3] 3, w_comms = ?b,
            rets = [], debugName = [], w_state = Running\<rparr>"
  let ?e = "c10_Error ''Split sizes doesn't match total dim 0 size''"
  have h1: "checkSingleTensorHelper accepting (dense [7] 0) = None \<and>
      checkSingleTensorHelper accepting (dense [6] 0) = None \<and>
      (numel (dense [6] 0) \<noteq> numel (dense [7] 0) \<or>
       scalar_type (dense [6] 0) \<noteq> scalar_type (dense [7] 0))"
    by (simp add: accepting_def dense_def numel_def)
  have h2: "checkSingleTensorHelper accepting (dense [7] 0) = None \<and>
      checkSingleTensorHelper accepting (dense [6] 0) = None \<and>
      ([1, 2, 3] \<noteq> ([] :: int list) \<or> [1, 2, 3] \<noteq> ([] :: int list)) \<and>
      collective accepting rank1of3 [dense [7] 0] [dense [6] 0]
        (alltoallv_fn accepting [1, 2, 3] [1, 2, 3] (getSize rank1of3)) = (Inr ?w, ?pg1) \<and>
      comms (w_comms ?w) \<noteq> [] \<and>
      dispatch_types accepting (scalar_type (dense [7] 0)) \<and>
      (checkSplitSizes [1, 2, 3] (dense [7] 0) (getSize rank1of3) = Inl ?e \<or>
       checkSplitSizes [1, 2, 3] (dense [7] 0) (getSize rank1of3) = Inr () \<and>
       checkSplitSizes [1, 2, 3] (dense [6] 0) (getSize rank1of3) = Inl ?e)"
    by (simp add: run_entry checkSplitSizes_def)
  from split_size_errors_are_deferred
         [of accepting "dense [7] 0" "dense [6] 0" rank1of3 "[1, 2, 3]" "[1, 2, 3]" ?w ?pg1 ?e
            "\<lambda>ev. Some 5" 1000] h1
  have a: "alltoall_base_stub accepting (dense [6] 0) (dense [7] 0) [] [] rank1of3 =
     (Inl (c10_Error ''alltoall_base: tensors are not equal in size or data type''), rank1of3)"
    by blast
  from split_size_errors_are_deferred
         [of accepting "dense [7] 0" "dense [6] 0" rank1of3 "[1, 2, 3]" "[1, 2, 3]" ?w ?pg1 ?e
            "\<lambda>ev. Some 5" 1000] h2
  have b: "alltoall_base_stub accepting (dense [6] 0) (dense [7] 0) [1, 2, 3] [1, 2, 3] rank1of3 =
        (Inr (?w\<lparr>debugName := ''xpu::alltoall_base'', w_state := Failed ?e\<rparr>), ?pg1) \<and>
      wait (\<lambda>ev. Some 5) 1000 (?w\<lparr>debugName := ''xpu::alltoall_base'', w_state := Failed ?e\<rparr>) =
        (Inl ?e, 0)"
    by blast
  from a b show ?thesis by simp
qed

section \<open>Windows on the store\<close>

lemma length_contents: "in_bounds st t \<Longrightarrow> length (contents st t) = nelems t"
  by (auto simp: in_bounds_def contents_def)

lemma length_overwrite: "length (overwrite st t xs) = length st"
  by (simp add: overwrite_def)

lemma nth_overwrite_length:
  assumes "in_bounds st t" and "length xs = nelems t"
  shows "length (overwrite st t xs ! k) = length (st ! k)"
proof (cases "k = storage t")
  case True
  with assms show ?thesis by (auto simp: overwrite_def in_bounds_def)
next
  case False
  then show ?thesis by (simp add: overwrite_def)
qed

lemma in_bounds_overwrite:
  assumes "in_bounds st t" and "length xs = nelems t"
  shows "in_bounds (overwrite st t xs) u \<longleftrightarrow> in_bounds st u"
  by (simp add: in_bounds_def length_overwrite nth_overwrite_length [OF assms])

lemma contents_overwrite_same:
  assumes "in_bounds st t" and "length xs = nelems t"
  shows "contents (overwrite st t xs) t = xs"
  using assms by (auto simp: contents_def overwrite_def in_bounds_def)

lemma contents_overwrite_other:
  assumes "in_bounds st t" and "length xs = nelems t" and "in_bounds st u"
    and "\<not> overlap t u"
  shows "contents (overwrite st t xs) u = contents st u"
proof (cases "storage u = storage t")
  case False
  then show ?thesis by (simp add: contents_def overwrite_def)
next
  case True
  let ?old = "st ! storage t"
  let ?o = "storage_offset t" and ?p = "storage_offset u"
  from assms(1) have b: "storage t < length st" "?o + nelems t \<le> length ?old"
    by (simp_all add: in_bounds_def)
  from assms(3) True have bu: "?p + nelems u \<le> length ?old" by (simp add: in_bounds_def)
  from assms(4) True consider "?p + nelems u \<le> ?o" | "?o + nelems t \<le> ?p"
    by (auto simp: overlap_def)
  then show ?thesis
  proof cases
    case 1
    have "take (nelems u) (drop ?p (take ?o ?old @ xs @ drop (?o + length xs) ?old)) =
          take (nelems u) (drop ?p (take ?o ?old))"
      using 1 b by simp
    also have "\<dots> = take (nelems u) (drop ?p ?old)"
      using 1 by (simp add: drop_take min_def)
    finally show ?thesis using True b by (simp add: contents_def overwrite_def)
  next
    case 2
    have "drop ?p (take ?o ?old @ xs @ drop (?o + length xs) ?old) = drop ?p ?old"
      using 2 b assms(2) by simp
    then show ?thesis using True b by (simp add: contents_def overwrite_def)
  qed
qed

lemma overlap_sym: "overlap t u \<longleftrightarrow> overlap u t"
  by (auto simp: overlap_def)

lemma in_bounds_append:
  "in_bounds st t \<Longrightarrow> in_bounds (st @ [xs]) t"
  by (simp add: in_bounds_def nth_append)

lemma contents_append:
  "in_bounds st t \<Longrightarrow> contents (st @ [xs]) t = contents st t"
  by (simp add: in_bounds_def contents_def nth_append)

section \<open>Consecutive windows\<close>

lemma length_splits_from [simp]: "length (splits_from t off ns) = length ns"
  by (induction ns arbitrary: off) simp_all

lemma map_nelems_splits_from [simp]: "map nelems (splits_from t off ns) = ns"
  by (induction ns arbitrary: off) simp_all

lemma nth_splits_from:
  "i < length ns \<Longrightarrow>
     splits_from t off ns ! i =
       t\<lparr>storage_offset := off + sum_list (take i ns), nelems := ns ! i\<rparr>"
proof (induction ns arbitrary: off i)
  case Nil
  then show ?case by simp
next
  case (Cons n ns)
  show ?case
  proof (cases i)
    case 0
    then show ?thesis by simp
  next
    case (Suc j)
    with Cons.prems have "j < length ns" by simp
    from Cons.IH [OF this, of "off + n"] Suc show ?thesis by (simp add: add.assoc)
  qed
qed

lemma sum_list_take_Suc:
  "i < length ns \<Longrightarrow> sum_list (take (Suc i) ns) = sum_list (take i ns) + (ns ! i :: nat)"
  by (simp add: take_Suc_conv_app_nth)

lemma sum_list_take_mono:
  "i \<le> j \<Longrightarrow> sum_list (take i ns) \<le> (sum_list (take j ns) :: nat)"
proof -
  assume "i \<le> j"
  then have "take j ns = take i ns @ take (j - i) (drop i ns)"
    by (metis le_add_diff_inverse take_add)
  then show ?thesis by simp
qed

lemma sum_list_take_le: "sum_list (take i ns) \<le> (sum_list ns :: nat)"
proof -
  have "sum_list (take i ns @ drop i ns) = sum_list (take i ns) + sum_list (drop i ns)"
    by (rule sum_list_append)
  then show ?thesis by simp
qed

lemma chunk_end:
  "i < length ns \<Longrightarrow> sum_list (take i ns) + ns ! i \<le> (sum_list ns :: nat)"
  using sum_list_take_le [of "Suc i" ns] by (simp add: sum_list_take_Suc)

lemma splits_from_no_overlap:
  assumes "i < j" and "j < length ns"
  shows "\<not> overlap (splits_from t off ns ! i) (splits_from t off ns ! j)"
proof -
  from assms have i: "i < length ns" by simp
  from assms(1) have "sum_list (take (Suc i) ns) \<le> sum_list (take j ns)"
    by (intro sum_list_take_mono) simp
  with i have "sum_list (take i ns) + ns ! i \<le> sum_list (take j ns)"
    by (simp add: sum_list_take_Suc)
  then show ?thesis
    using i assms(2) by (simp add: nth_splits_from overlap_def)
qed

lemma splits_from_in_bounds:
  assumes "storage t < length st" and "off + sum_list ns \<le> length (st ! storage t)"
    and "i < length ns"
  shows "in_bounds st (splits_from t off ns ! i)"
  using assms chunk_end [OF assms(3)] by (simp add: nth_splits_from in_bounds_def)

lemma span_in_bounds:
  assumes "\<forall>i < length ns. in_bounds st (splits_from t off ns ! i)" and "ns \<noteq> []"
  shows "in_bounds st (t\<lparr>storage_offset := off, nelems := sum_list ns\<rparr>)"
proof -
  let ?i = "length ns - 1"
  from assms(2) have i: "?i < length ns" by simp
  with assms(1) have "in_bounds st (splits_from t off ns ! ?i)" by blast
  then have b: "storage t < length st"
      "off + sum_list (take ?i ns) + ns ! ?i \<le> length (st ! storage t)"
    using i by (simp_all add: nth_splits_from in_bounds_def)
  from i have "sum_list (take (Suc ?i) ns) = sum_list (take ?i ns) + ns ! ?i"
    by (rule sum_list_take_Suc)
  moreover from assms(2) have "take (Suc ?i) ns = ns" by simp
  ultimately have "sum_list ns = sum_list (take ?i ns) + ns ! ?i" by simp
  with b show ?thesis by (simp add: in_bounds_def)
qed

lemma contents_split:
  assumes "i < length ns"
  shows "contents st (splits_from t off ns ! i) =
         chunk ns i (contents st (t\<lparr>storage_offset := off, nelems := sum_list ns\<rparr>))"
proof -
  let ?a = "sum_list (take i ns)"
  from chunk_end [OF assms] have le: "ns ! i \<le> sum_list ns - ?a" by simp
  have "take (ns ! i) (drop ?a (take (sum_list ns) (drop off (st ! storage t)))) =
        take (ns ! i) (take (sum_list ns - ?a) (drop ?a (drop off (st ! storage t))))"
    by (simp add: drop_take)
  also have "\<dots> = take (ns ! i) (drop (off + ?a) (st ! storage t))"
    using le by (simp add: min_def add.commute)
  finally show ?thesis
    using assms by (simp add: nth_splits_from contents_def chunk_def)
qed

lemma concat_contents_splits:
  "concat (map (contents st) (splits_from t off ns)) =
     contents st (t\<lparr>storage_offset := off, nelems := sum_list ns\<rparr>)"
proof (induction ns arbitrary: off)
  case Nil
  show ?case by (simp add: contents_def)
next
  case (Cons n ns)
  have "take (n + sum_list ns) (drop off (st ! storage t)) =
        take n (drop off (st ! storage t)) @
        take (sum_list ns) (drop (off + n) (st ! storage t))"
    by (simp add: take_add add.commute)
  with Cons.IH [of "off + n"] show ?case by (simp add: contents_def)
qed

section \<open>The copy loops\<close>

lemma splits_from_kind:
  "i < length ns \<Longrightarrow>
     contiguous (splits_from t off ns ! i) = contiguous t \<and>
     dtype (splits_from t off ns ! i) = dtype t \<and>
     storage (splits_from t off ns ! i) = storage t"
  by (simp add: nth_splits_from)

text \<open>
  The invariant of the flatten loop: for contiguous sources of the destinations' element
  type and size, destinations that overlap neither one another nor a source, every
  iteration copies, and at the end destination \<open>j\<close> holds what source \<open>j\<close> held, with
  everything away from the destinations untouched.
\<close>

lemma copy_in_correct:
  assumes "i + k \<le> length dsts" and "i + k \<le> length srcs"
    and "\<forall>j. i \<le> j \<and> j < i + k \<longrightarrow>
           in_bounds st (dsts ! j) \<and> in_bounds st (srcs ! j) \<and>
           nelems (srcs ! j) = nelems (dsts ! j) \<and> contiguous (srcs ! j) \<and>
           dtype (srcs ! j) = dtype (dsts ! j)"
    and "\<forall>j l. i \<le> j \<and> j < l \<and> l < i + k \<longrightarrow> \<not> overlap (dsts ! j) (dsts ! l)"
    and "\<forall>j l. i \<le> j \<and> j < i + k \<and> i \<le> l \<and> l < i + k \<longrightarrow> \<not> overlap (dsts ! j) (srcs ! l)"
  shows "\<exists>st'. copy_in convert k i dsts srcs st = Inr st' \<and>
           (\<forall>u. in_bounds st' u \<longleftrightarrow> in_bounds st u) \<and>
           (\<forall>j. i \<le> j \<and> j < i + k \<longrightarrow> contents st' (dsts ! j) = contents st (srcs ! j)) \<and>
           (\<forall>u. in_bounds st u \<and> (\<forall>j. i \<le> j \<and> j < i + k \<longrightarrow> \<not> overlap (dsts ! j) u) \<longrightarrow>
                contents st' u = contents st u)"
  using assms
proof (induction k arbitrary: i st)
  case 0
  show ?case by auto
next
  case (Suc k)
  let ?d = "dsts ! i" and ?s = "srcs ! i"
  let ?st1 = "overwrite st ?d (contents st ?s)"
  from Suc.prems(3) have bd: "in_bounds st ?d" and bs: "in_bounds st ?s"
    and ne: "nelems ?s = nelems ?d" and cs: "contiguous ?s" and ty: "dtype ?s = dtype ?d"
    by simp_all
  from bs ne have len: "length (contents st ?s) = nelems ?d" by (simp add: length_contents)
  have ib: "in_bounds ?st1 u \<longleftrightarrow> in_bounds st u" for u
    by (rule in_bounds_overwrite [OF bd len])
  from Suc.prems(1,2) have idx: "i < length dsts" "i < length srcs" by simp_all
  with bd bs ne cs ty
  have step: "copy_in convert (Suc k) i dsts srcs st = copy_in convert k (Suc i) dsts srcs ?st1"
    by (simp add: copy_tensor_def view_flat_def)
  have a1: "Suc i + k \<le> length dsts" and a2: "Suc i + k \<le> length srcs"
    using Suc.prems(1,2) by simp_all
  have a3: "\<forall>j. Suc i \<le> j \<and> j < Suc i + k \<longrightarrow>
           in_bounds ?st1 (dsts ! j) \<and> in_bounds ?st1 (srcs ! j) \<and>
           nelems (srcs ! j) = nelems (dsts ! j) \<and> contiguous (srcs ! j) \<and>
           dtype (srcs ! j) = dtype (dsts ! j)"
    using Suc.prems(3) by (simp add: ib)
  have a4: "\<forall>j l. Suc i \<le> j \<and> j < l \<and> l < Suc i + k \<longrightarrow> \<not> overlap (dsts ! j) (dsts ! l)"
    using Suc.prems(4) by simp
  have a5: "\<forall>j l. Suc i \<le> j \<and> j < Suc i + k \<and> Suc i \<le> l \<and> l < Suc i + k \<longrightarrow>
           \<not> overlap (dsts ! j) (srcs ! l)"
    using Suc.prems(5) by simp
  from Suc.IH [OF a1 a2 a3 a4 a5] obtain st' where
    r: "copy_in convert k (Suc i) dsts srcs ?st1 = Inr st'"
    and ib': "\<forall>u. in_bounds st' u \<longleftrightarrow> in_bounds ?st1 u"
    and got: "\<forall>j. Suc i \<le> j \<and> j < Suc i + k \<longrightarrow> contents st' (dsts ! j) = contents ?st1 (srcs ! j)"
    and frame: "\<forall>u. in_bounds ?st1 u \<and> (\<forall>j. Suc i \<le> j \<and> j < Suc i + k \<longrightarrow> \<not> overlap (dsts ! j) u) \<longrightarrow>
                contents st' u = contents ?st1 u"
    by blast
  have c1: "\<forall>u. in_bounds st' u \<longleftrightarrow> in_bounds st u"
    using ib' ib by simp
  have c2: "contents st' (dsts ! j) = contents st (srcs ! j)" if j: "i \<le> j" "j < i + Suc k" for j
  proof (cases "j = i")
    case True
    have "\<forall>l. Suc i \<le> l \<and> l < Suc i + k \<longrightarrow> \<not> overlap (dsts ! l) ?d"
      using Suc.prems(4) by (auto simp: overlap_sym [of _ ?d])
    with frame bd ib have "contents st' ?d = contents ?st1 ?d" by blast
    also have "\<dots> = contents st ?s" by (rule contents_overwrite_same [OF bd len])
    finally show ?thesis using True by simp
  next
    case False
    with j have j': "Suc i \<le> j" "j < Suc i + k" by simp_all
    with got have "contents st' (dsts ! j) = contents ?st1 (srcs ! j)" by blast
    also have "\<dots> = contents st (srcs ! j)"
    proof (rule contents_overwrite_other [OF bd len])
      from Suc.prems(3) j show "in_bounds st (srcs ! j)" by simp
      from Suc.prems(5) j show "\<not> overlap ?d (srcs ! j)" by simp
    qed
    finally show ?thesis .
  qed
  have c3: "contents st' u = contents st u"
    if u: "in_bounds st u" "\<forall>j. i \<le> j \<and> j < i + Suc k \<longrightarrow> \<not> overlap (dsts ! j) u" for u
  proof -
    from u(2) have "\<forall>j. Suc i \<le> j \<and> j < Suc i + k \<longrightarrow> \<not> overlap (dsts ! j) u" by simp
    with frame u(1) ib have "contents st' u = contents ?st1 u" by blast
    also have "\<dots> = contents st u"
    proof (rule contents_overwrite_other [OF bd len u(1)])
      from u(2) show "\<not> overlap ?d u" by simp
    qed
    finally show ?thesis .
  qed
  from step r c1 c2 c3 show ?case by auto
qed

text \<open>
  The split loop takes the view of the destination instead; on contiguous tensors the two
  loops agree.
\<close>

lemma copy_out_copy_in:
  assumes "i + k \<le> length dsts" and "i + k \<le> length srcs"
    and "\<forall>j. i \<le> j \<and> j < i + k \<longrightarrow> contiguous (dsts ! j) \<and> contiguous (srcs ! j)"
  shows "copy_out convert k i dsts srcs st = copy_in convert k i dsts srcs st"
  using assms
proof (induction k arbitrary: i st)
  case 0
  show ?case by simp
next
  case (Suc k)
  from Suc.prems(3) have c: "contiguous (dsts ! i)" "contiguous (srcs ! i)" by simp_all
  from Suc.prems(1,2) have idx: "i < length dsts" "i < length srcs" by simp_all
  have a1: "Suc i + k \<le> length dsts" and a2: "Suc i + k \<le> length srcs"
    using Suc.prems(1,2) by simp_all
  have a3: "\<forall>j. Suc i \<le> j \<and> j < Suc i + k \<longrightarrow> contiguous (dsts ! j) \<and> contiguous (srcs ! j)"
    using Suc.prems(3) by simp
  note IH = Suc.IH [OF a1 a2 a3]
  show ?case
  proof (cases "copy_tensor convert (dsts ! i) (srcs ! i) st")
    case (Inl e)
    with c idx show ?thesis by (simp add: view_flat_def)
  next
    case (Inr st1)
    with c idx IH [of st1] show ?thesis by (simp add: view_flat_def)
  qed
qed

section \<open>Flatten, exchange, split back\<close>

lemma chunk_concat: "i < length xss \<Longrightarrow> chunk (map length xss) i (concat xss) = xss ! i"
proof (induction xss arbitrary: i)
  case Nil
  then show ?case by simp
next
  case (Cons xs xss)
  show ?case
  proof (cases i)
    case 0
    then show ?thesis by (simp add: chunk_def)
  next
    case (Suc j)
    with Cons.prems have "j < length xss" by simp
    from Cons.IH [OF this] Suc show ?thesis by (simp add: chunk_def)
  qed
qed

lemma is_flat_splits:
  assumes "is_flat ts" and "ts \<noteq> []"
  shows "ts = splits_from (hd ts) (storage_offset (hd ts)) (map nelems ts)"
  using assms by (cases ts) (simp_all add: is_flat_def)

lemma is_flat_contiguous:
  assumes "is_flat ts" and "ts \<noteq> []"
  shows "contiguous (hd ts)"
  using assms by (cases ts) (simp_all add: is_flat_def)

lemma span_eq: "t\<lparr>storage_offset := storage_offset t, nelems := n\<rparr> = t\<lparr>nelems := n\<rparr>"
  by simp

lemma computeLengths_unfold:
  assumes "ts \<noteq> []"
  shows "computeLengthsAndCheckAndGetFlat uninit ts (length ts) st =
     (if is_flat ts
      then Inr ((True, map nelems ts, (hd ts)\<lparr>nelems := sum_list (map nelems ts)\<rparr>,
                 sum_list (map nelems ts)), st)
      else Inr ((False, map nelems ts,
                 \<lparr>storage = length st, storage_offset = 0, nelems = sum_list (map nelems ts),
                  dtype = dtype (hd ts), contiguous = True\<rparr>,
                 sum_list (map nelems ts)), st @ [replicate (sum_list (map nelems ts)) uninit]))"
proof -
  from assms obtain first rest where ts: "ts = first # rest" by (cases ts) auto
  have "take (length ts) ts = ts" by simp
  then show ?thesis
    unfolding computeLengthsAndCheckAndGetFlat_def at_empty_def Let_def
    by (simp add: ts)
qed

text \<open>
  What the helper returns for a list with one in-bounds tensor per participant: the lengths
  are the element counts, the flat buffer is contiguous, has the element type of the first
  tensor and the sum of the lengths as its element count, and fits its storage; every
  tensor that was there before is untouched.  A flat list gives its own span back and
  leaves the store as it is; any other list gets a new storage.
\<close>

lemma computeLengths_result:
  assumes "length ts = g" and "0 < g" and "\<forall>t \<in> set ts. in_bounds st t"
  shows "\<exists>buf st1.
           computeLengthsAndCheckAndGetFlat uninit ts g st =
             Inr ((is_flat ts, map nelems ts, buf, sum_list (map nelems ts)), st1) \<and>
           nelems buf = sum_list (map nelems ts) \<and> in_bounds st1 buf \<and>
           contiguous buf \<and> dtype buf = dtype (hd ts) \<and>
           (\<forall>u. in_bounds st u \<longrightarrow> in_bounds st1 u \<and> contents st1 u = contents st u) \<and>
           (if is_flat ts
            then st1 = st \<and> buf = (hd ts)\<lparr>nelems := sum_list (map nelems ts)\<rparr>
            else st1 = st @ [replicate (sum_list (map nelems ts)) uninit] \<and>
                 storage buf = length st \<and> storage_offset buf = 0)"
proof -
  let ?ns = "map nelems ts"
  from assms(1,2) obtain first rest where ts: "ts = first # rest" by (cases ts) auto
  from ts have ne: "ts \<noteq> []" by simp
  from assms(1) have g: "g = length ts" by simp
  show ?thesis
  proof (cases "is_flat ts")
    case True
    let ?buf = "(hd ts)\<lparr>nelems := sum_list ?ns\<rparr>"
    from True ts have eq: "ts = splits_from (hd ts) (storage_offset (hd ts)) ?ns"
      by (intro is_flat_splits) simp_all
    have "\<forall>i < length ?ns.
        in_bounds st (splits_from (hd ts) (storage_offset (hd ts)) ?ns ! i)"
      using assms(3) eq by (metis length_map nth_mem)
    moreover from ts have "?ns \<noteq> []" by simp
    ultimately have "in_bounds st ((hd ts)\<lparr>storage_offset := storage_offset (hd ts),
        nelems := sum_list ?ns\<rparr>)"
      by (rule span_in_bounds)
    then have "in_bounds st ?buf" by (simp only: span_eq)
    moreover have "computeLengthsAndCheckAndGetFlat uninit ts g st =
        Inr ((True, ?ns, ?buf, sum_list ?ns), st)"
      unfolding g computeLengths_unfold [OF ne] using True by simp
    moreover from True ne have "contiguous ?buf" by (simp add: is_flat_contiguous)
    ultimately show ?thesis using True by simp
  next
    case False
    let ?buf = "\<lparr>storage = length st, storage_offset = 0, nelems = sum_list ?ns,
                  dtype = dtype (hd ts), contiguous = True\<rparr>"
    let ?st1 = "st @ [replicate (sum_list ?ns) uninit]"
    have "computeLengthsAndCheckAndGetFlat uninit ts g st =
        Inr ((False, ?ns, ?buf, sum_list ?ns), ?st1)"
      unfolding g computeLengths_unfold [OF ne] using False by simp
    moreover have "in_bounds ?st1 ?buf" by (simp add: in_bounds_def)
    ultimately show ?thesis
      using False by (simp add: in_bounds_append contents_append)
  qed
qed

lemma tensor_self:
  "storage_offset t = off \<Longrightarrow> nelems t = n \<Longrightarrow> t\<lparr>storage_offset := off, nelems := n\<rparr> = t"
  by simp

text \<open>
  The flatten step.  Either the list is flat and nothing is copied, or the flat buffer is
  a storage of its own and the loop fills it, piece by piece, from the inputs.  In both
  cases the flat buffer then holds the inputs' contents one after the other.
\<close>

lemma flatten_inputs_result:
  assumes len: "length inputs = g" and g: "0 < g"
    and ib: "\<forall>t \<in> set inputs. in_bounds st2 t"
    and kind: "\<forall>t \<in> set inputs. contiguous t \<and> dtype t = dtype F"
    and buf: "in_bounds st2 F" "nelems F = sum_list (map nelems inputs)"
    and flat: "is_flat inputs \<longrightarrow> F = (hd inputs)\<lparr>nelems := sum_list (map nelems inputs)\<rparr>"
    and fresh: "\<not> is_flat inputs \<longrightarrow>
                 storage_offset F = 0 \<and> (\<forall>t \<in> set inputs. storage t \<noteq> storage F)"
  shows "\<exists>st3. flatten_inputs convert (is_flat inputs) F (map nelems inputs) g inputs st2 =
             Inr st3 \<and>
           (\<forall>u. in_bounds st3 u \<longleftrightarrow> in_bounds st2 u) \<and>
           contents st3 F = concat (map (contents st2) inputs) \<and>
           (is_flat inputs \<longrightarrow> st3 = st2) \<and>
           (\<forall>u. in_bounds st2 u \<and> storage u \<noteq> storage F \<longrightarrow> contents st3 u = contents st2 u)"
proof (cases "is_flat inputs")
  case True
  let ?ns = "map nelems inputs"
  from len g have ne: "inputs \<noteq> []" by auto
  from True flat have F: "F = (hd inputs)\<lparr>nelems := sum_list ?ns\<rparr>" by simp
  have "concat (map (contents st2) inputs) =
      concat (map (contents st2)
        (splits_from (hd inputs) (storage_offset (hd inputs)) ?ns))"
    using is_flat_splits [OF True ne] by simp
  also have "\<dots> = contents st2 ((hd inputs)\<lparr>storage_offset := storage_offset (hd inputs),
      nelems := sum_list ?ns\<rparr>)"
    by (rule concat_contents_splits)
  also have "\<dots> = contents st2 F"
    unfolding F by (simp only: span_eq)
  finally have "contents st2 F = concat (map (contents st2) inputs)" by simp
  with True show ?thesis by (simp add: flatten_inputs_def)
next
  case False
  let ?ns = "map nelems inputs"
  let ?splits = "splits_from F 0 ?ns"
  from False fresh have off: "storage_offset F = 0" by simp
  from off buf(2) have F: "F\<lparr>storage_offset := 0, nelems := sum_list ?ns\<rparr> = F"
    by (rule tensor_self)
  from buf off
  have Fb: "storage F < length st2" "0 + sum_list ?ns \<le> length (st2 ! storage F)"
    by (simp_all add: in_bounds_def)
  have sp: "split_with_sizes F ?ns = Inr ?splits"
    using off buf(2) by (simp add: split_with_sizes_def)
  have a1: "0 + g \<le> length ?splits" and a2: "0 + g \<le> length inputs"
    using len by simp_all
  have a3: "\<forall>j. 0 \<le> j \<and> j < 0 + g \<longrightarrow>
      in_bounds st2 (?splits ! j) \<and> in_bounds st2 (inputs ! j) \<and>
      nelems (inputs ! j) = nelems (?splits ! j) \<and> contiguous (inputs ! j) \<and>
      dtype (inputs ! j) = dtype (?splits ! j)"
  proof (intro allI impI)
    fix j assume "0 \<le> j \<and> j < 0 + g"
    with len have j: "j < length ?ns" "j < length inputs" by simp_all
    from Fb j(1) have "in_bounds st2 (?splits ! j)" by (rule splits_from_in_bounds)
    moreover from ib j(2) have "in_bounds st2 (inputs ! j)" by simp
    moreover from j have "nelems (inputs ! j) = nelems (?splits ! j)"
      by (simp add: nth_splits_from)
    moreover from kind j(2) have "contiguous (inputs ! j)" "dtype (inputs ! j) = dtype F"
      by simp_all
    moreover from j(1) have "dtype (?splits ! j) = dtype F" by (simp add: nth_splits_from)
    ultimately show "in_bounds st2 (?splits ! j) \<and> in_bounds st2 (inputs ! j) \<and>
      nelems (inputs ! j) = nelems (?splits ! j) \<and> contiguous (inputs ! j) \<and>
      dtype (inputs ! j) = dtype (?splits ! j)" by simp
  qed
  have a4: "\<forall>j l. 0 \<le> j \<and> j < l \<and> l < 0 + g \<longrightarrow> \<not> overlap (?splits ! j) (?splits ! l)"
    using len by (simp add: splits_from_no_overlap)
  have st_split: "storage (?splits ! j) = storage F" if "j < g" for j
    using that len by (simp add: nth_splits_from)
  have a5: "\<forall>j l. 0 \<le> j \<and> j < 0 + g \<and> 0 \<le> l \<and> l < 0 + g \<longrightarrow>
      \<not> overlap (?splits ! j) (inputs ! l)"
  proof (intro allI impI)
    fix j l assume h: "0 \<le> j \<and> j < 0 + g \<and> 0 \<le> l \<and> l < 0 + g"
    with len False fresh have "storage (inputs ! l) \<noteq> storage F" by simp
    with h st_split [of j] show "\<not> overlap (?splits ! j) (inputs ! l)"
      by (simp add: overlap_def)
  qed
  from copy_in_correct [OF a1 a2 a3 a4 a5, of convert] obtain st3 where
    r: "copy_in convert g 0 ?splits inputs st2 = Inr st3"
    and ib3: "\<forall>u. in_bounds st3 u \<longleftrightarrow> in_bounds st2 u"
    and got: "\<forall>j. 0 \<le> j \<and> j < 0 + g \<longrightarrow> contents st3 (?splits ! j) = contents st2 (inputs ! j)"
    and frame: "\<forall>u. in_bounds st2 u \<and> (\<forall>j. 0 \<le> j \<and> j < 0 + g \<longrightarrow> \<not> overlap (?splits ! j) u) \<longrightarrow>
                contents st3 u = contents st2 u"
    by blast
  have "map (contents st3) ?splits = map (contents st2) inputs"
    using got len by (intro nth_equalityI) simp_all
  then have "concat (map (contents st2) inputs) = concat (map (contents st3) ?splits)" by simp
  also have "\<dots> = contents st3 (F\<lparr>storage_offset := 0, nelems := sum_list ?ns\<rparr>)"
    by (rule concat_contents_splits)
  finally have c: "contents st3 F = concat (map (contents st2) inputs)" by (simp only: F)
  have fr: "\<forall>u. in_bounds st2 u \<and> storage u \<noteq> storage F \<longrightarrow> contents st3 u = contents st2 u"
  proof (intro allI impI)
    fix u assume u: "in_bounds st2 u \<and> storage u \<noteq> storage F"
    then have "\<forall>j. 0 \<le> j \<and> j < 0 + g \<longrightarrow> \<not> overlap (?splits ! j) u"
      using st_split by (simp add: overlap_def)
    with frame u show "contents st3 u = contents st2 u" by blast
  qed
  have "flatten_inputs convert (is_flat inputs) F ?ns g inputs st2 = Inr st3"
    using False sp off r by (simp add: flatten_inputs_def)
  with ib3 c fr False show ?thesis by blast
qed

text \<open>The memory after an accepted call whose buffers have the sizes of the count tables.\<close>

lemma exchange_result:
  assumes "in_bounds st3 F" and "nelems F = sum_list sc" and "in_bounds st3 G"
    and "nelems G = sum_list rc" and "length (exch (contents st3 F) sc rc) = sum_list rc"
  shows "alltoallv_transfer exch F sc G rc st3 =
           Inr (overwrite st3 G (exch (contents st3 F) sc rc))"
proof -
  from assms(2) have F: "F\<lparr>nelems := sum_list sc\<rparr> = F" by simp
  from assms(4) have G: "G\<lparr>nelems := sum_list rc\<rparr> = G" by simp
  show ?thesis
    unfolding alltoallv_transfer_def Let_def F G using assms(1,3,5) by simp
qed

text \<open>
  The split step.  Either the outputs are flat, the library has written into them and
  nothing is copied, or the loop copies piece \<open>i\<close> of the flat buffer to output \<open>i\<close>.
  In both cases output \<open>i\<close> then holds chunk \<open>i\<close> of the flat buffer.
\<close>

lemma unflatten_outputs_result:
  assumes len: "length outputs = g" and g: "0 < g"
    and ib: "\<forall>t \<in> set outputs. in_bounds st4 t"
    and kind: "\<forall>t \<in> set outputs. contiguous t \<and> dtype t = dtype G"
    and buf: "in_bounds st4 G" "nelems G = sum_list (map nelems outputs)" "contiguous G"
    and flat: "is_flat outputs \<longrightarrow> G = (hd outputs)\<lparr>nelems := sum_list (map nelems outputs)\<rparr>"
    and fresh: "\<not> is_flat outputs \<longrightarrow>
                 storage_offset G = 0 \<and> (\<forall>t \<in> set outputs. storage t \<noteq> storage G)"
    and disj: "\<not> is_flat outputs \<longrightarrow>
                 (\<forall>i j. i < j \<and> j < g \<longrightarrow> \<not> overlap (outputs ! i) (outputs ! j))"
  shows "\<exists>st5. unflatten_outputs convert (is_flat outputs) G (map nelems outputs) g outputs st4 =
             Inr st5 \<and>
           (is_flat outputs \<longrightarrow> st5 = st4) \<and>
           (\<forall>i < g. contents st5 (outputs ! i) = chunk (map nelems outputs) i (contents st4 G))"
proof (cases "is_flat outputs")
  case True
  let ?ns = "map nelems outputs"
  from len g have ne: "outputs \<noteq> []" by auto
  from True flat have G: "G = (hd outputs)\<lparr>nelems := sum_list ?ns\<rparr>" by simp
  have "contents st4 (outputs ! i) = chunk ?ns i (contents st4 G)" if i: "i < g" for i
  proof -
    from i len have il: "i < length ?ns" by simp
    have "outputs ! i = splits_from (hd outputs) (storage_offset (hd outputs)) ?ns ! i"
      using is_flat_splits [OF True ne] by simp
    then have "contents st4 (outputs ! i) =
        contents st4 (splits_from (hd outputs) (storage_offset (hd outputs)) ?ns ! i)"
      by simp
    also have "\<dots> = chunk ?ns i (contents st4
        ((hd outputs)\<lparr>storage_offset := storage_offset (hd outputs), nelems := sum_list ?ns\<rparr>))"
      by (rule contents_split [OF il])
    also have "\<dots> = chunk ?ns i (contents st4 G)"
      unfolding G by (simp only: span_eq)
    finally show ?thesis .
  qed
  with True show ?thesis by (simp add: unflatten_outputs_def)
next
  case False
  let ?ns = "map nelems outputs"
  let ?splits = "splits_from G 0 ?ns"
  from False fresh have off: "storage_offset G = 0" by simp
  from off buf(2) have G: "G\<lparr>storage_offset := 0, nelems := sum_list ?ns\<rparr> = G"
    by (rule tensor_self)
  from buf off
  have Gb: "storage G < length st4" "0 + sum_list ?ns \<le> length (st4 ! storage G)"
    by (simp_all add: in_bounds_def)
  have sp: "split_with_sizes G ?ns = Inr ?splits"
    using off buf(2) by (simp add: split_with_sizes_def)
  have a1: "0 + g \<le> length outputs" and a2: "0 + g \<le> length ?splits"
    using len by simp_all
  have a3: "\<forall>j. 0 \<le> j \<and> j < 0 + g \<longrightarrow>
      in_bounds st4 (outputs ! j) \<and> in_bounds st4 (?splits ! j) \<and>
      nelems (?splits ! j) = nelems (outputs ! j) \<and> contiguous (?splits ! j) \<and>
      dtype (?splits ! j) = dtype (outputs ! j)"
  proof (intro allI impI)
    fix j assume "0 \<le> j \<and> j < 0 + g"
    with len have j: "j < length ?ns" "j < length outputs" by simp_all
    from Gb j(1) have "in_bounds st4 (?splits ! j)" by (rule splits_from_in_bounds)
    moreover from ib j(2) have "in_bounds st4 (outputs ! j)" by simp
    moreover from j have "nelems (?splits ! j) = nelems (outputs ! j)"
      by (simp add: nth_splits_from)
    moreover from kind j(2) have "dtype (outputs ! j) = dtype G" by simp
    moreover from j(1) buf(3) have "contiguous (?splits ! j)" "dtype (?splits ! j) = dtype G"
      by (simp_all add: nth_splits_from)
    ultimately show "in_bounds st4 (outputs ! j) \<and> in_bounds st4 (?splits ! j) \<and>
      nelems (?splits ! j) = nelems (outputs ! j) \<and> contiguous (?splits ! j) \<and>
      dtype (?splits ! j) = dtype (outputs ! j)" by simp
  qed
  have a4: "\<forall>j l. 0 \<le> j \<and> j < l \<and> l < 0 + g \<longrightarrow> \<not> overlap (outputs ! j) (outputs ! l)"
    using False disj by simp
  have a5: "\<forall>j l. 0 \<le> j \<and> j < 0 + g \<and> 0 \<le> l \<and> l < 0 + g \<longrightarrow>
      \<not> overlap (outputs ! j) (?splits ! l)"
  proof (intro allI impI)
    fix j l assume h: "0 \<le> j \<and> j < 0 + g \<and> 0 \<le> l \<and> l < 0 + g"
    with len False fresh have "storage (outputs ! j) \<noteq> storage G" by simp
    moreover from h len have "storage (?splits ! l) = storage G" by (simp add: nth_splits_from)
    ultimately show "\<not> overlap (outputs ! j) (?splits ! l)" by (simp add: overlap_def)
  qed
  have a6: "\<forall>j. 0 \<le> j \<and> j < 0 + g \<longrightarrow> contiguous (outputs ! j) \<and> contiguous (?splits ! j)"
  proof (intro allI impI)
    fix j assume "0 \<le> j \<and> j < 0 + g"
    with len have j: "j < length ?ns" "j < length outputs" by simp_all
    from kind j(2) have "contiguous (outputs ! j)" by simp
    moreover from j(1) buf(3) have "contiguous (?splits ! j)" by (simp add: nth_splits_from)
    ultimately show "contiguous (outputs ! j) \<and> contiguous (?splits ! j)" by simp
  qed
  have same: "copy_out convert g 0 outputs ?splits st4 = copy_in convert g 0 outputs ?splits st4"
    by (rule copy_out_copy_in [OF a1 a2 a6])
  from copy_in_correct [OF a1 a2 a3 a4 a5, of convert] obtain st5 where
    r: "copy_in convert g 0 outputs ?splits st4 = Inr st5"
    and got: "\<forall>j. 0 \<le> j \<and> j < 0 + g \<longrightarrow> contents st5 (outputs ! j) = contents st4 (?splits ! j)"
    by blast
  have "contents st5 (outputs ! i) = chunk ?ns i (contents st4 G)" if i: "i < g" for i
  proof -
    from i len have il: "i < length ?ns" by simp
    from got i have "contents st5 (outputs ! i) = contents st4 (?splits ! i)" by simp
    also have "\<dots> = chunk ?ns i (contents st4
        (G\<lparr>storage_offset := 0, nelems := sum_list ?ns\<rparr>))"
      by (rule contents_split [OF il])
    finally show ?thesis by (simp only: G)
  qed
  moreover have "unflatten_outputs convert (is_flat outputs) G ?ns g outputs st4 = Inr st5"
    using False sp off r same by (simp add: unflatten_outputs_def)
  ultimately show ?thesis using False by blast
qed

section \<open>The dispatch function of the list all-to-all\<close>

text \<open>
  Whatever the flatten step did, the steps of lines 672 to 681 throw as those of the other
  collectives do: when the element type of the flat input is not one the dispatch macro
  knows, when the flat output has another element type than the flat input, when the
  library has no element type for it, and when the library rejects the call.  In the last
  case the call has been made; in the others nothing has been issued.  All four come
  before the transfer and before the split step.
\<close>

lemma alltoall_fn_list_throws:
  assumes h1: "computeLengthsAndCheckAndGetFlat uninit inputTensors grp_size st =
                 Inr ((isInputFlat, sendCounts, flatInput, flatSendCount), st1)"
    and h2: "computeLengthsAndCheckAndGetFlat uninit outputTensors grp_size st1 =
                 Inr ((isOutputFlat, recvCounts, flatOutput, flatRecvCount), st2)"
    and h3: "flatten_inputs convert isInputFlat flatInput sendCounts grp_size inputs st2 = Inr st3"
  shows "(\<not> dispatch_types env (dtype flatInput) \<longrightarrow>
            alltoall_fn_list env uninit convert exch grp_size inputTensors outputTensors
                inputs outputs comm pg st =
              (Inl (c10_Error (''xpu::alltoall'' @ '' not implemented for this scalar type'')),
               pg)) \<and>
         (dispatch_types env (dtype flatInput) \<and> dtype flatOutput \<noteq> dtype flatInput \<longrightarrow>
            alltoall_fn_list env uninit convert exch grp_size inputTensors outputTensors
                inputs outputs comm pg st =
              (Inl (c10_Error ''expected scalar type does not match the type of the tensor''),
               pg)) \<and>
         (dispatch_types env (dtype flatInput) \<and> dtype flatOutput = dtype flatInput \<and>
          cclDatatypes env (dtype flatOutput) = None \<longrightarrow>
            alltoall_fn_list env uninit convert exch grp_size inputTensors outputTensors
                inputs outputs comm pg st =
              (Inl (out_of_range ''map::at''), pg)) \<and>
         (dispatch_types env (dtype flatInput) \<and> dtype flatOutput = dtype flatInput \<and>
          cclDatatypes env (dtype flatOutput) = Some dt \<and>
          ccl_rejects env (ccl_alltoallv sendCounts recvCounts dt) = Some msg \<longrightarrow>
            alltoall_fn_list env uninit convert exch grp_size inputTensors outputTensors
                inputs outputs comm pg st =
              (Inl (ccl_exception msg),
               pg\<lparr>issued := issued pg @ [ccl_alltoallv sendCounts recvCounts dt]\<rparr>))"
proof -
  have p1: "\<not> dispatch_types env (dtype flatInput) \<longrightarrow>
            alltoall_fn_list env uninit convert exch grp_size inputTensors outputTensors
                inputs outputs comm pg st =
              (Inl (c10_Error (''xpu::alltoall'' @ '' not implemented for this scalar type'')),
               pg)"
    by (simp add: alltoall_fn_list_def h1 h2 h3 dispatch_def)
  have p2: "dispatch_types env (dtype flatInput) \<and> dtype flatOutput \<noteq> dtype flatInput \<longrightarrow>
            alltoall_fn_list env uninit convert exch grp_size inputTensors outputTensors
                inputs outputs comm pg st =
              (Inl (c10_Error ''expected scalar type does not match the type of the tensor''),
               pg)"
    by (simp add: alltoall_fn_list_def h1 h2 h3 dispatch_def data_ptr_def)
  have p3: "dispatch_types env (dtype flatInput) \<and> dtype flatOutput = dtype flatInput \<and>
          cclDatatypes env (dtype flatOutput) = None \<longrightarrow>
            alltoall_fn_list env uninit convert exch grp_size inputTensors outputTensors
                inputs outputs comm pg st =
              (Inl (out_of_range ''map::at''), pg)"
    by (auto simp: alltoall_fn_list_def h1 h2 h3 dispatch_def data_ptr_def map_at_def)
  have p4: "dispatch_types env (dtype flatInput) \<and> dtype flatOutput = dtype flatInput \<and>
          cclDatatypes env (dtype flatOutput) = Some dt \<and>
          ccl_rejects env (ccl_alltoallv sendCounts recvCounts dt) = Some msg \<longrightarrow>
            alltoall_fn_list env uninit convert exch grp_size inputTensors outputTensors
                inputs outputs comm pg st =
              (Inl (ccl_exception msg),
               pg\<lparr>issued := issued pg @ [ccl_alltoallv sendCounts recvCounts dt]\<rparr>)"
    by (auto simp: alltoall_fn_list_def h1 h2 h3 dispatch_def data_ptr_def map_at_def ccl_def)
  show ?thesis by (intro conjI p1 p2 p3 p4)
qed

text \<open>A tensor that is not contiguous makes the flatten loop throw at its view.\<close>

lemma copy_in_not_contiguous:
  "i < length flatInputSplits \<Longrightarrow> i < length inputs \<Longrightarrow> \<not> contiguous (inputs ! i) \<Longrightarrow>
     copy_in convert (Suc k) i flatInputSplits inputs st =
       Inl (c10_Error ''view size is not compatible with input tensor's size and stride'')"
  by (simp add: view_flat_def)

text \<open>
  Claim C1.  The dispatch function is called, as \<open>alltoall_\<close> arranges, with the captured
  lists as its arguments.  One in-bounds contiguous tensor per participant on each side,
  all of one element type that the dispatch macro and the library know; the outputs not
  overlapping one another unless they are flat; and a library that accepts the call and
  delivers as many elements as the receive counts say.  Then the call is issued with the
  two length tables, it returns its event, and

  \<^item> the two length tables are the element counts of the tensors in participant order,
    and each sums to the element count of its flat buffer;
  \<^item> after the flatten step the send buffer holds the inputs' contents one after the
    other, so that chunk \<open>i\<close> of it, at the offset given by the lengths before it, is the
    contents of input \<open>i\<close>;
  \<^item> a list that is already flat is used as it is: its flat buffer is the first tensor
    seen at the total length, no storage is allocated for it and the store is the same
    before and after the step;
  \<^item> at the end output \<open>i\<close> holds chunk \<open>i\<close> of what the library delivered for the
    send buffer;
  \<^item> hence, when the delivered data is the send buffer itself and the outputs have the
    inputs' element counts, every output ends with the contents of the input of the same
    rank: splitting undoes flattening.
\<close>

theorem unflatten_flatten_identity:
  assumes len: "length inputs = grp_size" "length outputs = grp_size" "0 < grp_size"
    and ib: "\<forall>t \<in> set inputs \<union> set outputs. in_bounds st t"
    and kind: "\<forall>t \<in> set inputs \<union> set outputs. contiguous t \<and> dtype t = ty"
    and disj: "\<not> is_flat outputs \<longrightarrow>
                 (\<forall>i j. i < j \<and> j < grp_size \<longrightarrow> \<not> overlap (outputs ! i) (outputs ! j))"
    and known: "dispatch_types env ty" "cclDatatypes env ty = Some dt"
    and accepted: "ccl_rejects env (ccl_alltoallv (map nelems inputs) (map nelems outputs) dt) =
                     None"
    and delivered: "length (exch (concat (map (contents st) inputs)) (map nelems inputs)
                      (map nelems outputs)) = sum_list (map nelems outputs)"
  shows "\<exists>flatInput st1 flatOutput st2 st3 st'.
      computeLengthsAndCheckAndGetFlat uninit inputs grp_size st =
        Inr ((is_flat inputs, map nelems inputs, flatInput, sum_list (map nelems inputs)), st1) \<and>
      computeLengthsAndCheckAndGetFlat uninit outputs grp_size st1 =
        Inr ((is_flat outputs, map nelems outputs, flatOutput, sum_list (map nelems outputs)), st2) \<and>
      flatten_inputs convert (is_flat inputs) flatInput (map nelems inputs) grp_size inputs st2 =
        Inr st3 \<and>
      alltoall_fn_list env uninit convert exch grp_size inputs outputs inputs outputs comm pg st =
        (Inr (length (issued pg), st'),
         pg\<lparr>issued := issued pg @
               [ccl_alltoallv (map nelems inputs) (map nelems outputs) dt]\<rparr>) \<and>
      nelems flatInput = sum_list (map nelems inputs) \<and>
      nelems flatOutput = sum_list (map nelems outputs) \<and>
      contents st3 flatInput = concat (map (contents st) inputs) \<and>
      (\<forall>i < grp_size. chunk (map nelems inputs) i (contents st3 flatInput) =
         contents st (inputs ! i)) \<and>
      (is_flat inputs \<longrightarrow>
         st1 = st \<and> st3 = st2 \<and>
         flatInput = (hd inputs)\<lparr>nelems := sum_list (map nelems inputs)\<rparr>) \<and>
      (is_flat outputs \<longrightarrow>
         st2 = st1 \<and>
         flatOutput = (hd outputs)\<lparr>nelems := sum_list (map nelems outputs)\<rparr> \<and>
         st' = overwrite st3 flatOutput
                 (exch (concat (map (contents st) inputs)) (map nelems inputs)
                    (map nelems outputs))) \<and>
      (\<forall>i < grp_size. contents st' (outputs ! i) =
         chunk (map nelems outputs) i
           (exch (concat (map (contents st) inputs)) (map nelems inputs) (map nelems outputs))) \<and>
      (exch (concat (map (contents st) inputs)) (map nelems inputs) (map nelems outputs) =
         concat (map (contents st) inputs) \<and>
       map nelems outputs = map nelems inputs \<longrightarrow>
         (\<forall>i < grp_size. contents st' (outputs ! i) = contents st (inputs ! i)))"
proof -
  let ?sc = "map nelems inputs" and ?rc = "map nelems outputs"
  let ?sent = "concat (map (contents st) inputs)"
  let ?R = "exch ?sent ?sc ?rc"
  from ib have ib_in: "\<forall>t \<in> set inputs. in_bounds st t"
    and ib_out: "\<forall>t \<in> set outputs. in_bounds st t" by simp_all
  from kind have kind_in: "\<forall>t \<in> set inputs. contiguous t \<and> dtype t = ty"
    and kind_out: "\<forall>t \<in> set outputs. contiguous t \<and> dtype t = ty" by simp_all
  from len have "inputs \<noteq> []" "outputs \<noteq> []" by auto
  then have "hd inputs \<in> set inputs" "hd outputs \<in> set outputs" by simp_all
  with kind have ty_hd: "dtype (hd inputs) = ty" "dtype (hd outputs) = ty" by simp_all
  \<comment> \<open>the two calls of the helper\<close>
  from computeLengths_result [OF len(1) len(3) ib_in, of uninit] obtain F st1 where
    h1: "computeLengthsAndCheckAndGetFlat uninit inputs grp_size st =
           Inr ((is_flat inputs, ?sc, F, sum_list ?sc), st1)"
    and nF: "nelems F = sum_list ?sc" and bF1: "in_bounds st1 F"
    and tF': "dtype F = dtype (hd inputs)"
    and keep1: "\<forall>u. in_bounds st u \<longrightarrow> in_bounds st1 u \<and> contents st1 u = contents st u"
    and kind1: "if is_flat inputs
            then st1 = st \<and> F = (hd inputs)\<lparr>nelems := sum_list ?sc\<rparr>
            else st1 = st @ [replicate (sum_list ?sc) uninit] \<and>
                 storage F = length st \<and> storage_offset F = 0"
    by blast
  from ib_out keep1 have ib_out1: "\<forall>t \<in> set outputs. in_bounds st1 t" by blast
  from computeLengths_result [OF len(2) len(3) ib_out1, of uninit] obtain G st2 where
    h2: "computeLengthsAndCheckAndGetFlat uninit outputs grp_size st1 =
           Inr ((is_flat outputs, ?rc, G, sum_list ?rc), st2)"
    and nG: "nelems G = sum_list ?rc" and bG2: "in_bounds st2 G"
    and cG2: "contiguous G" and tG': "dtype G = dtype (hd outputs)"
    and keep2: "\<forall>u. in_bounds st1 u \<longrightarrow> in_bounds st2 u \<and> contents st2 u = contents st1 u"
    and kind2: "if is_flat outputs
            then st2 = st1 \<and> G = (hd outputs)\<lparr>nelems := sum_list ?rc\<rparr>
            else st2 = st1 @ [replicate (sum_list ?rc) uninit] \<and>
                 storage G = length st1 \<and> storage_offset G = 0"
    by blast
  from tF' tG' ty_hd have tF: "dtype F = ty" and tG: "dtype G = ty" by simp_all
  have keep: "in_bounds st2 u \<and> contents st2 u = contents st u" if "in_bounds st u" for u
    using that keep1 keep2 by simp
  have len_st1: "length st \<le> length st1"
    using kind1 by (auto split: if_splits)
  have old: "storage t < length st" if "t \<in> set inputs \<union> set outputs" for t
    using that ib by (auto simp: in_bounds_def)
  \<comment> \<open>the flatten step\<close>
  have ib2_in: "\<forall>t \<in> set inputs. in_bounds st2 t" using ib_in keep by blast
  from bF1 keep2 have bF2: "in_bounds st2 F" by blast
  from kind_in tF have kF: "\<forall>t \<in> set inputs. contiguous t \<and> dtype t = dtype F" by simp
  have flatF: "is_flat inputs \<longrightarrow> F = (hd inputs)\<lparr>nelems := sum_list ?sc\<rparr>"
    using kind1 by (auto split: if_splits)
  have freshF: "\<not> is_flat inputs \<longrightarrow>
      storage_offset F = 0 \<and> (\<forall>t \<in> set inputs. storage t \<noteq> storage F)"
  proof
    assume nf: "\<not> is_flat inputs"
    with kind1 have F: "storage F = length st" "storage_offset F = 0" by simp_all
    have "storage t \<noteq> storage F" if "t \<in> set inputs" for t
      using old [of t] that F by simp
    with F show "storage_offset F = 0 \<and> (\<forall>t \<in> set inputs. storage t \<noteq> storage F)" by simp
  qed
  from flatten_inputs_result [OF len(1) len(3) ib2_in kF bF2 nF flatF freshF, of convert]
  obtain st3 where
    h3: "flatten_inputs convert (is_flat inputs) F ?sc grp_size inputs st2 = Inr st3"
    and ib3: "\<forall>u. in_bounds st3 u \<longleftrightarrow> in_bounds st2 u"
    and c3: "contents st3 F = concat (map (contents st2) inputs)"
    and same3: "is_flat inputs \<longrightarrow> st3 = st2"
    by blast
  have "map (contents st2) inputs = map (contents st) inputs"
    using ib_in keep by simp
  with c3 have sent: "contents st3 F = ?sent" by simp
  \<comment> \<open>the type dispatch and the library call\<close>
  from known(1) tF have d1: "dispatch env (dtype F) ''xpu::alltoall'' = Inr ()"
    by (simp add: dispatch_def)
  have d2: "data_ptr F (dtype F) = Inr ()" by (simp add: data_ptr_def)
  from tF tG have d3: "data_ptr G (dtype F) = Inr ()" by (simp add: data_ptr_def)
  from known(2) tG have d4: "map_at (cclDatatypes env) (dtype G) = Inr dt"
    by (simp add: map_at_def)
  let ?pg1 = "pg\<lparr>issued := issued pg @ [ccl_alltoallv ?sc ?rc dt]\<rparr>"
  from accepted have d5: "ccl env (ccl_alltoallv ?sc ?rc dt) pg = (Inr (length (issued pg)), ?pg1)"
    by (simp add: ccl_def)
  from bF2 ib3 have bF3: "in_bounds st3 F" by simp
  from bG2 ib3 have bG3: "in_bounds st3 G" by simp
  from delivered sent have lenR: "length (exch (contents st3 F) ?sc ?rc) = sum_list ?rc" by simp
  let ?st4 = "overwrite st3 G ?R"
  from exchange_result [of st3 F ?sc G ?rc exch, OF bF3 nF bG3 nG lenR] sent
  have h4: "alltoallv_transfer exch F ?sc G ?rc st3 = Inr ?st4" by simp
  from delivered nG have lenG: "length ?R = nelems G" by simp
  have ib4: "in_bounds ?st4 u \<longleftrightarrow> in_bounds st3 u" for u
    by (rule in_bounds_overwrite [OF bG3 lenG])
  have cG: "contents ?st4 G = ?R" by (rule contents_overwrite_same [OF bG3 lenG])
  \<comment> \<open>the split step\<close>
  have ib4_out: "\<forall>t \<in> set outputs. in_bounds ?st4 t"
    using ib_out keep ib3 ib4 by simp
  from bG3 ib4 have bG4: "in_bounds ?st4 G" by simp
  from kind_out tG have kG: "\<forall>t \<in> set outputs. contiguous t \<and> dtype t = dtype G" by simp
  have flatG: "is_flat outputs \<longrightarrow> G = (hd outputs)\<lparr>nelems := sum_list ?rc\<rparr>"
    using kind2 by (auto split: if_splits)
  have freshG: "\<not> is_flat outputs \<longrightarrow>
      storage_offset G = 0 \<and> (\<forall>t \<in> set outputs. storage t \<noteq> storage G)"
  proof
    assume nf: "\<not> is_flat outputs"
    with kind2 have G: "storage G = length st1" "storage_offset G = 0" by simp_all
    have "storage t \<noteq> storage G" if "t \<in> set outputs" for t
      using old [of t] that len_st1 G by simp
    with G show "storage_offset G = 0 \<and> (\<forall>t \<in> set outputs. storage t \<noteq> storage G)" by simp
  qed
  from unflatten_outputs_result
         [OF len(2) len(3) ib4_out kG bG4 nG cG2 flatG freshG disj, of convert]
  obtain st5 where
    h5: "unflatten_outputs convert (is_flat outputs) G ?rc grp_size outputs ?st4 = Inr st5"
    and same5: "is_flat outputs \<longrightarrow> st5 = ?st4"
    and c5: "\<forall>i < grp_size. contents st5 (outputs ! i) = chunk ?rc i (contents ?st4 G)"
    by blast
  \<comment> \<open>the whole dispatch function\<close>
  have whole: "alltoall_fn_list env uninit convert exch grp_size inputs outputs inputs outputs
      comm pg st = (Inr (length (issued pg), st5), ?pg1)"
    by (simp add: alltoall_fn_list_def h1 h2 h3 d1 d2 d3 d4 d5 h4 h5)
  have chunks: "\<forall>i < grp_size. chunk ?sc i (contents st3 F) = contents st (inputs ! i)"
  proof (intro allI impI)
    fix i assume i: "i < grp_size"
    have ml: "map length (map (contents st) inputs) = ?sc"
      using ib_in by (simp add: length_contents)
    from i len(1) have "i < length (map (contents st) inputs)" by simp
    from chunk_concat [OF this] have "chunk ?sc i ?sent = map (contents st) inputs ! i"
      unfolding ml .
    with i len(1) sent show "chunk ?sc i (contents st3 F) = contents st (inputs ! i)" by simp
  qed
  have out: "\<forall>i < grp_size. contents st5 (outputs ! i) = chunk ?rc i ?R"
    using c5 cG by simp
  have flat_in: "is_flat inputs \<longrightarrow>
      st1 = st \<and> st3 = st2 \<and> F = (hd inputs)\<lparr>nelems := sum_list ?sc\<rparr>"
    using kind1 same3 flatF by (auto split: if_splits)
  have flat_out: "is_flat outputs \<longrightarrow>
      st2 = st1 \<and> G = (hd outputs)\<lparr>nelems := sum_list ?rc\<rparr> \<and> st5 = ?st4"
    using kind2 same5 flatG by (auto split: if_splits)
  have round: "?R = ?sent \<and> ?rc = ?sc \<longrightarrow>
      (\<forall>i < grp_size. contents st5 (outputs ! i) = contents st (inputs ! i))"
  proof (intro impI allI)
    fix i assume loop: "?R = ?sent \<and> ?rc = ?sc" and i: "i < grp_size"
    from loop have R: "?R = ?sent" by (rule conjunct1)
    from loop have rc: "?rc = ?sc" by (rule conjunct2)
    from out i have "contents st5 (outputs ! i) = chunk ?rc i ?R" by simp
    also have "\<dots> = chunk ?rc i ?sent" by (simp only: R)
    also have "\<dots> = chunk ?sc i (contents st3 F)" by (simp only: rc sent)
    also from chunks i have "\<dots> = contents st (inputs ! i)" by simp
    finally show "contents st5 (outputs ! i) = contents st (inputs ! i)" .
  qed
  from h1 h2 h3 whole nF nG sent chunks flat_in flat_out out round
  show ?thesis by blast
qed

theorem unflatten_flatten_identity_witness:
  "in_bounds memory (window 0 0 3) \<and> in_bounds memory (window 1 0 2) \<and>
   in_bounds memory (window 2 0 1) \<and> in_bounds memory (window 3 3 3) \<and>
   in_bounds memory (window 3 1 2) \<and> in_bounds memory (window 3 0 1) \<and>
   \<not> is_flat [window 0 0 3, window 1 0 2, window 2 0 1] \<and>
   \<not> is_flat [window 3 3 3, window 3 1 2, window 3 0 1] \<and>
   \<not> overlap (window 3 3 3) (window 3 1 2) \<and> \<not> overlap (window 3 3 3) (window 3 0 1) \<and>
   \<not> overlap (window 3 1 2) (window 3 0 1) \<and>
   (\<exists>st'. alltoall_fn_list accepting 0 no_conversion loopback 3
             [window 0 0 3, window 1 0 2, window 2 0 1]
             [window 3 3 3, window 3 1 2, window 3 0 1]
             [window 0 0 3, window 1 0 2, window 2 0 1]
             [window 3 3 3, window 3 1 2, window 3 0 1]
             \<lparr>comm_size = 3, comm_rank = 1, comm_device = 0\<rparr> rank1of3_ready memory =
            (Inr (5, st'),
             rank1of3_ready\<lparr>issued := setup0 @ [ccl_alltoallv [3, 2, 1] [3, 2, 1] 0]\<rparr>) \<and>
          contents st' (window 3 3 3) = [1, 2, 3] \<and> contents st' (window 3 1 2) = [4, 5] \<and>
          contents st' (window 3 0 1) = [6]) \<and>
   is_flat [window 0 0 1, window 0 1 1, window 0 2 1] \<and>
   is_flat [window 3 0 1, window 3 1 1, window 3 2 1] \<and>
   alltoall_fn_list accepting 0 no_conversion loopback 3
       [window 0 0 1, window 0 1 1, window 0 2 1] [window 3 0 1, window 3 1 1, window 3 2 1]
       [window 0 0 1, window 0 1 1, window 0 2 1] [window 3 0 1, window 3 1 1, window 3 2 1]
       \<lparr>comm_size = 3, comm_rank = 1, comm_device = 0\<rparr> rank1of3_ready memory =
     (Inr (5, [[1, 2, 3], [4, 5], [6], [1, 2, 3, 0, 0, 0]]),
      rank1of3_ready\<lparr>issued := setup0 @ [ccl_alltoallv [1, 1, 1] [1, 1, 1] 0]\<rparr>)"
proof -
  let ?ins = "[window 0 0 3, window 1 0 2, window 2 0 1]"
  let ?outs = "[window 3 3 3, window 3 1 2, window 3 0 1]"
  let ?fins = "[window 0 0 1, window 0 1 1, window 0 2 1]"
  let ?fouts = "[window 3 0 1, window 3 1 1, window 3 2 1]"
  let ?comm = "\<lparr>comm_size = 3, comm_rank = 1, comm_device = 0\<rparr>"
  have l3: "(0::nat) < 3" by simp
  have known: "dispatch_types accepting kFloat" "cclDatatypes accepting kFloat = Some 0"
    by (simp_all add: accepting_def)
  have acc: "ccl_rejects accepting c = None" for c by (simp add: accepting_def)
  have i5: "length setup0 = 5" by (simp add: setup0_def)
  have is0: "issued rank1of3_ready = setup0" by (simp add: rank1of3_ready_def)
  \<comment> \<open>lists that are not flat\<close>
  have l1: "length ?ins = 3" and l2: "length ?outs = 3" by simp_all
  have ib: "\<forall>t \<in> set ?ins \<union> set ?outs. in_bounds memory t"
    by (simp add: in_bounds_def window_def memory_def)
  have kind: "\<forall>t \<in> set ?ins \<union> set ?outs. contiguous t \<and> dtype t = kFloat"
    by (simp add: window_def)
  have nf_in: "\<not> is_flat ?ins" and nf_out: "\<not> is_flat ?outs"
    by (simp_all add: is_flat_def window_def)
  have no: "\<not> overlap (window 3 3 3) (window 3 1 2)" "\<not> overlap (window 3 3 3) (window 3 0 1)"
    "\<not> overlap (window 3 1 2) (window 3 0 1)"
    by (simp_all add: overlap_def window_def)
  have disj: "\<not> is_flat ?outs \<longrightarrow>
      (\<forall>i j. i < j \<and> j < 3 \<longrightarrow> \<not> overlap (?outs ! i) (?outs ! j))"
  proof (intro impI allI)
    fix i j :: nat assume "i < j \<and> j < 3"
    then consider "i = 0 \<and> j = 1" | "i = 0 \<and> j = 2" | "i = 1 \<and> j = 2" by linarith
    then show "\<not> overlap (?outs ! i) (?outs ! j)"
      using no by cases simp_all
  qed
  have sent: "concat (map (contents memory) ?ins) = [1, 2, 3, 4, 5, 6]"
    by (simp add: contents_def window_def memory_def)
  have delivered: "length (loopback (concat (map (contents memory) ?ins)) (map nelems ?ins)
      (map nelems ?outs)) = sum_list (map nelems ?outs)"
    unfolding loopback_def sent by (simp add: window_def)
  have same: "loopback (concat (map (contents memory) ?ins)) (map nelems ?ins)
      (map nelems ?outs) = concat (map (contents memory) ?ins) \<and>
      map nelems ?outs = map nelems ?ins"
    by (simp add: loopback_def window_def)
  from unflatten_flatten_identity
         [where inputs = ?ins and outputs = ?outs and grp_size = 3 and st = memory
            and exch = loopback and uninit = 0 and convert = no_conversion and env = accepting
            and ty = kFloat and dt = 0 and comm = ?comm and pg = rank1of3_ready,
          OF l1 l2 l3 ib kind disj known acc delivered] same
  obtain st' where
    r: "alltoall_fn_list accepting 0 no_conversion loopback 3 ?ins ?outs ?ins ?outs ?comm
          rank1of3_ready memory =
        (Inr (length (issued rank1of3_ready), st'),
         rank1of3_ready\<lparr>issued := issued rank1of3_ready @
           [ccl_alltoallv (map nelems ?ins) (map nelems ?outs) 0]\<rparr>)"
    and c: "\<forall>i < 3. contents st' (?outs ! i) = contents memory (?ins ! i)"
    by blast
  from r have r': "alltoall_fn_list accepting 0 no_conversion loopback 3 ?ins ?outs ?ins ?outs
      ?comm rank1of3_ready memory =
        (Inr (5, st'),
         rank1of3_ready\<lparr>issued := setup0 @ [ccl_alltoallv [3, 2, 1] [3, 2, 1] 0]\<rparr>)"
    by (simp add: is0 i5 window_def)
  from c have "0 < (3::nat) \<longrightarrow> contents st' (?outs ! 0) = contents memory (?ins ! 0)"
    by (rule spec)
  then have c0: "contents st' (window 3 3 3) = [1, 2, 3]"
    by (simp add: contents_def window_def memory_def)
  from c have "1 < (3::nat) \<longrightarrow> contents st' (?outs ! 1) = contents memory (?ins ! 1)"
    by (rule spec)
  then have c1: "contents st' (window 3 1 2) = [4, 5]"
    by (simp add: contents_def window_def memory_def)
  from c have "2 < (3::nat) \<longrightarrow> contents st' (?outs ! 2) = contents memory (?ins ! 2)"
    by (rule spec)
  then have c2: "contents st' (window 3 0 1) = [6]"
    by (simp add: contents_def window_def memory_def)
  from r' c0 c1 c2 have first: "\<exists>st'. alltoall_fn_list accepting 0 no_conversion loopback 3
      ?ins ?outs ?ins ?outs ?comm rank1of3_ready memory =
        (Inr (5, st'),
         rank1of3_ready\<lparr>issued := setup0 @ [ccl_alltoallv [3, 2, 1] [3, 2, 1] 0]\<rparr>) \<and>
      contents st' (window 3 3 3) = [1, 2, 3] \<and> contents st' (window 3 1 2) = [4, 5] \<and>
      contents st' (window 3 0 1) = [6]"
    by blast
  \<comment> \<open>lists that are flat\<close>
  have fl1: "length ?fins = 3" and fl2: "length ?fouts = 3" by simp_all
  have fib: "\<forall>t \<in> set ?fins \<union> set ?fouts. in_bounds memory t"
    by (simp add: in_bounds_def window_def memory_def)
  have fkind: "\<forall>t \<in> set ?fins \<union> set ?fouts. contiguous t \<and> dtype t = kFloat"
    by (simp add: window_def)
  have f_in: "is_flat ?fins" and f_out: "is_flat ?fouts"
    by (simp_all add: is_flat_def window_def)
  from f_out have fdisj: "\<not> is_flat ?fouts \<longrightarrow>
      (\<forall>i j. i < j \<and> j < 3 \<longrightarrow> \<not> overlap (?fouts ! i) (?fouts ! j))"
    by simp
  have fsent: "concat (map (contents memory) ?fins) = [1, 2, 3]"
    by (simp add: contents_def window_def memory_def)
  have fdelivered: "length (loopback (concat (map (contents memory) ?fins)) (map nelems ?fins)
      (map nelems ?fouts)) = sum_list (map nelems ?fouts)"
    unfolding loopback_def fsent by (simp add: window_def)
  from unflatten_flatten_identity
         [where inputs = ?fins and outputs = ?fouts and grp_size = 3 and st = memory
            and exch = loopback and uninit = 0 and convert = no_conversion and env = accepting
            and ty = kFloat and dt = 0 and comm = ?comm and pg = rank1of3_ready,
          OF fl1 fl2 l3 fib fkind fdisj known acc fdelivered] f_in f_out
  obtain G st1 st2 st3 st' where
    fr: "alltoall_fn_list accepting 0 no_conversion loopback 3 ?fins ?fouts ?fins ?fouts ?comm
          rank1of3_ready memory =
        (Inr (length (issued rank1of3_ready), st'),
         rank1of3_ready\<lparr>issued := issued rank1of3_ready @
           [ccl_alltoallv (map nelems ?fins) (map nelems ?fouts) 0]\<rparr>)"
    and e1: "st1 = memory" and e3: "st3 = st2" and e2: "st2 = st1"
    and eG: "G = (hd ?fouts)\<lparr>nelems := sum_list (map nelems ?fouts)\<rparr>"
    and e': "st' = overwrite st3 G
               (loopback (concat (map (contents memory) ?fins)) (map nelems ?fins)
                  (map nelems ?fouts))"
    by blast
  have "st' = [[1, 2, 3], [4, 5], [6], [1, 2, 3, 0, 0, 0]]"
    unfolding e' e3 e2 e1 eG loopback_def fsent
    by (simp add: overwrite_def window_def memory_def)
  with fr have second: "alltoall_fn_list accepting 0 no_conversion loopback 3 ?fins ?fouts
      ?fins ?fouts ?comm rank1of3_ready memory =
        (Inr (5, [[1, 2, 3], [4, 5], [6], [1, 2, 3, 0, 0, 0]]),
         rank1of3_ready\<lparr>issued := setup0 @ [ccl_alltoallv [1, 1, 1] [1, 1, 1] 0]\<rparr>)"
    by (simp add: is0 i5 window_def)
  from ib have b: "in_bounds memory (window 0 0 3)" "in_bounds memory (window 1 0 2)"
    "in_bounds memory (window 2 0 1)" "in_bounds memory (window 3 3 3)"
    "in_bounds memory (window 3 1 2)" "in_bounds memory (window 3 0 1)" by simp_all
  from b nf_in nf_out no first f_in f_out second show ?thesis by (intro conjI)
qed

end
